(* ===== verification/Prelude.thy ===== *)
theory Prelude
  imports Main "HOL-Library.Signed_Division" "HOL-Library.Multiset"
begin

text \<open>
  Shared vocabulary of the development: Go's machine integers and clock values, the two
  result shapes the Go code uses, the collections that carry the component proofs, and the
  list and map lemmas more than one component needs.
\<close>

section \<open>Collections\<close>

named_theorems int64_simps \<open>evaluating wrapped 64-bit arithmetic on small operands\<close>
named_theorems geom_simps \<open>hexagonal geometry: coordinates of steps along an axis\<close>
named_theorems wf_intros \<open>well-formedness preserved by the operations\<close>
named_theorems frame_simps \<open>what an operation leaves unchanged\<close>

section \<open>Go integers\<close>

text \<open>
  Go's \<open>int\<close> has 64 bits here. Values that come from a client keep their width: every sum and
  negation of a coordinate is wrapped into \<open>[-2^63, 2^63)\<close>.
\<close>

definition wrap64 :: "int \<Rightarrow> int" where
  "wrap64 x = (x + 2 ^ 63) mod 2 ^ 64 - 2 ^ 63"

definition min_int64 :: int where
  "min_int64 = - (2 ^ 63)"

definition is_int64 :: "int \<Rightarrow> bool" where
  "is_int64 x \<longleftrightarrow> - (2 ^ 63) \<le> x \<and> x < 2 ^ 63"

lemma wrap64_small [int64_simps]: "- (2 ^ 63) \<le> x \<Longrightarrow> x < 2 ^ 63 \<Longrightarrow> wrap64 x = x"
  by (simp add: wrap64_def)

lemma wrap64_is_int64: "is_int64 (wrap64 x)"
proof -
  have "0 \<le> (x + 2 ^ 63) mod 2 ^ 64" "(x + 2 ^ 63) mod 2 ^ 64 < (2 ^ 64 :: int)"
    by (rule pos_mod_sign pos_mod_bound; simp)+
  then show ?thesis by (simp add: wrap64_def is_int64_def)
qed

lemma wrap64_shift: "wrap64 (x + 2 ^ 64) = wrap64 x"
proof -
  have "(x + 2 ^ 64 + 2 ^ 63) mod 2 ^ 64 = (x + 2 ^ 63 + 2 ^ 64) mod (2 ^ 64 :: int)"
    by (simp only: ac_simps)
  then show ?thesis unfolding wrap64_def by (simp only: mod_add_self2)
qed

lemma wrap64_above: "2 ^ 63 \<le> x \<Longrightarrow> x < 3 * 2 ^ 63 \<Longrightarrow> wrap64 x = x - 2 ^ 64"
  using wrap64_shift [of "x - 2 ^ 64"] wrap64_small [of "x - 2 ^ 64"] by simp

lemma wrap64_below: "- (3 * 2 ^ 63) \<le> x \<Longrightarrow> x < - (2 ^ 63) \<Longrightarrow> wrap64 x = x + 2 ^ 64"
  using wrap64_shift [of x] wrap64_small [of "x + 2 ^ 64"] by simp

lemma wrap64_min_add:
  "\<bar>x\<bar> < 2 ^ 40 \<Longrightarrow> wrap64 (min_int64 + x) = (if 0 \<le> x then min_int64 + x else min_int64 + x + 2 ^ 64)"
  using wrap64_small [of "min_int64 + x"] wrap64_below [of "min_int64 + x"]
  by (auto simp: min_int64_def)

lemma wrap64_min_min: "wrap64 (min_int64 + min_int64) = 0"
  by (simp add: wrap64_def min_int64_def)

section \<open>Go time\<close>

text \<open>
  A \<open>time.Time\<close> is its distance in nanoseconds from Go's zero time, which is what \<open>IsZero\<close>
  tests. \<open>Time.Sub\<close> saturates at the bounds of a \<open>Duration\<close>; \<open>Milliseconds\<close> divides
  rounding towards zero.
\<close>

type_synonym gtime = int
type_synonym duration = int

definition zero_time :: gtime where
  "zero_time = 0"

definition is_zero_time :: "gtime \<Rightarrow> bool" where
  "is_zero_time t \<longleftrightarrow> t = zero_time"

definition time_sub :: "gtime \<Rightarrow> gtime \<Rightarrow> duration" where
  "time_sub a b = max (- (2 ^ 63)) (min (2 ^ 63 - 1) (a - b))"

definition dur_ms :: "duration \<Rightarrow> int" where
  "dur_ms d = d sdiv 1000000"

lemma time_sub_self [simp]: "time_sub t t = 0"
  by (simp add: time_sub_def)

lemma dur_ms_zero [simp]: "dur_ms 0 = 0"
  by (simp add: dur_ms_def signed_divide_int_def)

lemma dur_ms_nonneg: "0 \<le> d \<Longrightarrow> 0 \<le> dur_ms d"
  by (auto simp: dur_ms_def signed_divide_int_def sgn_if)

lemma time_sub_nonneg_iff: "0 \<le> time_sub a b \<longleftrightarrow> b \<le> a"
  by (auto simp: time_sub_def)

section \<open>Lists\<close>

lemma length_list_update_nth_eq [simp]: "xs[i := xs ! i] = xs"
  by simp

lemma nth_list_update_if:
  "i < length xs \<Longrightarrow> xs[i := x] ! j = (if i = j then x else xs ! j)"
  by simp

lemma map_list_update_same:
  "f x = f (xs ! i) \<Longrightarrow> i < length xs \<Longrightarrow> map f (xs[i := x]) = map f xs"
  by (metis list_update_id map_update)

lemma sum_list_update_int:
  fixes f :: "'a \<Rightarrow> int"
  assumes "i < length xs"
  shows "sum_list (map f (xs[i := x])) = sum_list (map f xs) - f (xs ! i) + f x"
  using assms by (induction xs arbitrary: i) (auto split: nat.splits)

definition count_if :: "('a \<Rightarrow> bool) \<Rightarrow> 'a list \<Rightarrow> int" where
  "count_if P xs = sum_list (map (\<lambda>x. if P x then 1 else 0) xs)"

lemma count_if_Nil [simp]: "count_if P [] = 0"
  by (simp add: count_if_def)

lemma count_if_Cons [simp]: "count_if P (x # xs) = (if P x then 1 else 0) + count_if P xs"
  by (simp add: count_if_def)

lemma count_if_append [simp]: "count_if P (xs @ ys) = count_if P xs + count_if P ys"
  by (simp add: count_if_def)

lemma count_if_nonneg [simp]: "0 \<le> count_if P xs"
  by (induction xs) auto

lemma count_if_le_length: "count_if P xs \<le> int (length xs)"
  by (induction xs) auto

lemma count_if_filter: "count_if P xs = int (length (filter P xs))"
  by (induction xs) auto

lemma count_if_update:
  "i < length xs \<Longrightarrow> count_if P (xs[i := x])
    = count_if P xs - (if P (xs ! i) then 1 else 0) + (if P x then 1 else 0)"
  unfolding count_if_def by (rule sum_list_update_int)

lemma count_if_cong: "(\<And>x. x \<in> set xs \<Longrightarrow> P x = P' x) \<Longrightarrow> count_if P xs = count_if P' xs"
  by (induction xs) auto

lemma count_if_point:
  assumes "distinct xs" and "p \<in> set xs"
    and "\<And>x. x \<in> set xs \<Longrightarrow> x \<noteq> p \<Longrightarrow> P x = P' x"
  shows "count_if P' xs = count_if P xs - (if P p then 1 else 0) + (if P' p then 1 else 0)"
  using assms
proof (induction xs)
  case (Cons y ys)
  show ?case
  proof (cases "y = p")
    case True
    with Cons.prems have "count_if P' ys = count_if P ys"
      by (intro count_if_cong) auto
    with True show ?thesis by simp
  next
    case False
    with Cons show ?thesis by simp
  qed
qed simp

text \<open>The position of the first element with a property, as Go's \<open>for i := range\<close> with a
  \<open>return i\<close> computes it.\<close>

fun find_index :: "('a \<Rightarrow> bool) \<Rightarrow> 'a list \<Rightarrow> nat option" where
  "find_index P [] = None"
| "find_index P (x # xs) = (if P x then Some 0 else map_option Suc (find_index P xs))"

lemma find_index_None: "find_index P xs = None \<longleftrightarrow> (\<forall>x \<in> set xs. \<not> P x)"
  by (induction xs) auto

lemma find_index_Some:
  "find_index P xs = Some i \<Longrightarrow> i < length xs \<and> P (xs ! i) \<and> (\<forall>j < i. \<not> P (xs ! j))"
proof (induction xs arbitrary: i)
  case (Cons x xs)
  then show ?case by (cases i) (auto split: if_splits simp: less_Suc_eq_0_disj)
qed simp

lemma find_index_first:
  "i < length xs \<Longrightarrow> P (xs ! i) \<Longrightarrow> (\<forall>j < i. \<not> P (xs ! j)) \<Longrightarrow> find_index P xs = Some i"
proof (induction xs arbitrary: i)
  case (Cons x xs)
  show ?case
  proof (cases i)
    case (Suc k)
    with Cons.prems have "\<not> P x" "k < length xs" "P (xs ! k)" "\<forall>j < k. \<not> P (xs ! j)"
      by auto
    with Cons.IH [of k] Suc show ?thesis by simp
  qed (use Cons.prems in simp)
qed simp

lemma find_append: "find P (xs @ ys) = (case find P xs of Some x \<Rightarrow> Some x | None \<Rightarrow> find P ys)"
  by (induction xs) auto

lemma distinct_submset:
  assumes "mset xs \<subseteq># mset ys" "distinct ys"
  shows "distinct xs"
proof -
  obtain zs where "mset ys = mset (xs @ zs)"
    using assms(1) by (metis ex_mset mset_append mset_subset_eq_exists_conv)
  then have "distinct (xs @ zs)" using assms(2) by (metis mset_eq_imp_distinct_iff)
  then show ?thesis by simp
qed

section \<open>Reachable states\<close>

text \<open>The states a component can get into, and the contract under which an invariant holds in
  all of them. Each state machine of the development interprets it.\<close>

inductive reach :: "('s \<Rightarrow> bool) \<Rightarrow> ('s \<Rightarrow> 's \<Rightarrow> bool) \<Rightarrow> 's \<Rightarrow> bool"
  for start :: "'s \<Rightarrow> bool" and step :: "'s \<Rightarrow> 's \<Rightarrow> bool" where
  reach_start: "start s \<Longrightarrow> reach start step s"
| reach_step: "reach start step s \<Longrightarrow> step s s' \<Longrightarrow> reach start step s'"

locale machine =
  fixes start :: "'s \<Rightarrow> bool" and step :: "'s \<Rightarrow> 's \<Rightarrow> bool" and inv :: "'s \<Rightarrow> bool"
  assumes inv_start: "start s \<Longrightarrow> inv s"
    and inv_step: "inv s \<Longrightarrow> step s s' \<Longrightarrow> inv s'"
begin

lemma inv_reach: "reach start step s \<Longrightarrow> inv s"
  by (induction rule: reach.induct) (auto intro: inv_start inv_step)

lemma inv_steps: "step\<^sup>*\<^sup>* s s' \<Longrightarrow> inv s \<Longrightarrow> inv s'"
  by (induction rule: rtranclp_induct) (auto intro: inv_step)

end

end
