(* ===== verification/Game_Types.thy ===== *)
theory Game_Types
  imports Prelude
begin

text \<open>
  The data of the rules engine, \<open>internal/game/types.go\<close>: colours, positions, players, moves,
  captures, the kinds of win and the engine's errors.
\<close>

section \<open>Colours\<close>

text \<open>\<open>type Color int\<close>, with the named constants of the source.\<close>

type_synonym color = int

definition OffBoard :: color where "OffBoard = -1"
definition Empty :: color where "Empty = 0"
definition C1 :: color where "C1 = 1"
definition C2 :: color where "C2 = 2"
definition C6 :: color where "C6 = 6"

lemmas color_defs = OffBoard_def Empty_def C1_def C2_def C6_def

definition MaxPlayers :: nat where "MaxPlayers = 6"
definition GemsPerPlayer :: int where "GemsPerPlayer = 50"
definition DefaultBoardSide :: int where "DefaultBoardSide = 11"

definition color_string :: "color \<Rightarrow> string" where
  "color_string c =
     (if c = OffBoard then '' ''
      else if c = Empty then ''.''
      else if C1 \<le> c \<and> c \<le> C6 then [char_of (48 + nat c)]
      else ''?'')"

section \<open>Positions\<close>

text \<open>\<open>type Position struct { Q, R int }\<close>. Positions are ordered row-major over \<open>(Q, R)\<close>,
  the order in which the board scans visit them.\<close>

datatype position = Position (posQ: int) (posR: int)

instantiation position :: linorder
begin

definition less_eq_position :: "position \<Rightarrow> position \<Rightarrow> bool" where
  "less_eq_position p p' \<longleftrightarrow> posQ p < posQ p' \<or> posQ p = posQ p' \<and> posR p \<le> posR p'"

definition less_position :: "position \<Rightarrow> position \<Rightarrow> bool" where
  "less_position p p' \<longleftrightarrow> posQ p < posQ p' \<or> posQ p = posQ p' \<and> posR p < posR p'"

instance
  by standard (auto simp: less_eq_position_def less_position_def intro: position.expand)

end

section \<open>Players, moves, captures\<close>

record player =
  pl_color :: color
  pl_gems :: int
  pl_pairs :: int
  pl_time :: int

record move =
  mv_player :: color
  mv_pos :: position

record capture =
  cp_capturer :: color
  cp_victim :: color
  cp_pair :: "position \<times> position"

section \<open>Kinds of win, results, errors\<close>

datatype win_kind =
  WinNone | WinAlignment6 | WinAlignment5 | WinAlignment4 | WinCapture
| WinTimeout | WinResign | WinDraw

fun win_kind_string :: "win_kind \<Rightarrow> string" where
  "win_kind_string WinNone = ''none''"
| "win_kind_string WinAlignment6 = ''alignment6''"
| "win_kind_string WinAlignment5 = ''alignment5''"
| "win_kind_string WinAlignment4 = ''alignment4''"
| "win_kind_string WinCapture = ''capture''"
| "win_kind_string WinTimeout = ''timeout''"
| "win_kind_string WinResign = ''resign''"
| "win_kind_string WinDraw = ''draw''"

record move_result =
  mr_captures :: "capture list"
  mr_winner :: color
  mr_kind :: win_kind

datatype game_error =
  ErrOutOfBounds | ErrCellOccupied | ErrWrongTurn | ErrGameOver | ErrNoGemsLeft | ErrFlagged

text \<open>
  What a call into the engine can do: return a result, return an error, or panic on a slice
  index out of range.
\<close>

datatype 'a outcome = Done 'a | Fail game_error | Panic

lemma win_kind_string_inj: "win_kind_string k = win_kind_string k' \<Longrightarrow> k = k'"
  by (cases k; cases k') auto

end
