(* ===== verification/Board.thy ===== *)
theory Board
  imports Game_Types
begin

text \<open>
  The board of \<open>internal/game/board.go\<close>: a hexagon of side \<open>N\<close> stored row-major in a square
  array of \<open>(2N-1)\<^sup>2\<close> cells, slots outside the hexagon holding \<open>OffBoard\<close>. Coordinates are
  64-bit, so \<open>abs\<close> and the sums are wrapped.
\<close>

record board =
  b_side :: int
  b_cells :: "color list"

section \<open>Operations\<close>

definition go_abs :: "int \<Rightarrow> int" where
  "go_abs x = (if x < 0 then wrap64 (- x) else x)"

definition board_in :: "board \<Rightarrow> position \<Rightarrow> bool" where
  "board_in b p =
     (let r = b_side b - 1
      in go_abs (posQ p) \<le> r \<and> go_abs (posR p) \<le> r \<and> go_abs (wrap64 (posQ p + posR p)) \<le> r)"

definition board_idx :: "board \<Rightarrow> position \<Rightarrow> int" where
  "board_idx b p =
     (let span = 2 * b_side b - 1
      in wrap64 ((posR p + b_side b - 1) * span + (posQ p + b_side b - 1)))"

text \<open>A slice access panics unless its index is in range; \<open>board_at\<close> and \<open>board_set\<close> are
  the accesses that do not panic.\<close>

definition idx_ok :: "board \<Rightarrow> position \<Rightarrow> bool" where
  "idx_ok b p \<longleftrightarrow> 0 \<le> board_idx b p \<and> board_idx b p < int (length (b_cells b))"

definition board_at :: "board \<Rightarrow> position \<Rightarrow> color" where
  "board_at b p = b_cells b ! nat (board_idx b p)"

definition board_set :: "board \<Rightarrow> position \<Rightarrow> color \<Rightarrow> board" where
  "board_set b p c = b\<lparr>b_cells := (b_cells b)[nat (board_idx b p) := c]\<rparr>"

text \<open>The two nested loops over \<open>[-r, r]\<close> of the board scans, outer \<open>Q\<close>, inner \<open>R\<close>.\<close>

definition scan :: "int \<Rightarrow> position list" where
  "scan r = concat (map (\<lambda>q. map (\<lambda>s. Position q s) [- r..r]) [- r..r])"

definition new_board :: "int \<Rightarrow> board" where
  "new_board side =
     (let span = 2 * side - 1;
          b0 = \<lparr>b_side = side, b_cells = replicate (nat (span * span)) Empty\<rparr>
      in foldl (\<lambda>b p. if board_in b p then b else board_set b p OffBoard) b0 (scan (side - 1)))"

definition board_clone :: "board \<Rightarrow> board" where
  "board_clone b = \<lparr>b_side = b_side b, b_cells = b_cells b\<rparr>"

text \<open>The three axes and a step along one.\<close>

definition directions :: "position list" where
  "directions = [Position 1 0, Position 0 1, Position 1 (-1)]"

definition pos_step :: "position \<Rightarrow> position \<Rightarrow> int \<Rightarrow> position" where
  "pos_step p d k = Position (wrap64 (posQ p + k * posQ d)) (wrap64 (posR p + k * posR d))"

section \<open>The hexagon\<close>

text \<open>The documented validity condition, on unbounded integers.\<close>

definition hex :: "int \<Rightarrow> position \<Rightarrow> bool" where
  "hex side p \<longleftrightarrow> \<bar>posQ p\<bar> \<le> side - 1 \<and> \<bar>posR p\<bar> \<le> side - 1 \<and> \<bar>posQ p + posR p\<bar> \<le> side - 1"

definition pos64 :: "position \<Rightarrow> bool" where
  "pos64 p \<longleftrightarrow> is_int64 (posQ p) \<and> is_int64 (posR p)"

text \<open>Boards the engine builds: a side small enough for every index to fit, all cells there.\<close>

definition board_wf :: "board \<Rightarrow> bool" where
  "board_wf b \<longleftrightarrow> 1 \<le> b_side b \<and> b_side b < 2 ^ 20
     \<and> int (length (b_cells b)) = (2 * b_side b - 1) * (2 * b_side b - 1)"

section \<open>Membership\<close>

lemma go_abs_le:
  assumes "is_int64 x" and "0 \<le> r"
  shows "go_abs x \<le> r \<longleftrightarrow> \<bar>x\<bar> \<le> r \<or> x = min_int64"
proof (cases "x = min_int64")
  case True
  have "wrap64 (2 ^ 63) = - (2 ^ 63)" by (simp add: wrap64_def)
  with True assms(2) show ?thesis by (simp add: go_abs_def min_int64_def)
next
  case False
  with assms have "x < 0 \<Longrightarrow> wrap64 (- x) = - x"
    by (intro wrap64_small) (auto simp: is_int64_def min_int64_def)
  with False show ?thesis by (simp add: go_abs_def abs_if)
qed

text \<open>Exactly three positions outside the hexagon pass the test: those whose coordinates and
  sum are each zero or the least 64-bit integer, which is its own negation.\<close>

definition wrapped_positions :: "position set" where
  "wrapped_positions =
     {Position min_int64 0, Position 0 min_int64, Position min_int64 min_int64}"

lemma board_in_iff_hex_or_wrapped:
  assumes b: "board_wf b" and p: "pos64 p"
  shows "board_in b p \<longleftrightarrow> hex (b_side b) p \<or> p \<in> wrapped_positions"
proof -
  obtain q r where [simp]: "p = Position q r" by (cases p)
  let ?n = "b_side b - 1"
  have n: "0 \<le> ?n" "?n < 1048576" using b by (auto simp: board_wf_def)
  have q: "is_int64 q" and r: "is_int64 r" using p by (auto simp: pos64_def)
  have s: "is_int64 (wrap64 (q + r))" by (rule wrap64_is_int64)
  have in_eq: "board_in b p \<longleftrightarrow>
      (\<bar>q\<bar> \<le> ?n \<or> q = min_int64) \<and> (\<bar>r\<bar> \<le> ?n \<or> r = min_int64)
      \<and> (\<bar>wrap64 (q + r)\<bar> \<le> ?n \<or> wrap64 (q + r) = min_int64)"
    using go_abs_le [OF q n(1)] go_abs_le [OF r n(1)] go_abs_le [OF s n(1)]
    by (simp add: board_in_def Let_def)
  consider "\<bar>q\<bar> \<le> ?n" "\<bar>r\<bar> \<le> ?n" | "q = min_int64" "\<bar>r\<bar> \<le> ?n"
    | "\<bar>q\<bar> \<le> ?n" "r = min_int64" | "q = min_int64" "r = min_int64"
    | "\<not> (\<bar>q\<bar> \<le> ?n \<or> q = min_int64)" | "\<not> (\<bar>r\<bar> \<le> ?n \<or> r = min_int64)"
    by blast
  then show ?thesis
  proof cases
    case 1
    then have "wrap64 (q + r) = q + r" using n by (intro wrap64_small; simp; linarith)
    with 1 n show ?thesis unfolding in_eq by (auto simp: hex_def wrapped_positions_def min_int64_def)
  next
    case 2
    have "wrap64 (q + r) = (if 0 \<le> r then q + r else q + r + 2 ^ 64)"
      using 2 n wrap64_min_add [of r] by simp
    with 2 n show ?thesis
      unfolding in_eq by (auto simp: hex_def wrapped_positions_def min_int64_def)
  next
    case 3
    have "wrap64 (q + r) = (if 0 \<le> q then q + r else q + r + 2 ^ 64)"
      using 3 n wrap64_min_add [of q] by (simp add: add.commute)
    with 3 n show ?thesis
      unfolding in_eq by (auto simp: hex_def wrapped_positions_def min_int64_def)
  next
    case 4
    then have "wrap64 (q + r) = 0" using wrap64_min_min by simp
    with 4 n show ?thesis
      unfolding in_eq by (auto simp: hex_def wrapped_positions_def min_int64_def)
  qed (unfold in_eq, use n in \<open>auto simp: hex_def wrapped_positions_def\<close>)
qed

text \<open>Positions near the board, where nothing wraps.\<close>

definition near :: "position \<Rightarrow> bool" where
  "near p \<longleftrightarrow> \<bar>posQ p\<bar> < 2 ^ 40 \<and> \<bar>posR p\<bar> < 2 ^ 40"

lemma near_pos64: "near p \<Longrightarrow> pos64 p"
  by (auto simp: near_def pos64_def is_int64_def)

lemma board_in_near: "board_wf b \<Longrightarrow> near p \<Longrightarrow> board_in b p \<longleftrightarrow> hex (b_side b) p"
  by (subst board_in_iff_hex_or_wrapped)
    (auto simp: near_pos64, auto simp: wrapped_positions_def near_def min_int64_def)

lemma hex_near: "board_wf b \<Longrightarrow> hex (b_side b) p \<Longrightarrow> near p"
  by (auto simp: board_wf_def hex_def near_def)

lemma hex_board_in: "board_wf b \<Longrightarrow> hex (b_side b) p \<Longrightarrow> board_in b p"
  using board_in_near hex_near by blast

section \<open>Indices\<close>

definition in_square :: "int \<Rightarrow> position \<Rightarrow> bool" where
  "in_square side p \<longleftrightarrow> \<bar>posQ p\<bar> \<le> side - 1 \<and> \<bar>posR p\<bar> \<le> side - 1"

lemma hex_in_square: "hex side p \<Longrightarrow> in_square side p"
  by (simp add: hex_def in_square_def)

lemma square_index_bounds:
  fixes x y n :: int
  assumes "0 \<le> x" "x \<le> 2 * n" "0 \<le> y" "y \<le> 2 * n"
  shows "0 \<le> x * (2 * n + 1) + y" and "x * (2 * n + 1) + y < (2 * n + 1) * (2 * n + 1)"
proof -
  have "x * (2 * n + 1) \<le> 2 * n * (2 * n + 1)"
    using assms by (intro mult_right_mono) auto
  then show "x * (2 * n + 1) + y < (2 * n + 1) * (2 * n + 1)"
    using assms by (simp add: algebra_simps)
qed (use assms in simp)

lemma board_idx_square:
  assumes b: "board_wf b" and p: "in_square (b_side b) p"
  shows "board_idx b p = (posR p + (b_side b - 1)) * (2 * (b_side b - 1) + 1) + (posQ p + (b_side b - 1))"
    and "0 \<le> board_idx b p" and "board_idx b p < int (length (b_cells b))"
proof -
  let ?n = "b_side b - 1"
  let ?x = "posR p + ?n" and ?y = "posQ p + ?n"
  have n: "0 \<le> ?n" "?n < 1048576" and len: "int (length (b_cells b)) = (2 * ?n + 1) * (2 * ?n + 1)"
    using b by (auto simp: board_wf_def algebra_simps)
  have xy: "0 \<le> ?x" "?x \<le> 2 * ?n" "0 \<le> ?y" "?y \<le> 2 * ?n"
    using p by (auto simp: in_square_def)
  note bd = square_index_bounds [OF xy]
  have "(2 * ?n + 1) * (2 * ?n + 1) \<le> 2097153 * 2097153"
    using n by (intro mult_mono) auto
  then have "wrap64 (?x * (2 * ?n + 1) + ?y) = ?x * (2 * ?n + 1) + ?y"
    using bd by (intro wrap64_small; simp)
  moreover have "board_idx b p = wrap64 (?x * (2 * ?n + 1) + ?y)"
    by (simp add: board_idx_def Let_def algebra_simps)
  ultimately show eq: "board_idx b p = ?x * (2 * ?n + 1) + ?y" by simp
  show "0 \<le> board_idx b p" and "board_idx b p < int (length (b_cells b))"
    using bd by (simp_all add: eq len)
qed

lemma square_index_inj:
  fixes x y x' y' m :: int
  assumes "0 \<le> y" "y < m" "0 \<le> y'" "y' < m" and eq: "x * m + y = x' * m + y'"
  shows "x = x' \<and> y = y'"
proof -
  have "(x * m + y) mod m = y" "(x' * m + y') mod m = y'" using assms(1-4) by simp_all
  then have y: "y = y'" using eq by metis
  with eq assms(1,2) show ?thesis by auto
qed

lemma board_idx_inj:
  assumes b: "board_wf b" and p: "in_square (b_side b) p" and p': "in_square (b_side b) p'"
    and eq: "board_idx b p = board_idx b p'"
  shows "p = p'"
proof -
  let ?n = "b_side b - 1"
  have "posR p + ?n = posR p' + ?n \<and> posQ p + ?n = posQ p' + ?n"
    by (rule square_index_inj [where m = "2 * ?n + 1"])
      (use p p' eq in \<open>auto simp: in_square_def board_idx_square(1) [OF b p]
         board_idx_square(1) [OF b p']\<close>)
  then show ?thesis by (simp add: position.expand)
qed

lemma idx_ok_square: "board_wf b \<Longrightarrow> in_square (b_side b) p \<Longrightarrow> idx_ok b p"
  using board_idx_square(2,3) [of b p] by (simp add: idx_ok_def)

lemma idx_ok_hex: "board_wf b \<Longrightarrow> hex (b_side b) p \<Longrightarrow> idx_ok b p"
  by (rule idx_ok_square) (simp_all add: hex_in_square)

text \<open>
  At two of the three wrapped positions the membership test passes and the index is out of
  range; the third one has the index of the centre.
\<close>

lemma wrap64_shift_mult: "wrap64 (x + k * 2 ^ 64) = wrap64 x"
proof -
  have "(x + k * 2 ^ 64 + 2 ^ 63) mod 2 ^ 64 = (x + 2 ^ 63 + k * 2 ^ 64) mod (2 ^ 64 :: int)"
    by (simp only: ac_simps)
  then show ?thesis unfolding wrap64_def by (simp only: mod_mult_self1)
qed

lemma board_idx_linear:
  "board_idx b (Position q r)
    = wrap64 (r * (2 * (b_side b - 1) + 1) + q + (b_side b - 1) * (2 * (b_side b - 1) + 2))"
  by (simp add: board_idx_def Let_def algebra_simps)

lemma centre_index_bounds:
  assumes "board_wf b"
  defines "n \<equiv> b_side b - 1"
  shows "0 \<le> n * (2 * n + 2)" and "n * (2 * n + 2) < 2 ^ 50"
proof -
  have n: "0 \<le> n" "n < 1048576" using assms by (auto simp: board_wf_def)
  then have "n * (2 * n + 2) \<le> 1048576 * 2097152" by (intro mult_mono) auto
  then show "n * (2 * n + 2) < 2 ^ 50" by simp
  show "0 \<le> n * (2 * n + 2)" using n by simp
qed

lemma wrapped_idx_low:
  assumes b: "board_wf b" and p: "p = Position min_int64 0 \<or> p = Position 0 min_int64"
  shows "board_idx b p = min_int64 + (b_side b - 1) * (2 * (b_side b - 1) + 2)"
proof -
  let ?n = "b_side b - 1"
  have low: "wrap64 (min_int64 + ?n * (2 * ?n + 2)) = min_int64 + ?n * (2 * ?n + 2)"
    using centre_index_bounds [OF b] by (intro wrap64_small) (simp_all add: min_int64_def)
  have "min_int64 * (2 * ?n + 1) = min_int64 + (- ?n) * 2 ^ 64"
    by (simp add: min_int64_def algebra_simps)
  then have "min_int64 * (2 * ?n + 1) + 0 + ?n * (2 * ?n + 2)
      = min_int64 + ?n * (2 * ?n + 2) + (- ?n) * 2 ^ 64" by simp
  then have "board_idx b (Position 0 min_int64) = wrap64 (min_int64 + ?n * (2 * ?n + 2))"
    unfolding board_idx_linear by (metis wrap64_shift_mult)
  with p low show ?thesis by (auto simp: board_idx_linear)
qed

lemma wrapped_not_idx_ok:
  assumes "board_wf b" "p = Position min_int64 0 \<or> p = Position 0 min_int64"
  shows "\<not> idx_ok b p"
  using wrapped_idx_low [OF assms] centre_index_bounds [OF assms(1)]
  by (simp add: idx_ok_def min_int64_def)

lemma wrapped_idx_centre:
  assumes b: "board_wf b"
  shows "board_idx b (Position min_int64 min_int64) = board_idx b (Position 0 0)"
proof -
  let ?n = "b_side b - 1"
  have "min_int64 * (2 * ?n + 1) + min_int64 = (- ?n - 1) * 2 ^ 64"
    by (simp add: min_int64_def algebra_simps)
  then have "min_int64 * (2 * ?n + 1) + min_int64 + ?n * (2 * ?n + 2)
      = ?n * (2 * ?n + 2) + (- ?n - 1) * 2 ^ 64" by simp
  then show ?thesis
    unfolding board_idx_linear by (metis add.left_neutral mult_zero_left wrap64_shift_mult)
qed

section \<open>The grid interface\<close>

text \<open>
  What the rules rely on when they read and write cells: a write changes one cell and keeps the
  set of cells. The clients are the capture loop, which clears cells one after another, and
  the stone counts.
\<close>

locale grid =
  fixes valid :: "'g \<Rightarrow> bool"
    and cells :: "'g \<Rightarrow> position list"
    and get :: "'g \<Rightarrow> position \<Rightarrow> color"
    and put :: "'g \<Rightarrow> position \<Rightarrow> color \<Rightarrow> 'g"
  assumes valid_put: "valid g \<Longrightarrow> valid (put g p c)"
    and cells_put: "cells (put g p c) = cells g"
    and get_put: "valid g \<Longrightarrow> p \<in> set (cells g) \<Longrightarrow> p' \<in> set (cells g)
      \<Longrightarrow> get (put g p c) p' = (if p' = p then c else get g p')"
    and distinct_cells: "distinct (cells g)"
begin

abbreviation tally :: "'g \<Rightarrow> (color \<Rightarrow> bool) \<Rightarrow> int" where
  "tally g P \<equiv> count_if (\<lambda>p. P (get g p)) (cells g)"

lemma tally_put:
  assumes "valid g" "p \<in> set (cells g)"
  shows "tally (put g p c) P
    = tally g P - (if P (get g p) then 1 else 0) + (if P c then 1 else 0)"
  unfolding cells_put
  using count_if_point [OF distinct_cells assms(2),
      where P = "\<lambda>p. P (get g p)" and P' = "\<lambda>x. P (get (put g p c) x)"] assms
  by (simp add: get_put)

lemma valid_put_all: "valid g \<Longrightarrow> valid (foldl (\<lambda>g p. put g p c) g ps)"
  by (induction ps arbitrary: g) (simp_all add: valid_put)

lemma cells_put_all: "cells (foldl (\<lambda>g p. put g p c) g ps) = cells g"
  by (induction ps arbitrary: g) (simp_all add: cells_put)

lemma get_put_all:
  assumes "valid g" "set ps \<subseteq> set (cells g)" "p' \<in> set (cells g)"
  shows "get (foldl (\<lambda>g p. put g p c) g ps) p' = (if p' \<in> set ps then c else get g p')"
  using assms
proof (induction ps arbitrary: g)
  case (Cons p ps)
  then show ?case by (simp add: valid_put cells_put get_put)
qed simp

lemma tally_put_all:
  assumes "valid g" "set ps \<subseteq> set (cells g)" "distinct ps" "\<not> P c"
    and "\<And>p. p \<in> set ps \<Longrightarrow> P (get g p)"
  shows "tally (foldl (\<lambda>g p. put g p c) g ps) P = tally g P - int (length ps)"
  using assms
proof (induction ps arbitrary: g)
  case (Cons p ps)
  have "P (get (put g p c) x)" if "x \<in> set ps" for x
    using that Cons.prems by (subst get_put) auto
  then have "tally (foldl (\<lambda>g p. put g p c) (put g p c) ps) P
      = tally (put g p c) P - int (length ps)"
    using Cons.prems by (intro Cons.IH) (auto simp: valid_put cells_put)
  then show ?case using Cons.prems by (simp add: tally_put)
qed simp

lemma tally_put_all_other:
  assumes "valid g" "set ps \<subseteq> set (cells g)" "\<not> P c"
    and "\<And>p. p \<in> set ps \<Longrightarrow> \<not> P (get g p)"
  shows "tally (foldl (\<lambda>g p. put g p c) g ps) P = tally g P"
  using assms
proof (induction ps arbitrary: g)
  case (Cons p ps)
  have "\<not> P (get (put g p c) x)" if "x \<in> set ps" for x
    using that Cons.prems by (subst get_put) auto
  then have "tally (foldl (\<lambda>g p. put g p c) (put g p c) ps) P = tally (put g p c) P"
    using Cons.prems by (intro Cons.IH) (auto simp: valid_put cells_put)
  then show ?case using Cons.prems by (simp add: tally_put)
qed simp

end

section \<open>The board is a grid\<close>

lemma set_scan: "set (scan r) = {p. \<bar>posQ p\<bar> \<le> r \<and> \<bar>posR p\<bar> \<le> r}"
  by (auto simp: scan_def abs_le_iff)
    (metis (no_types) atLeastAtMost_iff imageI minus_le_iff position.collapse)

lemma distinct_scan: "distinct (scan r)"
proof -
  have "distinct (map (\<lambda>s. Position q s) [- r..r])" for q
    by (simp add: distinct_map inj_on_def)
  then have "distinct (concat (map (\<lambda>q. map (\<lambda>s. Position q s) [- r..r]) xs))" if "distinct xs" for xs
    using that by (induction xs) auto
  then show ?thesis unfolding scan_def by simp
qed

definition board_cells :: "board \<Rightarrow> position list" where
  "board_cells b = filter (hex (b_side b)) (scan (b_side b - 1))"

lemma set_board_cells: "set (board_cells b) = {p. hex (b_side b) p}"
  by (auto simp: board_cells_def set_scan hex_def)

lemma board_set_side [frame_simps]: "b_side (board_set b p c) = b_side b"
  by (simp add: board_set_def)

lemma board_set_length [frame_simps]: "length (b_cells (board_set b p c)) = length (b_cells b)"
  by (simp add: board_set_def)

lemma board_idx_set [frame_simps]: "board_idx (board_set b p c) p' = board_idx b p'"
  by (simp add: board_idx_def board_set_side)

lemma board_in_set [frame_simps]: "board_in (board_set b p c) p' = board_in b p'"
  by (simp add: board_in_def board_set_side)

lemma board_wf_set [wf_intros]: "board_wf b \<Longrightarrow> board_wf (board_set b p c)"
  by (simp add: board_wf_def frame_simps)

lemma board_at_set:
  assumes "board_wf b" "in_square (b_side b) p" "in_square (b_side b) p'"
  shows "board_at (board_set b p c) p' = (if p' = p then c else board_at b p')"
proof -
  have "nat (board_idx b p) < length (b_cells b)" "nat (board_idx b p') < length (b_cells b)"
    using board_idx_square(2,3) assms by (metis nat_less_iff)+
  moreover have "nat (board_idx b p') = nat (board_idx b p) \<longleftrightarrow> p' = p"
    using board_idx_inj [OF assms] board_idx_square(2) assms by (metis eq_nat_nat_iff)
  ultimately show ?thesis
    by (simp add: board_at_def board_idx_set) (auto simp: board_set_def)
qed

lemma board_at_set_hex [simp]:
  "board_wf b \<Longrightarrow> hex (b_side b) p \<Longrightarrow> hex (b_side b) p'
    \<Longrightarrow> board_at (board_set b p c) p' = (if p' = p then c else board_at b p')"
  by (rule board_at_set) (simp_all add: hex_in_square)

interpretation bg: grid board_wf board_cells board_at board_set
  by unfold_locales
    (simp_all add: board_wf_set set_board_cells, simp_all add: board_cells_def frame_simps distinct_scan)

text \<open>The number of cells of the hexagon whose colour satisfies a predicate.\<close>

definition tally :: "board \<Rightarrow> (color \<Rightarrow> bool) \<Rightarrow> int" where
  "tally b P = count_if (\<lambda>p. P (board_at b p)) (board_cells b)"

lemma tally_set:
  "board_wf b \<Longrightarrow> hex (b_side b) p \<Longrightarrow> tally (board_set b p c) P
    = tally b P - (if P (board_at b p) then 1 else 0) + (if P c then 1 else 0)"
  unfolding tally_def by (rule bg.tally_put) (simp_all add: set_board_cells)

lemma tally_nonneg: "0 \<le> tally b P"
  by (simp add: tally_def)

section \<open>A new board\<close>

lemma foldl_marks:
  assumes "board_wf b" and "set ps \<subseteq> {p. in_square (b_side b) p}"
  defines "b' \<equiv> foldl (\<lambda>b p. if board_in b p then b else board_set b p OffBoard) b ps"
  shows "board_wf b' \<and> b_side b' = b_side b \<and> (\<forall>p. in_square (b_side b) p \<longrightarrow>
    board_at b' p = (if p \<in> set ps \<and> \<not> board_in b p then OffBoard else board_at b p))"
  using assms(1,2) unfolding b'_def
proof (induction ps arbitrary: b)
  case (Cons p ps)
  let ?b = "if board_in b p then b else board_set b p OffBoard"
  have "board_wf ?b" "b_side ?b = b_side b" "\<And>x. board_in ?b x = board_in b x"
    using Cons.prems by (simp_all add: board_wf_set frame_simps)
  with Cons.IH [of ?b] Cons.prems show ?case
    by (auto simp: board_at_set)
qed simp

lemma near_square: "board_wf b \<Longrightarrow> in_square (b_side b) p \<Longrightarrow> near p"
  by (auto simp: board_wf_def in_square_def near_def)

lemma new_board_spec:
  assumes "1 \<le> side" "side < 2 ^ 20"
  shows "board_wf (new_board side)" and "b_side (new_board side) = side"
    and "in_square side p \<Longrightarrow> board_at (new_board side) p = (if hex side p then Empty else OffBoard)"
proof -
  let ?b = "\<lparr>b_side = side, b_cells = replicate (nat ((2 * side - 1) * (2 * side - 1))) Empty\<rparr>"
  have b: "board_wf ?b" using assms by (simp add: board_wf_def)
  have at: "board_at ?b p = Empty" if "in_square side p" for p
    using board_idx_square(2,3) [OF b, of p] that by (simp add: board_at_def nat_less_iff)
  note fm = foldl_marks [OF b, of "scan (side - 1)"]
  have sub: "set (scan (side - 1)) \<subseteq> {p. in_square (b_side ?b) p}"
    by (auto simp: set_scan in_square_def)
  have mem: "board_in ?b p = hex side p" if "in_square side p" for p
    using board_in_near [OF b] near_square [OF b] that by simp
  show "board_wf (new_board side)" "b_side (new_board side) = side"
    using fm [OF sub] by (simp_all add: new_board_def Let_def)
  show "board_at (new_board side) p = (if hex side p then Empty else OffBoard)"
    if "in_square side p"
    using fm [OF sub] that at [OF that] mem [OF that]
    by (simp add: new_board_def Let_def set_scan in_square_def)
qed

lemma tally_new_board: "1 \<le> side \<Longrightarrow> side < 2 ^ 20 \<Longrightarrow> \<not> P Empty \<Longrightarrow> tally (new_board side) P = 0"
  unfolding tally_def
  by (subst count_if_cong [where P' = "\<lambda>_. False"])
    (simp_all add: set_board_cells new_board_spec hex_in_square, simp add: count_if_def)

section \<open>Steps along an axis\<close>

lemma near_step [geom_simps]:
  "near p \<Longrightarrow> d \<in> set directions \<Longrightarrow> \<bar>k\<bar> < 2 ^ 40
    \<Longrightarrow> pos_step p d k = Position (posQ p + k * posQ d) (posR p + k * posR d)"
  by (auto simp: near_def pos_step_def directions_def intro!: wrap64_small)

end
