(* ===== verification/Rules.thy ===== *)
theory Rules
  imports Board
begin

text \<open>
  Captures and alignments, \<open>internal/game/rules.go\<close>, with their specifications: a capture is a
  flanked pair in one of the six unit directions, a run of at least \<open>n\<close> stones is a straight
  segment of \<open>n\<close> cells, and the counted runs are the maximal segments of an exact length.
\<close>

section \<open>Captures\<close>

definition try_capture :: "board \<Rightarrow> position \<Rightarrow> position \<Rightarrow> color \<Rightarrow> capture option" where
  "try_capture b p1 d c =
     (let p2 = pos_step p1 d 1; p3 = pos_step p1 d 2; p4 = pos_step p1 d 3
      in if \<not> board_in b p1 \<or> \<not> board_in b p4 then None
         else if board_at b p1 \<noteq> c \<or> board_at b p4 \<noteq> c then None
         else let v = board_at b p2
              in if v = Empty \<or> v = c \<or> v \<noteq> board_at b p3 then None
                 else Some \<lparr>cp_capturer = c, cp_victim = v, cp_pair = (p2, p3)\<rparr>)"

definition detect_captures :: "board \<Rightarrow> position \<Rightarrow> color \<Rightarrow> capture list" where
  "detect_captures b from c =
     concat (map (\<lambda>d.
       (case try_capture b from d c of Some cap \<Rightarrow> [cap] | None \<Rightarrow> [])
       @ (case try_capture b (pos_step from d (-3)) d c of Some cap \<Rightarrow> [cap] | None \<Rightarrow> []))
     directions)"

section \<open>Runs\<close>

text \<open>
  The walk along a run stops at the first cell that is off the board or of another colour; a
  straight line of the hexagon has at most \<open>2 * side - 1\<close> cells, so \<open>2 * side\<close> steps of fuel
  are enough (\<open>run_walk_enough\<close> below).
\<close>

fun run_walk :: "nat \<Rightarrow> board \<Rightarrow> color \<Rightarrow> position \<Rightarrow> position \<Rightarrow> nat" where
  "run_walk 0 b c p d = 0"
| "run_walk (Suc fuel) b c p d =
     (if board_in b p \<and> board_at b p = c then Suc (run_walk fuel b c (pos_step p d 1) d) else 0)"

definition run_fuel :: "board \<Rightarrow> nat" where
  "run_fuel b = nat (2 * b_side b)"

definition run_starts :: "board \<Rightarrow> color \<Rightarrow> (position \<times> position) list" where
  "run_starts b c =
     concat (map (\<lambda>p.
       if \<not> board_in b p \<or> board_at b p \<noteq> c then []
       else concat (map (\<lambda>d.
         let prev = pos_step p d (-1)
         in if board_in b prev \<and> board_at b prev = c then [] else [(p, d)]) directions))
     (scan (b_side b - 1)))"

text \<open>The callback returns the captured variables and whether to go on.\<close>

fun visit_runs :: "(nat \<Rightarrow> 's \<Rightarrow> 's \<times> bool) \<Rightarrow> nat list \<Rightarrow> 's \<Rightarrow> 's" where
  "visit_runs fn [] s = s"
| "visit_runs fn (l # ls) s = (case fn l s of (s', go) \<Rightarrow> if go then visit_runs fn ls s' else s')"

definition for_each_maximal_run :: "board \<Rightarrow> color \<Rightarrow> (nat \<Rightarrow> 's \<Rightarrow> 's \<times> bool) \<Rightarrow> 's \<Rightarrow> 's" where
  "for_each_maximal_run b c fn s =
     visit_runs fn (map (\<lambda>(p, d). run_walk (run_fuel b) b c p d) (run_starts b c)) s"

definition has_run :: "board \<Rightarrow> color \<Rightarrow> nat \<Rightarrow> bool" where
  "has_run b c min_len =
     for_each_maximal_run b c (\<lambda>l found. if min_len \<le> l then (True, False) else (found, True)) False"

definition count_maximal_runs :: "board \<Rightarrow> color \<Rightarrow> nat \<Rightarrow> int" where
  "count_maximal_runs b c len =
     for_each_maximal_run b c (\<lambda>l n. (if l = len then n + 1 else n, True)) 0"

section \<open>Geometry of an axis\<close>

definition shift :: "position \<Rightarrow> position \<Rightarrow> int \<Rightarrow> position" where
  "shift p d k = Position (posQ p + k * posQ d) (posR p + k * posR d)"

lemma shift_sel [simp]: "posQ (shift p d k) = posQ p + k * posQ d" "posR (shift p d k) = posR p + k * posR d"
  by (simp_all add: shift_def)

lemma shift_0 [simp]: "shift p d 0 = p"
  by (simp add: shift_def)

lemma shift_shift [simp]: "shift (shift p d i) d j = shift p d (i + j)"
  by (simp add: shift_def algebra_simps)

lemma pos_step_near: "near p \<Longrightarrow> d \<in> set directions \<Longrightarrow> \<bar>k\<bar> < 2 ^ 40 \<Longrightarrow> pos_step p d k = shift p d k"
  by (simp add: near_step shift_def)

definition on :: "board \<Rightarrow> color \<Rightarrow> position \<Rightarrow> bool" where
  "on b c p \<longleftrightarrow> hex (b_side b) p \<and> board_at b p = c"

lemma axis_cases:
  assumes "d \<in> set directions"
  obtains "posQ d = 1" "posR d = 0" | "posQ d = 0" "posR d = 1" | "posQ d = 1" "posR d = -1"
  using assms by (auto simp: directions_def)

lemma hex_shift_near:
  assumes b: "board_wf b" and h: "hex (b_side b) p" and d: "d \<in> set directions" and k: "\<bar>k\<bar> \<le> 3"
  shows "near (shift p d k)"
proof -
  have p: "\<bar>posQ p\<bar> < 1048576" "\<bar>posR p\<bar> < 1048576"
    using b h by (auto simp: board_wf_def hex_def)
  have "\<bar>k * posQ d\<bar> \<le> 3" "\<bar>k * posR d\<bar> \<le> 3"
    using k by (cases rule: axis_cases [OF d]; simp)+
  with p have "\<bar>posQ p + k * posQ d\<bar> < 1099511627776" "\<bar>posR p + k * posR d\<bar> < 1099511627776"
    by linarith+
  then show ?thesis by (simp add: near_def)
qed

lemma hex_step_in:
  assumes "board_wf b" "hex (b_side b) p" "d \<in> set directions" "\<bar>k\<bar> \<le> 3"
  shows "board_in b (pos_step p d k) \<longleftrightarrow> hex (b_side b) (shift p d k)"
  using assms hex_shift_near [OF assms] hex_near [OF assms(1,2)]
  by (simp add: pos_step_near board_in_near)

lemma hex_between:
  assumes "d \<in> set directions" "hex n p" "hex n (shift p d 3)" "0 \<le> k" "k \<le> 3"
  shows "hex n (shift p d k)"
  using assms by (cases rule: axis_cases [OF assms(1)]) (auto simp: hex_def)

text \<open>A straight segment inside the hexagon has at most \<open>2 * side - 1\<close> cells.\<close>

lemma hex_line_bound:
  assumes d: "d \<in> set directions" and "0 < n" and h: "\<forall>k < n. hex side (shift p d (int k))"
  shows "int n \<le> 2 * side - 1"
proof -
  have "hex side p" using h \<open>0 < n\<close> by (metis of_nat_0 shift_0)
  moreover have "hex side (shift p d (int (n - 1)))" using h [rule_format, of "n - 1"] \<open>0 < n\<close> by simp
  moreover have "int (n - 1) = int n - 1" using \<open>0 < n\<close> by simp
  ultimately show ?thesis
    by (cases rule: axis_cases [OF d]) (auto simp: hex_def)
qed


section \<open>Segments and runs\<close>

text \<open>
  A straight segment of \<open>n\<close> stones of one colour, and a maximal one, which cannot be extended
  at either end. These are the specifications of the run functions.
\<close>

definition segment :: "board \<Rightarrow> color \<Rightarrow> position \<Rightarrow> position \<Rightarrow> nat \<Rightarrow> bool" where
  "segment b c p d n \<longleftrightarrow> (\<forall>k < n. on b c (shift p d (int k)))"

definition maximal_segment :: "board \<Rightarrow> color \<Rightarrow> position \<Rightarrow> position \<Rightarrow> nat \<Rightarrow> bool" where
  "maximal_segment b c p d n \<longleftrightarrow>
     0 < n \<and> segment b c p d n \<and> \<not> on b c (shift p d (-1)) \<and> \<not> on b c (shift p d (int n))"

lemma segment_0 [simp]: "segment b c p d 0"
  by (simp add: segment_def)

lemma segment_Suc: "segment b c p d (Suc n) \<longleftrightarrow> on b c p \<and> segment b c (shift p d 1) d n"
  by (auto simp: segment_def less_Suc_eq_0_disj)

lemma segment_mono: "segment b c p d n \<Longrightarrow> m \<le> n \<Longrightarrow> segment b c p d m"
  by (simp add: segment_def)

lemma segment_back: "segment b c p d n \<Longrightarrow> on b c (shift p d (-1)) \<Longrightarrow> segment b c (shift p d (-1)) d (Suc n)"
  by (simp add: segment_Suc)

lemma segment_bound:
  assumes "d \<in> set directions" "segment b c p d n" "0 < n"
  shows "int n \<le> 2 * b_side b - 1"
  by (rule hex_line_bound [OF assms(1,3)]) (use assms(2) in \<open>auto simp: segment_def on_def\<close>)

lemma on_near: "board_wf b \<Longrightarrow> near p \<Longrightarrow> board_in b p \<and> board_at b p = c \<longleftrightarrow> on b c p"
  by (simp add: on_def board_in_near)

lemma run_walk_ge_iff:
  assumes b: "board_wf b" and d: "d \<in> set directions" and "near p"
  shows "n \<le> run_walk fuel b c p d \<longleftrightarrow> n \<le> fuel \<and> segment b c p d n"
  using \<open>near p\<close>
proof (induction fuel arbitrary: n p)
  case (Suc fuel)
  show ?case
  proof (cases "on b c p")
    case True
    then have "near (shift p d 1)" by (intro hex_shift_near [OF b _ d]) (auto simp: on_def)
    with True Suc on_near [OF b \<open>near p\<close>] d show ?thesis
      by (cases n) (simp_all add: pos_step_near segment_Suc)
  next
    case False
    with Suc on_near [OF b \<open>near p\<close>] show ?thesis
      by (cases n) (auto simp: segment_Suc)
  qed
qed auto

text \<open>The fuel is enough: the walk measures the longest segment from its start.\<close>

lemma run_walk_enough:
  assumes "board_wf b" "d \<in> set directions" "near p" "run_fuel b \<le> fuel"
  shows "n \<le> run_walk fuel b c p d \<longleftrightarrow> segment b c p d n"
proof -
  have "n \<le> fuel" if "segment b c p d n"
    using segment_bound [OF assms(2) that] assms(1,4) by (cases "n = 0") (auto simp: run_fuel_def)
  then show ?thesis using run_walk_ge_iff [OF assms(1-3)] by blast
qed

lemma set_run_starts:
  assumes "board_wf b"
  shows "set (run_starts b c) = {(p, d). d \<in> set directions \<and> on b c p \<and> \<not> on b c (shift p d (-1))}"
proof -
  have mem: "p \<in> set (scan (b_side b - 1))" if "on b c p" for p
    using that by (auto simp: set_scan on_def hex_def)
  have on: "board_in b p \<and> board_at b p = c \<longleftrightarrow> on b c p" if "p \<in> set (scan (b_side b - 1))" for p
    using on_near [OF assms near_square [OF assms]] that by (simp add: set_scan in_square_def)
  have prev: "board_in b (pos_step p d (-1)) \<and> board_at b (pos_step p d (-1)) = c
      \<longleftrightarrow> on b c (shift p d (-1))" if "on b c p" "d \<in> set directions" for p d
  proof -
    have "hex (b_side b) p" using that by (simp add: on_def)
    then have "near p" "near (shift p d (-1))"
      using hex_near [OF assms] hex_shift_near [OF assms] that by auto
    then show ?thesis using on_near [OF assms] that by (simp add: pos_step_near)
  qed
  have "(p, d) \<in> set (run_starts b c) \<longleftrightarrow> p \<in> set (scan (b_side b - 1))
      \<and> (board_in b p \<and> board_at b p = c) \<and> d \<in> set directions
      \<and> \<not> (board_in b (pos_step p d (-1)) \<and> board_at b (pos_step p d (-1)) = c)" for p d
    by (auto simp: run_starts_def Let_def split: if_splits)
  then show ?thesis using mem on prev by blast
qed

lemma distinct_run_starts: "distinct (run_starts b c)"
proof -
  have dirs: "distinct directions" by (simp add: directions_def)
  have inner: "distinct (concat (map (\<lambda>d. if P d then [] else [(p, d)]) ds))
      \<and> set (concat (map (\<lambda>d. if P d then [] else [(p, d)]) ds)) \<subseteq> {p} \<times> set ds"
    if "distinct ds" for P ds and p :: position
    using that by (induction ds) auto
  have outer: "distinct (concat (map (\<lambda>p. if Q p then [] else concat (map (\<lambda>d. if P p d then [] else [(p, d)]) directions)) ps))"
    if "distinct ps" for P Q and ps :: "position list"
    using that
  proof (induction ps)
    case (Cons p ps)
    then show ?case using inner [OF dirs] by (auto split: if_splits)
  qed simp
  show ?thesis unfolding run_starts_def Let_def by (rule outer [OF distinct_scan])
qed

lemma visit_runs_any:
  "visit_runs (\<lambda>l found. if m \<le> l then (True, False) else (found, True)) ls s \<longleftrightarrow> s \<or> (\<exists>l \<in> set ls. m \<le> l)"
  by (induction ls arbitrary: s) auto

lemma visit_runs_count:
  "visit_runs (\<lambda>l n. (if l = m then n + 1 else n, True)) ls s = s + count_if (\<lambda>l. l = m) ls"
  by (induction ls arbitrary: s) auto

text \<open>Every segment lies in one that has a run start as its first cell.\<close>

lemma segment_from_start:
  assumes b: "board_wf b" and d: "d \<in> set directions" and "segment b c p d n" "0 < n"
  shows "\<exists>p'. on b c p' \<and> \<not> on b c (shift p' d (-1)) \<and> segment b c p' d n"
  using assms(3,4)
proof (induction "nat (2 * b_side b) - n" arbitrary: p n rule: less_induct)
  case less
  show ?case
  proof (cases "on b c (shift p d (-1))")
    case True
    note seg = segment_back [OF less.prems(1) True]
    have "int (Suc n) \<le> 2 * b_side b - 1" by (rule segment_bound [OF d seg]) simp
    then have "nat (2 * b_side b) - Suc n < nat (2 * b_side b) - n" by linarith
    from less.hyps [OF this seg] show ?thesis using segment_mono [where m = n] by fastforce
  next
    case False
    moreover have "on b c p" using less.prems by (auto simp: segment_def)
    ultimately show ?thesis using less.prems by blast
  qed
qed

lemma has_run_segment:
  assumes b: "board_wf b" and n: "0 < n"
  shows "has_run b c n \<longleftrightarrow> (\<exists>d \<in> set directions. \<exists>p. segment b c p d n)"
proof -
  have "has_run b c n \<longleftrightarrow> (\<exists>(p, d) \<in> set (run_starts b c). n \<le> run_walk (run_fuel b) b c p d)"
    by (simp add: has_run_def for_each_maximal_run_def visit_runs_any case_prod_beta)
  also have "\<dots> \<longleftrightarrow> (\<exists>(p, d) \<in> set (run_starts b c). segment b c p d n)"
    using run_walk_enough [OF b] hex_near [OF b]
    by (intro bex_cong) (auto simp: set_run_starts [OF b] on_def)
  also have "\<dots> \<longleftrightarrow> (\<exists>d \<in> set directions. \<exists>p. segment b c p d n)"
    using segment_from_start [OF b _ _ n] by (fastforce simp: set_run_starts [OF b])
  finally show ?thesis .
qed

lemma run_walk_maximal:
  assumes b: "board_wf b" and d: "d \<in> set directions" and p: "on b c p" "\<not> on b c (shift p d (-1))"
  shows "run_walk (run_fuel b) b c p d = n \<longleftrightarrow> maximal_segment b c p d n"
proof -
  have "near p" using p hex_near [OF b] by (simp add: on_def)
  note ge = run_walk_enough [OF b d this order.refl, where c = c]
  have "run_walk (run_fuel b) b c p d = n \<longleftrightarrow> segment b c p d n \<and> \<not> segment b c p d (Suc n)"
    using ge [of n] ge [of "Suc n"] by linarith
  also have "\<dots> \<longleftrightarrow> maximal_segment b c p d n"
    using p by (cases n) (auto simp: maximal_segment_def segment_def less_Suc_eq)
  finally show ?thesis .
qed

lemma count_maximal_runs_card:
  assumes b: "board_wf b" and n: "0 < n"
  shows "count_maximal_runs b c n
    = int (card {(p, d). d \<in> set directions \<and> maximal_segment b c p d n})"
proof -
  let ?len = "\<lambda>(p, d). run_walk (run_fuel b) b c p d"
  have "count_maximal_runs b c n = int (length (filter (\<lambda>x. ?len x = n) (run_starts b c)))"
    by (simp add: count_maximal_runs_def for_each_maximal_run_def visit_runs_count
        count_if_filter filter_map comp_def)
  also have "\<dots> = int (card {x \<in> set (run_starts b c). ?len x = n})"
    using distinct_run_starts by (metis distinct_filter distinct_card set_filter)
  also have "{x \<in> set (run_starts b c). ?len x = n}
      = {(p, d). d \<in> set directions \<and> maximal_segment b c p d n}"
    using run_walk_maximal [OF b] n segment_mono [of b c _ _ n 1]
    by (fastforce simp: set_run_starts [OF b] maximal_segment_def segment_Suc)
  finally show ?thesis .
qed


section \<open>Flanked pairs\<close>

text \<open>
  The specification of a capture: from the placed stone, in one of the six unit directions, two
  stones of one other colour and then a stone of the mover's colour.
\<close>

definition neg_pos :: "position \<Rightarrow> position" where
  "neg_pos d = Position (- posQ d) (- posR d)"

definition units :: "position set" where
  "units = set directions \<union> neg_pos ` set directions"

definition flanked :: "board \<Rightarrow> color \<Rightarrow> position \<Rightarrow> position \<Rightarrow> bool" where
  "flanked b c from u \<longleftrightarrow>
     on b c from \<and> on b c (shift from u 3)
     \<and> board_at b (shift from u 1) \<noteq> Empty \<and> board_at b (shift from u 1) \<noteq> c
     \<and> board_at b (shift from u 1) = board_at b (shift from u 2)"

lemma shift_neg [simp]: "shift p (neg_pos d) k = shift p d (- k)"
  by (simp add: shift_def neg_pos_def)

lemma try_capture_Some:
  assumes b: "board_wf b" and p: "near p" and d: "d \<in> set directions" and p4: "near (shift p d 3)"
  shows "try_capture b p d c = Some cap \<longleftrightarrow>
     on b c p \<and> on b c (shift p d 3)
     \<and> board_at b (shift p d 1) \<noteq> Empty \<and> board_at b (shift p d 1) \<noteq> c
     \<and> board_at b (shift p d 1) = board_at b (shift p d 2)
     \<and> cap = \<lparr>cp_capturer = c, cp_victim = board_at b (shift p d 1),
                cp_pair = (shift p d 1, shift p d 2)\<rparr>"
  using p d p4 on_near [OF b p, of c] on_near [OF b p4, of c]
  by (auto simp: try_capture_def Let_def pos_step_near)

text \<open>A capture seen from the placed stone: victims of one colour, in the order of the source.\<close>

definition capture_toward :: "board \<Rightarrow> color \<Rightarrow> position \<Rightarrow> position \<Rightarrow> capture" where
  "capture_toward b c from u =
     \<lparr>cp_capturer = c, cp_victim = board_at b (shift from u 1),
      cp_pair = (if u \<in> set directions then (shift from u 1, shift from u 2)
                 else (shift from u 2, shift from u 1))\<rparr>"

lemma neg_not_direction: "d \<in> set directions \<Longrightarrow> neg_pos d \<notin> set directions"
  by (auto simp: directions_def neg_pos_def)

lemma shift_back_near:
  assumes b: "board_wf b" and h: "hex (b_side b) from" and d: "d \<in> set directions" and k: "\<bar>k\<bar> \<le> 3"
  shows "near from" "near (shift from d k)" "pos_step from d k = shift from d k"
  using hex_near [OF b h] hex_shift_near [OF b h d k] pos_step_near [OF hex_near [OF b h] d, of k] k
  by auto

lemma try_capture_forward:
  assumes b: "board_wf b" and h: "hex (b_side b) from" and d: "d \<in> set directions"
  shows "try_capture b from d c = Some cap \<longleftrightarrow> flanked b c from d \<and> cap = capture_toward b c from d"
  using try_capture_Some [OF b _ d, of "from" c cap] shift_back_near [OF b h d, of 3] d
  by (auto simp: flanked_def capture_toward_def)

lemma try_capture_backward:
  assumes b: "board_wf b" and h: "hex (b_side b) from" and d: "d \<in> set directions"
  shows "try_capture b (pos_step from d (-3)) d c = Some cap
    \<longleftrightarrow> flanked b c from (neg_pos d) \<and> cap = capture_toward b c from (neg_pos d)"
  using try_capture_Some [OF b _ d, of "shift from d (-3)" c cap] shift_back_near [OF b h d, of "-3"]
    neg_not_direction [OF d]
  by (auto simp: flanked_def capture_toward_def)

text \<open>The same captures in the order in which they are found, and the cells they empty.\<close>

definition unit_list :: "position list" where
  "unit_list = concat (map (\<lambda>d. [d, neg_pos d]) directions)"

definition capture_cells :: "capture list \<Rightarrow> position list" where
  "capture_cells caps = concat (map (\<lambda>cap. [fst (cp_pair cap), snd (cp_pair cap)]) caps)"

lemma set_unit_list: "set unit_list = units"
  by (auto simp: unit_list_def units_def)

lemma option_if_iff: "(\<And>x. opt = Some x \<longleftrightarrow> P \<and> x = v) \<Longrightarrow> opt = (if P then Some v else None)"
  by (cases opt) auto

lemma detect_captures_list:
  assumes b: "board_wf b" and h: "hex (b_side b) from"
  shows "detect_captures b from c
    = concat (map (\<lambda>u. if flanked b c from u then [capture_toward b c from u] else []) unit_list)"
proof -
  note fwd = option_if_iff [OF try_capture_forward [OF b h]]
    and bwd = option_if_iff [OF try_capture_backward [OF b h]]
  have "concat (map (\<lambda>d. (case try_capture b from d c of Some cap \<Rightarrow> [cap] | None \<Rightarrow> [])
       @ (case try_capture b (pos_step from d (-3)) d c of Some cap \<Rightarrow> [cap] | None \<Rightarrow> [])) ds)
    = concat (map (\<lambda>u. if flanked b c from u then [capture_toward b c from u] else [])
        (concat (map (\<lambda>d. [d, neg_pos d]) ds)))" if "set ds \<subseteq> set directions" for ds
    using that by (induction ds) (auto simp: fwd bwd)
  then show ?thesis by (simp add: detect_captures_def unit_list_def)
qed

lemma detect_captures_set:
  assumes "board_wf b" "hex (b_side b) from"
  shows "set (detect_captures b from c) = {capture_toward b c from u | u. u \<in> units \<and> flanked b c from u}"
  unfolding detect_captures_list [OF assms] by (auto simp: set_unit_list [symmetric])

lemma distinct_concat_if:
  "distinct (concat (map f us)) \<Longrightarrow> distinct (concat (map (\<lambda>u. if P u then f u else []) us))"
  by (induction us) auto

lemma flanked_hex:
  assumes "flanked b c from u" and u: "u \<in> units" and k: "0 \<le> k" "k \<le> 3"
  shows "hex (b_side b) (shift from u k)"
proof -
  have h: "hex (b_side b) from" "hex (b_side b) (shift from u 3)"
    using assms(1) by (auto simp: flanked_def on_def)
  consider "u \<in> set directions" | d where "d \<in> set directions" "u = neg_pos d"
    using u by (auto simp: units_def)
  then show ?thesis
  proof cases
    case 1
    then show ?thesis using hex_between h k by blast
  next
    case 2
    then show ?thesis
      using hex_between [of d "b_side b" "shift from d (-3)" "3 - k"] h k by simp
  qed
qed

lemma capture_cells_toward:
  "set (capture_cells [capture_toward b c from u]) = {shift from u 1, shift from u 2}"
  by (auto simp: capture_cells_def capture_toward_def)

lemma capture_cells_Nil [simp]: "capture_cells [] = []"
  by (simp add: capture_cells_def)

lemma capture_cells_append [simp]: "capture_cells (xs @ ys) = capture_cells xs @ capture_cells ys"
  by (simp add: capture_cells_def)

lemma capture_cells_concat: "capture_cells (concat xss) = concat (map capture_cells xss)"
  by (induction xss) simp_all

lemma length_capture_cells: "length (capture_cells caps) = 2 * length caps"
  by (induction caps) (auto simp: capture_cells_def)

lemma toward_cells:
  "capture_cells [capture_toward b c from u] =
     (if u \<in> set directions then [shift from u 1, shift from u 2] else [shift from u 2, shift from u 1])"
  by (simp add: capture_cells_def capture_toward_def)

lemma distinct_capture_cells:
  assumes "board_wf b" "hex (b_side b) from"
  shows "distinct (capture_cells (detect_captures b from c))"
proof -
  have "distinct (concat (map (\<lambda>u. capture_cells [capture_toward b c from u]) unit_list))"
    unfolding toward_cells by (simp add: unit_list_def directions_def neg_pos_def shift_def)
  from distinct_concat_if [OF this, where P = "flanked b c from"]
  show ?thesis
    unfolding detect_captures_list [OF assms] capture_cells_concat map_map comp_def
      if_distrib [of capture_cells] capture_cells_Nil .
qed

lemma capture_cells_on:
  assumes b: "board_wf b" and h: "hex (b_side b) from" and p: "p \<in> set (capture_cells (detect_captures b from c))"
  shows "hex (b_side b) p" "board_at b p \<noteq> Empty" "board_at b p \<noteq> c" "p \<noteq> from"
proof -
  obtain cap where "cap \<in> set (detect_captures b from c)" and pc: "p \<in> set (capture_cells [cap])"
    using p by (auto simp: capture_cells_def)
  then obtain u where u: "u \<in> units" "flanked b c from u" and "cap = capture_toward b c from u"
    unfolding detect_captures_set [OF b h] by blast
  with pc have pu: "p = shift from u 1 \<or> p = shift from u 2"
    unfolding \<open>cap = _\<close> capture_cells_toward by blast
  show "hex (b_side b) p" using flanked_hex [OF u(2,1)] pu by auto
  show "board_at b p \<noteq> Empty" "board_at b p \<noteq> c" using u pu by (auto simp: flanked_def)
  then show "p \<noteq> from" using u by (auto simp: flanked_def on_def)
qed

text \<open>At the wrapped position that passes the membership test nothing is captured.\<close>

lemma detect_captures_wrapped:
  assumes b: "board_wf b"
  shows "detect_captures b (Position min_int64 min_int64) c = []"
proof -
  have off: "\<not> board_in b (pos_step (Position min_int64 min_int64) d k)"
    if "d \<in> set directions" "k = 3 \<or> k = -3" for d k
  proof -
    have "\<not> hex (b_side b) (pos_step (Position min_int64 min_int64) d k)"
      using that b by (auto simp: directions_def pos_step_def hex_def board_wf_def min_int64_def wrap64_def)
    moreover have "pos_step (Position min_int64 min_int64) d k \<notin> wrapped_positions"
      using that by (auto simp: directions_def pos_step_def wrapped_positions_def min_int64_def wrap64_def)
    moreover have "pos64 (pos_step (Position min_int64 min_int64) d k)"
      by (simp add: pos64_def pos_step_def wrap64_is_int64)
    ultimately show ?thesis using board_in_iff_hex_or_wrapped [OF b] by blast
  qed
  show ?thesis
    unfolding detect_captures_def try_capture_def Let_def using off by (auto simp: directions_def)
qed

end
