(* ===== verification/Game_State.thy ===== *)
theory Game_State
  imports Rules
begin

text \<open>
  A game in progress, \<open>internal/game/state.go\<close>: its configuration, board, players, turn, history
  and result, and the operations that change it. \<open>apply_move\<close> returns the new state beside the
  move's result; an error or a panic happens before the first write, so those branches carry no
  state.
\<close>

section \<open>Configuration\<close>

record config =
  cf_side :: int
  cf_pairs :: int
  cf_align4 :: int
  cf_align5 :: int
  cf_initial :: int
  cf_incr :: int

definition DefaultInitialTimeMs :: int where "DefaultInitialTimeMs = 10 * 60 * 1000"

definition default_config :: "int \<Rightarrow> config" where
  "default_config n =
     (let mk = (\<lambda>pairs a4 a5. \<lparr>cf_side = DefaultBoardSide, cf_pairs = pairs, cf_align4 = a4,
                  cf_align5 = a5, cf_initial = DefaultInitialTimeMs, cf_incr = 0\<rparr>)
      in if n = 2 then mk 12 8 3
         else if n = 3 then mk 10 6 3
         else if n = 4 then mk 9 5 2
         else if n = 5 then mk 7 4 2
         else if n = 6 then mk 6 4 2
         else mk 12 8 3)"

definition config_for :: "int \<Rightarrow> config \<Rightarrow> config" where
  "config_for n base =
     (let out = (default_config n)\<lparr>cf_initial := cf_initial base, cf_incr := cf_incr base\<rparr>
      in if cf_side base > 0 then out\<lparr>cf_side := cf_side base\<rparr> else out)"

section \<open>The game\<close>

record game_state =
  gs_config :: config
  gs_board :: board
  gs_players :: "player list"
  gs_turn :: nat
  gs_history :: "move list"
  gs_winner :: color
  gs_kind :: win_kind
  gs_started :: gtime

definition new_game :: "color list \<Rightarrow> config \<Rightarrow> game_state" where
  "new_game colors cfg =
     \<lparr>gs_config = cfg, gs_board = new_board (cf_side cfg),
      gs_players = map (\<lambda>c. \<lparr>pl_color = c, pl_gems = GemsPerPlayer, pl_pairs = 0,
                              pl_time = cf_initial cfg\<rparr>) colors,
      gs_turn = 0, gs_history = [], gs_winner = Empty, gs_kind = WinNone,
      gs_started = zero_time\<rparr>"

text \<open>\<open>Clone\<close> omits the history.\<close>

definition clone :: "game_state \<Rightarrow> game_state" where
  "clone g =
     \<lparr>gs_config = gs_config g, gs_board = board_clone (gs_board g), gs_players = gs_players g,
      gs_turn = gs_turn g, gs_history = [], gs_winner = gs_winner g, gs_kind = gs_kind g,
      gs_started = gs_started g\<rparr>"

definition start_clock :: "game_state \<Rightarrow> gtime \<Rightarrow> game_state" where
  "start_clock g now = (if cf_initial (gs_config g) > 0 then g\<lparr>gs_started := now\<rparr> else g)"

definition current_player :: "game_state \<Rightarrow> player" where
  "current_player g = gs_players g ! gs_turn g"

definition is_over :: "game_state \<Rightarrow> bool" where
  "is_over g \<longleftrightarrow> gs_winner g \<noteq> Empty \<or> gs_kind g \<noteq> WinNone"

definition clock_enabled :: "game_state \<Rightarrow> bool" where
  "clock_enabled g \<longleftrightarrow> cf_initial (gs_config g) > 0"

definition remaining_for_active :: "game_state \<Rightarrow> gtime \<Rightarrow> int" where
  "remaining_for_active g now =
     (if \<not> clock_enabled g \<or> is_over g then pl_time (current_player g)
      else if is_zero_time (gs_started g) then pl_time (current_player g)
      else let elapsed = dur_ms (time_sub now (gs_started g));
               r = pl_time (current_player g) - elapsed
           in if r < 0 then 0 else r)"

definition count_alignments :: "game_state \<Rightarrow> color \<Rightarrow> nat \<Rightarrow> int" where
  "count_alignments g c len = count_maximal_runs (gs_board g) c len"

definition check_win :: "game_state \<Rightarrow> player \<Rightarrow> win_kind" where
  "check_win g p =
     (if has_run (gs_board g) (pl_color p) 6 then WinAlignment6
      else if cf_align5 (gs_config g) > 0
              \<and> count_maximal_runs (gs_board g) (pl_color p) 5 \<ge> cf_align5 (gs_config g)
      then WinAlignment5
      else if cf_align4 (gs_config g) > 0
              \<and> count_maximal_runs (gs_board g) (pl_color p) 4 \<ge> cf_align4 (gs_config g)
      then WinAlignment4
      else if cf_pairs (gs_config g) > 0 \<and> pl_pairs p \<ge> cf_pairs (gs_config g)
      then WinCapture
      else WinNone)"

section \<open>Playing a move\<close>

text \<open>The clock part of \<open>ApplyMove\<close>: the active player after paying for the elapsed time, or
  nothing when the clock is exhausted.\<close>

definition charge_clock :: "game_state \<Rightarrow> player \<Rightarrow> gtime \<Rightarrow> player option" where
  "charge_clock g cur now =
     (if clock_enabled g \<and> \<not> is_zero_time (gs_started g)
      then let e = dur_ms (time_sub now (gs_started g));
               elapsed = (if e < 0 then 0 else e)
           in if elapsed > pl_time cur then None
              else Some (cur\<lparr>pl_time := pl_time cur - elapsed + cf_incr (gs_config g)\<rparr>)
      else Some cur)"

definition remove_pairs :: "board \<Rightarrow> capture list \<Rightarrow> board" where
  "remove_pairs b caps =
     foldl (\<lambda>b cap. board_set (board_set b (fst (cp_pair cap)) Empty) (snd (cp_pair cap)) Empty) b caps"

text \<open>The part after the guards: stone, captures, win check, next turn.\<close>

definition place :: "game_state \<Rightarrow> move \<Rightarrow> player \<Rightarrow> gtime \<Rightarrow> game_state \<times> move_result" where
  "place g m cur now =
     (let b1 = board_set (gs_board g) (mv_pos m) (mv_player m);
          caps = detect_captures b1 (mv_pos m) (mv_player m);
          cur' = cur\<lparr>pl_gems := pl_gems cur - 1, pl_pairs := pl_pairs cur + int (length caps)\<rparr>;
          g1 = g\<lparr>gs_board := remove_pairs b1 caps,
                 gs_players := (gs_players g)[gs_turn g := cur'],
                 gs_history := gs_history g @ [m]\<rparr>;
          kind = check_win g1 cur'
      in if kind \<noteq> WinNone
         then (g1\<lparr>gs_winner := pl_color cur', gs_kind := kind\<rparr>,
               \<lparr>mr_captures = caps, mr_winner = pl_color cur', mr_kind = kind\<rparr>)
         else (g1\<lparr>gs_turn := (gs_turn g + 1) mod length (gs_players g),
                  gs_started := (if clock_enabled g then now else gs_started g)\<rparr>,
               \<lparr>mr_captures = caps, mr_winner = Empty, mr_kind = WinNone\<rparr>))"

definition apply_move :: "game_state \<Rightarrow> move \<Rightarrow> gtime \<Rightarrow> (game_state \<times> move_result) outcome" where
  "apply_move g m now =
     (if is_over g then Fail ErrGameOver
      else if length (gs_players g) \<le> gs_turn g then Panic
      else if pl_color (current_player g) \<noteq> mv_player m then Fail ErrWrongTurn
      else if \<not> board_in (gs_board g) (mv_pos m) then Fail ErrOutOfBounds
      else if \<not> idx_ok (gs_board g) (mv_pos m) then Panic
      else if board_at (gs_board g) (mv_pos m) \<noteq> Empty then Fail ErrCellOccupied
      else if pl_gems (current_player g) \<le> 0 then Fail ErrNoGemsLeft
      else case charge_clock g (current_player g) now of
             None \<Rightarrow> Fail ErrFlagged
           | Some cur \<Rightarrow> Done (place g m cur now))"

section \<open>Other endings\<close>

definition survivor :: "game_state \<Rightarrow> color \<Rightarrow> color option" where
  "survivor g loser =
     (if length (gs_players g) = 2
      then map_option pl_color (find (\<lambda>p. pl_color p \<noteq> loser) (gs_players g)) else None)"

definition forfeit :: "game_state \<Rightarrow> color \<Rightarrow> game_state" where
  "forfeit g loser =
     (if is_over g then g
      else let g1 = g\<lparr>gs_kind := WinTimeout\<rparr>
           in case survivor g loser of
                Some w \<Rightarrow> g1\<lparr>gs_winner := w\<rparr>
              | None \<Rightarrow> g1\<lparr>gs_winner := Empty,
                  gs_players := map (\<lambda>p. if pl_color p = loser then p\<lparr>pl_time := 0\<rparr> else p) (gs_players g)\<rparr>)"

definition resign :: "game_state \<Rightarrow> color \<Rightarrow> game_state" where
  "resign g loser =
     (if is_over g then g
      else let g1 = g\<lparr>gs_kind := WinResign\<rparr>
           in case survivor g loser of
                Some w \<Rightarrow> g1\<lparr>gs_winner := w\<rparr>
              | None \<Rightarrow> g1\<lparr>gs_winner := Empty\<rparr>)"

definition agree_draw :: "game_state \<Rightarrow> game_state" where
  "agree_draw g = (if is_over g then g else g\<lparr>gs_kind := WinDraw, gs_winner := Empty\<rparr>)"

section \<open>Placing a stone\<close>

definition stones :: "board \<Rightarrow> int" where
  "stones b = tally b (\<lambda>c. c \<noteq> Empty)"

lemma remove_pairs_cells: "remove_pairs b caps = foldl (\<lambda>b p. board_set b p Empty) b (capture_cells caps)"
  unfolding remove_pairs_def by (induction caps arbitrary: b) (simp_all add: capture_cells_def)

lemma remove_pairs_frame [frame_simps]:
  "b_side (remove_pairs b caps) = b_side b" "length (b_cells (remove_pairs b caps)) = length (b_cells b)"
  unfolding remove_pairs_def by (induction caps arbitrary: b) (simp_all add: frame_simps)

lemma remove_pairs_wf [wf_intros]: "board_wf b \<Longrightarrow> board_wf (remove_pairs b caps)"
  by (simp add: board_wf_def frame_simps)

lemma remove_pairs_at:
  assumes "board_wf b" "set (capture_cells caps) \<subseteq> {p. hex (b_side b) p}" "hex (b_side b) p"
  shows "board_at (remove_pairs b caps) p = (if p \<in> set (capture_cells caps) then Empty else board_at b p)"
  unfolding remove_pairs_cells using assms by (intro bg.get_put_all) (simp_all add: set_board_cells)

lemma stones_remove_pairs:
  assumes "board_wf b" "set (capture_cells caps) \<subseteq> {p. hex (b_side b) p}"
    and "distinct (capture_cells caps)" "\<And>p. p \<in> set (capture_cells caps) \<Longrightarrow> board_at b p \<noteq> Empty"
  shows "stones (remove_pairs b caps) = stones b - 2 * int (length caps)"
  using bg.tally_put_all [of b "capture_cells caps" "\<lambda>c. c \<noteq> Empty" Empty] assms
  by (simp add: stones_def tally_def remove_pairs_cells set_board_cells length_capture_cells)

text \<open>
  A position that passes the guards names a cell of the hexagon: itself, or the centre when it
  is the wrapped position whose index is the centre's. Nothing is captured from the latter.
\<close>

lemma accepted_cell:
  assumes b: "board_wf b" and pos: "pos64 pos" "board_in b pos" "idx_ok b pos"
  obtains q where "hex (b_side b) q" "board_idx b pos = board_idx b q"
    "q = pos \<or> pos = Position min_int64 min_int64 \<and> q = Position 0 0"
proof -
  have "hex (b_side b) pos \<or> pos = Position min_int64 min_int64"
    using board_in_iff_hex_or_wrapped [OF b pos(1)] wrapped_not_idx_ok [OF b] pos
    by (auto simp: wrapped_positions_def)
  then show thesis
  proof
    assume eq: "pos = Position min_int64 min_int64"
    have "hex (b_side b) (Position 0 0)" using b by (auto simp: hex_def board_wf_def)
    then show thesis by (rule that) (simp_all add: eq wrapped_idx_centre [OF b])
  qed (use that in auto)
qed

lemma idx_eq_same:
  "board_idx b p = board_idx b q \<Longrightarrow> board_at b p = board_at b q \<and> board_set b p c = board_set b q c"
  by (simp add: board_at_def board_set_def)

lemma placed:
  assumes b: "board_wf b" and pos: "pos64 pos" "board_in b pos" "idx_ok b pos"
    and c: "c \<noteq> Empty" and free: "board_at b pos = Empty"
  defines "b1 \<equiv> board_set b pos c"
  defines "caps \<equiv> detect_captures b1 pos c"
  obtains q where "hex (b_side b) q" "b1 = board_set b q c" "board_at b q = Empty"
    "q = pos \<or> pos = Position min_int64 min_int64 \<and> q = Position 0 0"
    "distinct (capture_cells caps)"
    "\<And>p. p \<in> set (capture_cells caps) \<Longrightarrow>
       hex (b_side b) p \<and> board_at b p \<noteq> Empty \<and> board_at b p \<noteq> c \<and> p \<noteq> q"
proof -
  obtain q where q: "hex (b_side b) q" "board_idx b pos = board_idx b q"
    "q = pos \<or> pos = Position min_int64 min_int64 \<and> q = Position 0 0"
    using accepted_cell [OF b pos] by blast
  have b1: "b1 = board_set b q c" "board_at b q = Empty"
    using idx_eq_same [OF q(2), of c] free by (simp_all add: b1_def)
  have wf1: "board_wf b1" and side: "b_side b1 = b_side b" using b by (simp_all add: b1 wf_intros frame_simps)
  have caps: "distinct (capture_cells caps) \<and> (\<forall>p \<in> set (capture_cells caps).
       hex (b_side b) p \<and> board_at b1 p \<noteq> Empty \<and> board_at b1 p \<noteq> c \<and> p \<noteq> q)"
  proof (cases "q = pos")
    case True
    then show ?thesis
      using distinct_capture_cells [OF wf1, of pos c] capture_cells_on [OF wf1, of pos _ c] q(1)
      by (auto simp: caps_def side)
  next
    case False
    then have "caps = []" using q(3) detect_captures_wrapped [OF wf1] by (simp add: caps_def)
    then show ?thesis by simp
  qed
  show thesis
    by (rule that [OF q(1) b1 q(3)]) (use caps b q(1) in \<open>auto simp: b1\<close>)
qed

section \<open>Well-formed games\<close>

text \<open>
  Every stone ever placed is on the board or was captured in a pair, every cell holds a player's
  colour, and a winner is one of the players.
\<close>

definition cells_ok :: "game_state \<Rightarrow> bool" where
  "cells_ok g \<longleftrightarrow> (\<forall>p. hex (b_side (gs_board g)) p
     \<longrightarrow> board_at (gs_board g) p = Empty \<or> board_at (gs_board g) p \<in> pl_color ` set (gs_players g))"

definition player_ok :: "player \<Rightarrow> bool" where
  "player_ok p \<longleftrightarrow> C1 \<le> pl_color p \<and> pl_color p \<le> C6 \<and> 0 \<le> pl_gems p \<and> pl_gems p \<le> GemsPerPlayer
     \<and> 0 \<le> pl_pairs p \<and> 0 \<le> pl_time p"

definition total_pairs :: "game_state \<Rightarrow> int" where
  "total_pairs g = sum_list (map pl_pairs (gs_players g))"

definition gems_spent :: "game_state \<Rightarrow> int" where
  "gems_spent g = sum_list (map (\<lambda>p. GemsPerPlayer - pl_gems p) (gs_players g))"

definition result_ok :: "game_state \<Rightarrow> bool" where
  "result_ok g \<longleftrightarrow> (gs_winner g = Empty \<and> gs_kind g \<in> {WinNone, WinTimeout, WinResign, WinDraw}
     \<or> gs_winner g \<in> pl_color ` set (gs_players g) \<and> gs_kind g \<notin> {WinNone, WinDraw})"

definition game_wf :: "game_state \<Rightarrow> bool" where
  "game_wf g \<longleftrightarrow> board_wf (gs_board g) \<and> gs_turn g < length (gs_players g)
     \<and> distinct (map pl_color (gs_players g)) \<and> (\<forall>p \<in> set (gs_players g). player_ok p)
     \<and> 0 \<le> cf_incr (gs_config g) \<and> cells_ok g
     \<and> stones (gs_board g) + 2 * total_pairs g = int (length (gs_history g))
     \<and> gems_spent g = int (length (gs_history g)) \<and> result_ok g"

lemma current_in: "game_wf g \<Longrightarrow> current_player g \<in> set (gs_players g)"
  by (simp add: game_wf_def current_player_def)

lemma color_not_Empty: "player_ok p \<Longrightarrow> pl_color p \<noteq> Empty"
  by (auto simp: player_ok_def color_defs)

lemma colors_update:
  "i < length ps \<Longrightarrow> pl_color p = pl_color (ps ! i) \<Longrightarrow> map pl_color (ps[i := p]) = map pl_color ps"
  by (rule map_list_update_same)

lemma color_image: "pl_color ` set ps = set (map pl_color ps)"
  by simp

lemma new_game_wf:
  assumes "colors \<noteq> []" "distinct colors" "\<forall>c \<in> set colors. C1 \<le> c \<and> c \<le> C6"
    and "1 \<le> cf_side cfg" "cf_side cfg < 2 ^ 20" "0 \<le> cf_initial cfg" "0 \<le> cf_incr cfg"
  shows "game_wf (new_game colors cfg)"
proof -
  have "stones (new_board (cf_side cfg)) = 0"
    using tally_new_board [OF assms(4,5)] by (simp add: stones_def)
  moreover have "cells_ok (new_game colors cfg)"
    using new_board_spec [OF assms(4,5)] by (auto simp: cells_ok_def new_game_def hex_in_square)
  ultimately show ?thesis
    using assms new_board_spec(1) [OF assms(4,5)]
    by (auto simp: game_wf_def new_game_def result_ok_def total_pairs_def gems_spent_def
        player_ok_def GemsPerPlayer_def comp_def sum_list_0)
qed

section \<open>What a move does\<close>

definition move_board :: "game_state \<Rightarrow> move \<Rightarrow> board" where
  "move_board g m = board_set (gs_board g) (mv_pos m) (mv_player m)"

definition move_captures :: "game_state \<Rightarrow> move \<Rightarrow> capture list" where
  "move_captures g m = detect_captures (move_board g m) (mv_pos m) (mv_player m)"

definition paid_player :: "game_state \<Rightarrow> move \<Rightarrow> player \<Rightarrow> player" where
  "paid_player g m cur =
     cur\<lparr>pl_gems := pl_gems cur - 1, pl_pairs := pl_pairs cur + int (length (move_captures g m))\<rparr>"

definition moved :: "game_state \<Rightarrow> move \<Rightarrow> player \<Rightarrow> game_state" where
  "moved g m cur = g\<lparr>gs_board := remove_pairs (move_board g m) (move_captures g m),
     gs_players := (gs_players g)[gs_turn g := paid_player g m cur], gs_history := gs_history g @ [m]\<rparr>"

lemma place_eq:
  "place g m cur now =
     (let g1 = moved g m cur; kind = check_win g1 (paid_player g m cur); caps = move_captures g m
      in if kind \<noteq> WinNone
         then (g1\<lparr>gs_winner := pl_color cur, gs_kind := kind\<rparr>,
               \<lparr>mr_captures = caps, mr_winner = pl_color cur, mr_kind = kind\<rparr>)
         else (g1\<lparr>gs_turn := (gs_turn g + 1) mod length (gs_players g),
                  gs_started := (if clock_enabled g then now else gs_started g)\<rparr>,
               \<lparr>mr_captures = caps, mr_winner = Empty, mr_kind = WinNone\<rparr>))"
  by (simp add: place_def moved_def paid_player_def move_captures_def move_board_def Let_def)

lemma place_frame [frame_simps]:
  "gs_config (fst (place g m cur now)) = gs_config g"
  "gs_board (fst (place g m cur now)) = remove_pairs (move_board g m) (move_captures g m)"
  "gs_players (fst (place g m cur now)) = (gs_players g)[gs_turn g := paid_player g m cur]"
  "gs_history (fst (place g m cur now)) = gs_history g @ [m]"
  "mr_captures (snd (place g m cur now)) = move_captures g m"
  by (simp_all add: place_eq moved_def Let_def)

lemma charge_clock_Some:
  assumes "charge_clock g cur now = Some cur'"
  shows "pl_color cur' = pl_color cur" "pl_gems cur' = pl_gems cur" "pl_pairs cur' = pl_pairs cur"
    and "0 \<le> pl_time cur \<Longrightarrow> 0 \<le> cf_incr (gs_config g) \<Longrightarrow> 0 \<le> pl_time cur'"
  using assms by (auto simp: charge_clock_def Let_def split: if_splits)

text \<open>The guards, as the accepted case leaves them.\<close>

definition accepts :: "game_state \<Rightarrow> move \<Rightarrow> gtime \<Rightarrow> player \<Rightarrow> bool" where
  "accepts g m now cur \<longleftrightarrow> \<not> is_over g \<and> gs_turn g < length (gs_players g)
     \<and> pl_color (current_player g) = mv_player m
     \<and> board_in (gs_board g) (mv_pos m) \<and> idx_ok (gs_board g) (mv_pos m)
     \<and> board_at (gs_board g) (mv_pos m) = Empty \<and> 0 < pl_gems (current_player g)
     \<and> charge_clock g (current_player g) now = Some cur"

lemma apply_move_Done:
  "apply_move g m now = Done r \<longleftrightarrow> (\<exists>cur. accepts g m now cur \<and> r = place g m cur now)"
  by (auto simp: apply_move_def accepts_def split: option.splits)

lemma sum_pairs_update:
  "i < length ps \<Longrightarrow> sum_list (map pl_pairs (ps[i := p]))
     = sum_list (map pl_pairs ps) - pl_pairs (ps ! i) + pl_pairs p"
  by (rule sum_list_update_int)

lemma check_win_not_draw: "check_win g p \<notin> {WinTimeout, WinResign, WinDraw}"
  by (simp add: check_win_def)

lemma accepts_cell:
  assumes "game_wf g" "pos64 (mv_pos m)" "accepts g m now cur"
  obtains q where "hex (b_side (gs_board g)) q" "move_board g m = board_set (gs_board g) q (mv_player m)"
    "board_at (gs_board g) q = Empty"
    "q = mv_pos m \<or> mv_pos m = Position min_int64 min_int64 \<and> q = Position 0 0"
    "distinct (capture_cells (move_captures g m))"
    "\<And>p. p \<in> set (capture_cells (move_captures g m)) \<Longrightarrow> hex (b_side (gs_board g)) p
       \<and> board_at (gs_board g) p \<noteq> Empty \<and> board_at (gs_board g) p \<noteq> mv_player m \<and> p \<noteq> q"
proof -
  have "mv_player m \<noteq> Empty"
    using assms current_in [of g] color_not_Empty by (auto simp: accepts_def game_wf_def)
  then show thesis
    using placed [of "gs_board g" "mv_pos m" "mv_player m"] that assms
    by (auto simp: move_captures_def move_board_def accepts_def game_wf_def)
qed

text \<open>Cell by cell: the stone is on the board, the victims are gone, nothing else changed.\<close>

lemma move_cells:
  assumes g: "game_wf g" "pos64 (mv_pos m)" "accepts g m now cur"
    and q: "hex (b_side (gs_board g)) q" "move_board g m = board_set (gs_board g) q (mv_player m)"
    and caps: "\<And>p. p \<in> set (capture_cells (move_captures g m)) \<Longrightarrow> hex (b_side (gs_board g)) p \<and> p \<noteq> q"
    and p: "hex (b_side (gs_board g)) p"
  shows "board_at (remove_pairs (move_board g m) (move_captures g m)) p
    = (if p = q then mv_player m
       else if p \<in> set (capture_cells (move_captures g m)) then Empty else board_at (gs_board g) p)"
proof -
  have b: "board_wf (gs_board g)" using g by (simp add: game_wf_def)
  then have "board_at (remove_pairs (move_board g m) (move_captures g m)) p
    = (if p \<in> set (capture_cells (move_captures g m)) then Empty else board_at (move_board g m) p)"
    using caps p q by (intro remove_pairs_at) (auto simp: q frame_simps wf_intros)
  then show ?thesis using b p q caps by (auto simp: q)
qed

lemma move_stones:
  assumes g: "game_wf g" "pos64 (mv_pos m)" "accepts g m now cur"
  shows "stones (remove_pairs (move_board g m) (move_captures g m))
    = stones (gs_board g) + 1 - 2 * int (length (move_captures g m))"
proof -
  obtain q where q: "hex (b_side (gs_board g)) q" "move_board g m = board_set (gs_board g) q (mv_player m)"
    "board_at (gs_board g) q = Empty" "distinct (capture_cells (move_captures g m))"
    and caps: "\<And>p. p \<in> set (capture_cells (move_captures g m)) \<Longrightarrow> hex (b_side (gs_board g)) p
       \<and> board_at (gs_board g) p \<noteq> Empty \<and> p \<noteq> q"
    using accepts_cell [OF g] by metis
  have b: "board_wf (gs_board g)" and c: "mv_player m \<noteq> Empty"
    using g current_in [of g] color_not_Empty by (auto simp: game_wf_def accepts_def)
  have "stones (move_board g m) = stones (gs_board g) + 1"
    unfolding q(2) stones_def using tally_set [OF b q(1)] c q(3) by simp
  moreover have "stones (remove_pairs (move_board g m) (move_captures g m))
      = stones (move_board g m) - 2 * int (length (move_captures g m))"
    using caps b q by (intro stones_remove_pairs) (auto simp: q frame_simps wf_intros)
  ultimately show ?thesis by simp
qed

lemma moved_wf:
  assumes g: "game_wf g" "pos64 (mv_pos m)" "accepts g m now cur"
  shows "game_wf (moved g m cur)"
proof -
  let ?cur = "gs_players g ! gs_turn g" and ?g = "moved g m cur"
  have i: "gs_turn g < length (gs_players g)" and gem: "0 < pl_gems ?cur" and ok: "player_ok ?cur"
    using g current_in [OF g(1)] by (auto simp: accepts_def game_wf_def current_player_def)
  have cur: "pl_color cur = pl_color ?cur" "pl_gems cur = pl_gems ?cur" "pl_pairs cur = pl_pairs ?cur"
    "0 \<le> pl_time cur" "player_ok ?cur"
    using charge_clock_Some [of g ?cur now cur] g ok
    by (simp_all add: accepts_def current_player_def game_wf_def player_ok_def)
  have colors: "map pl_color (gs_players ?g) = map pl_color (gs_players g)"
    using i cur by (simp add: moved_def paid_player_def colors_update)
  have pls: "player_ok p" if "p \<in> set (gs_players ?g)" for p
  proof -
    have "player_ok (paid_player g m cur)"
      using cur gem by (simp add: player_ok_def paid_player_def)
    moreover have "p = paid_player g m cur \<or> p \<in> set (gs_players g)"
      using that set_update_subset_insert [of "gs_players g" "gs_turn g"] by (auto simp: moved_def)
    ultimately show ?thesis using g(1) by (auto simp: game_wf_def)
  qed
  have pairs: "total_pairs ?g = total_pairs g + int (length (move_captures g m))"
    using sum_pairs_update [OF i] cur by (simp add: total_pairs_def moved_def paid_player_def)
  have gems: "gems_spent ?g = gems_spent g + 1"
    using sum_list_update_int [OF i, of "\<lambda>p. GemsPerPlayer - pl_gems p"] cur
    by (simp add: gems_spent_def moved_def paid_player_def)
  have cells: "cells_ok ?g"
  proof -
    obtain q where q: "hex (b_side (gs_board g)) q" "move_board g m = board_set (gs_board g) q (mv_player m)"
      and caps: "\<And>p. p \<in> set (capture_cells (move_captures g m)) \<Longrightarrow> hex (b_side (gs_board g)) p \<and> p \<noteq> q"
      using accepts_cell [OF g] by metis
    have "mv_player m \<in> set (map pl_color (gs_players g))"
      using g(3) imageI [OF current_in [OF g(1)], of pl_color] by (simp add: accepts_def)
    then show ?thesis
      using move_cells [OF g q caps] g(1) q
      by (simp add: cells_ok_def color_image colors del: set_map)
        (simp add: moved_def frame_simps cells_ok_def game_wf_def)
  qed
  show ?thesis
    using g(1) move_stones [OF g] cells pls colors pairs gems i
    unfolding game_wf_def result_ok_def color_image
    by (simp add: moved_def frame_simps wf_intros move_board_def del: set_map)
qed

lemma place_wf:
  assumes g: "game_wf g" "pos64 (mv_pos m)" "accepts g m now cur"
  shows "game_wf (fst (place g m cur now))"
proof -
  have m: "game_wf (moved g m cur)" by (rule moved_wf [OF g])
  have i: "gs_turn g < length (gs_players g)" using g(1) by (simp add: game_wf_def)
  have "pl_color cur = pl_color (gs_players g ! gs_turn g)"
    using g(3) charge_clock_Some(1) by (auto simp: accepts_def current_player_def)
  then have "pl_color cur \<in> set (map pl_color (gs_players (moved g m cur)))"
    using i nth_mem [OF i] by (simp add: moved_def paid_player_def colors_update del: set_map) simp
  moreover have "(gs_turn g + 1) mod length (gs_players g) < length (gs_players g)"
    using i by (intro mod_less_divisor) linarith
  ultimately show ?thesis
    using m check_win_not_draw [of "moved g m cur" "paid_player g m cur"]
    by (auto simp: place_eq Let_def game_wf_def cells_ok_def total_pairs_def gems_spent_def result_ok_def moved_def)
qed

section \<open>The game as a state machine\<close>

text \<open>Everything the callers do to a game: the clock is started, moves are played at any time with
  any position a client can send, and the game is forfeited, resigned or drawn.\<close>

inductive game_step :: "game_state \<Rightarrow> game_state \<Rightarrow> bool" where
  step_move: "apply_move g m now = Done (g', res) \<Longrightarrow> pos64 (mv_pos m) \<Longrightarrow> game_step g g'"
| step_clock: "game_step g (start_clock g now)"
| step_forfeit: "game_step g (forfeit g loser)"
| step_resign: "game_step g (resign g loser)"
| step_draw: "game_step g (agree_draw g)"

inductive_cases game_stepE: "game_step g g'"

definition game_start :: "game_state \<Rightarrow> bool" where
  "game_start g \<longleftrightarrow> (\<exists>colors cfg. g = new_game colors cfg \<and> colors \<noteq> [] \<and> distinct colors
     \<and> (\<forall>c \<in> set colors. C1 \<le> c \<and> c \<le> C6)
     \<and> 1 \<le> cf_side cfg \<and> cf_side cfg < 2 ^ 20 \<and> 0 \<le> cf_initial cfg \<and> 0 \<le> cf_incr cfg)"

lemma survivor_color: "survivor g loser = Some w \<Longrightarrow> w \<in> pl_color ` set (gs_players g) \<and> w \<noteq> loser"
  by (auto simp: survivor_def find_Some_iff split: if_splits)

lemma survivor_wins:
  assumes "game_wf g" "gs_players g = [p, p']" "loser \<in> {pl_color p, pl_color p'}"
  shows "survivor g loser = Some (if loser = pl_color p then pl_color p' else pl_color p)"
  using assms by (auto simp: survivor_def game_wf_def)

lemma over_by_resign_wf:
  assumes "game_wf g" "\<not> is_over g" "k \<in> {WinTimeout, WinResign}"
    "w = Empty \<or> w \<in> pl_color ` set (gs_players g)"
  shows "game_wf (g\<lparr>gs_kind := k, gs_winner := w\<rparr>)"
  using assms by (auto simp: game_wf_def result_ok_def cells_ok_def total_pairs_def gems_spent_def)

text \<open>The invariant sees a player through the colour, the pairs, the gems and \<open>player_ok\<close>.\<close>

lemma players_update_wf:
  assumes "game_wf g" "map pl_color ps = map pl_color (gs_players g)"
    "map pl_pairs ps = map pl_pairs (gs_players g)" "map pl_gems ps = map pl_gems (gs_players g)"
    "\<forall>p \<in> set ps. player_ok p"
  shows "game_wf (g\<lparr>gs_players := ps\<rparr>)"
proof -
  have gems: "sum_list (map (\<lambda>p. GemsPerPlayer - pl_gems p) xs)
      = sum_list (map (\<lambda>x. GemsPerPlayer - x) (map pl_gems xs))" for xs
    by (simp add: comp_def)
  have "length ps = length (gs_players g)" using assms(2) by (metis length_map)
  with assms show ?thesis
    unfolding game_wf_def result_ok_def cells_ok_def total_pairs_def gems_spent_def color_image gems
    by (simp del: set_map map_map)
qed

lemma zero_clock_wf:
  assumes "game_wf g"
  shows "game_wf (g\<lparr>gs_players := map (\<lambda>p. if pl_color p = loser then p\<lparr>pl_time := 0\<rparr> else p) (gs_players g)\<rparr>)"
proof (rule players_update_wf [OF assms])
  show "\<forall>p \<in> set (map (\<lambda>p. if pl_color p = loser then p\<lparr>pl_time := 0\<rparr> else p) (gs_players g)). player_ok p"
    using assms by (auto simp: game_wf_def player_ok_def)
qed (simp_all)

lemma forfeit_wf [wf_intros]: "game_wf g \<Longrightarrow> game_wf (forfeit g loser)"
  using over_by_resign_wf [of g WinTimeout] zero_clock_wf [of "g\<lparr>gs_kind := WinTimeout, gs_winner := Empty\<rparr>" loser]
  by (auto simp: forfeit_def Let_def dest: survivor_color split: option.splits)

lemma resign_wf [wf_intros]: "game_wf g \<Longrightarrow> game_wf (resign g loser)"
  using over_by_resign_wf [of g WinResign]
  by (auto simp: resign_def Let_def dest: survivor_color split: option.splits)

lemma agree_draw_wf [wf_intros]: "game_wf g \<Longrightarrow> game_wf (agree_draw g)"
  by (auto simp: agree_draw_def is_over_def game_wf_def result_ok_def cells_ok_def total_pairs_def gems_spent_def)

lemma start_clock_wf [wf_intros]: "game_wf g \<Longrightarrow> game_wf (start_clock g now)"
  by (auto simp: start_clock_def game_wf_def result_ok_def cells_ok_def total_pairs_def gems_spent_def)

lemma apply_move_wf:
  assumes "game_wf g" "pos64 (mv_pos m)" "apply_move g m now = Done (g', res)"
  shows "game_wf g'"
  using assms place_wf [OF assms(1,2)] by (auto simp: apply_move_Done) (metis fst_conv)

interpretation game: machine game_start game_step game_wf
proof unfold_locales
  show "game_wf g" if "game_start g" for g
    using that new_game_wf by (auto simp: game_start_def)
  show "game_wf g'" if "game_wf g" "game_step g g'" for g g'
    using that(2,1) by (cases rule: game_stepE) (auto intro: apply_move_wf wf_intros)
qed

end
