(* ===== verification/Game_Props.thy ===== *)
theory Game_Props
  imports Game_State
begin

text \<open>
  The properties of the rules engine: what a move does to the board, the clocks and the result,
  which errors it reports, and what holds in every state a game can reach.
\<close>

definition sample_config :: config where
  "sample_config = \<lparr>cf_side = 2, cf_pairs = 1, cf_align4 = 1, cf_align5 = 1, cf_initial = 1000, cf_incr = 5\<rparr>"

definition sample_game :: game_state where
  "sample_game = start_clock (new_game [1, 2] sample_config) 1000000"

definition sample_mv :: move where
  "sample_mv = \<lparr>mv_player = 1, mv_pos = Position 0 1\<rparr>"

definition sample_result :: "game_state \<times> move_result" where
  "sample_result = place sample_game sample_mv
     \<lparr>pl_color = 1, pl_gems = 50, pl_pairs = 0, pl_time = 1001\<rparr> 5000000"

lemma sample_start: "game_start (new_game [1, 2] sample_config)"
  unfolding game_start_def
  by (intro exI [of _ "[1, 2]"] exI [of _ sample_config]) (simp add: sample_config_def color_defs)

lemma sample_wf: "game_wf sample_game"
  unfolding sample_game_def by (intro start_clock_wf game.inv_start sample_start)

lemma sample_side: "b_side (gs_board sample_game) = 2"
  by (simp add: sample_game_def start_clock_def new_game_def sample_config_def new_board_spec(2))

lemma sample_mv_ok: "pos64 (mv_pos sample_mv)"
  by (simp add: sample_mv_def pos64_def is_int64_def)

lemma sample_move: "apply_move sample_game sample_mv 5000000 = Done (fst sample_result, snd sample_result)"
  by code_simp

lemma sample_reach: "reach game_start game_step (fst sample_result)"
proof (rule reach_step)
  show "reach game_start game_step sample_game"
    unfolding sample_game_def
    by (rule reach_step, rule reach_start, rule sample_start, rule step_clock)
  show "game_step sample_game (fst sample_result)"
    by (rule step_move [OF sample_move sample_mv_ok])
qed

text \<open>C1: In every state a game can reach from \<open>NewGame\<close> by moves with any 64-bit position, forfeits,
  resignations, draws and clock starts, the stones on the board and the captured pairs account
  for exactly the moves played, the gems spent do too, every cell of the hexagon is empty or of a
  player's colour, the turn is a valid seat, and a winner is always one of the players.\<close>

theorem reachable_game_accounts:
  assumes "reach game_start game_step g"
  shows "stones (gs_board g) + 2 * total_pairs g = int (length (gs_history g))
    \<and> gems_spent g = int (length (gs_history g)) \<and> cells_ok g
    \<and> gs_turn g < length (gs_players g) \<and> result_ok g \<and> (\<forall>p \<in> set (gs_players g). player_ok p)"
  using game.inv_reach [OF assms] by (simp add: game_wf_def)

theorem reachable_game_accounts_witness: "gems_spent (fst sample_result) = 1"
  using reachable_game_accounts [OF sample_reach]
  by (simp add: sample_result_def frame_simps)
    (simp add: sample_game_def start_clock_def sample_config_def new_game_def)

text \<open>C5: An accepted move on a cell of the hexagon puts the mover's stone there, empties exactly the pairs
  of one other colour flanked from there in one of the six directions, and changes no other cell.\<close>

theorem move_changes_exactly:
  assumes "game_wf g" and "hex (b_side (gs_board g)) (mv_pos m)"
    and "apply_move g m now = Done (g', res)" and "hex (b_side (gs_board g)) p"
  shows "board_at (gs_board g') p =
    (if p = mv_pos m then mv_player m
     else if \<exists>u \<in> units. flanked (move_board g m) (mv_player m) (mv_pos m) u
               \<and> (p = shift (mv_pos m) u 1 \<or> p = shift (mv_pos m) u 2) then Empty
     else board_at (gs_board g) p)"
proof -
  obtain cur where acc: "accepts g m now cur" and g': "g' = fst (place g m cur now)"
    using assms(3) by (auto simp: apply_move_Done) (metis fst_conv)
  have b: "board_wf (gs_board g)" and pos: "pos64 (mv_pos m)"
    using assms(1,2) hex_near near_pos64 by (auto simp: game_wf_def)
  have "mv_pos m \<noteq> Position min_int64 min_int64"
    using assms(2) b by (auto simp: hex_def board_wf_def min_int64_def)
  then have caps: "p \<in> set (capture_cells (move_captures g m)) \<Longrightarrow> hex (b_side (gs_board g)) p \<and> p \<noteq> mv_pos m" for p
    using accepts_cell [OF assms(1) pos acc] by metis
  have "p \<in> set (capture_cells (move_captures g m)) \<longleftrightarrow> (\<exists>u \<in> units.
      flanked (move_board g m) (mv_player m) (mv_pos m) u \<and> (p = shift (mv_pos m) u 1 \<or> p = shift (mv_pos m) u 2))"
  proof -
    have mb: "board_wf (move_board g m)" "hex (b_side (move_board g m)) (mv_pos m)"
      using b assms(2) by (simp_all add: move_board_def wf_intros frame_simps)
    have "p \<in> set (capture_cells caps) \<longleftrightarrow> (\<exists>cap \<in> set caps. p \<in> set (capture_cells [cap]))" for caps
      by (auto simp: capture_cells_def)
    then have "p \<in> set (capture_cells (move_captures g m))
        \<longleftrightarrow> (\<exists>cap \<in> set (move_captures g m). p \<in> set (capture_cells [cap]))" .
    then show ?thesis
      unfolding move_captures_def detect_captures_set [OF mb] using capture_cells_toward by fast
  qed
  then show ?thesis
    using move_cells [OF assms(1) pos acc assms(2) _ caps assms(4)]
    by (simp add: g' frame_simps move_board_def)
qed

theorem move_changes_exactly_witness: "board_at (gs_board (fst sample_result)) (Position 0 1) = 1"
  using move_changes_exactly [OF sample_wf _ sample_move, of "Position 0 1"]
  by (simp add: sample_side sample_mv_def hex_def)

text \<open>C31: The bounds check of \<open>ApplyMove\<close> on a well-formed game whose turn it is for the player, with any 64-bit position: the move is
  refused as out of bounds exactly for a position outside the hexagon that is not one of the three whose coordinates wrap around;
  \<open>ApplyMove\<close> panics exactly for the two wrapped positions that index outside the cell slice; and a move that is
  accepted is on the board, or at the third one, which has the index of the centre.\<close>

theorem apply_move_panics_iff:
  assumes "game_wf g" "pos64 (mv_pos m)"
  shows "(apply_move g m now = Panic \<longleftrightarrow> \<not> is_over g \<and> pl_color (current_player g) = mv_player m
      \<and> (mv_pos m = Position min_int64 0 \<or> mv_pos m = Position 0 min_int64))
    \<and> (apply_move g m now = Fail ErrOutOfBounds \<longleftrightarrow> \<not> is_over g \<and> pl_color (current_player g) = mv_player m
      \<and> \<not> hex (b_side (gs_board g)) (mv_pos m) \<and> mv_pos m \<notin> wrapped_positions)
    \<and> (\<forall>g' res. apply_move g m now = Done (g', res) \<longrightarrow> hex (b_side (gs_board g)) (mv_pos m)
      \<or> mv_pos m = Position min_int64 min_int64 \<and> board_idx (gs_board g) (mv_pos m) = board_idx (gs_board g) (Position 0 0))"
proof -
  have b: "board_wf (gs_board g)" and i: "\<not> length (gs_players g) \<le> gs_turn g"
    using assms(1) by (auto simp: game_wf_def)
  note inside = board_in_iff_hex_or_wrapped [OF b assms(2)]
  have "apply_move g m now = Panic \<longleftrightarrow> \<not> is_over g \<and> pl_color (current_player g) = mv_player m
    \<and> board_in (gs_board g) (mv_pos m) \<and> \<not> idx_ok (gs_board g) (mv_pos m)"
    using i by (auto simp: apply_move_def split: option.splits)
  moreover have "board_in (gs_board g) (mv_pos m) \<and> \<not> idx_ok (gs_board g) (mv_pos m)
    \<longleftrightarrow> mv_pos m = Position min_int64 0 \<or> mv_pos m = Position 0 min_int64"
    using inside idx_ok_hex [OF b] wrapped_not_idx_ok [OF b]
      wrapped_idx_centre [OF b] idx_ok_hex [OF b, of "Position 0 0"] b
    by (auto simp: wrapped_positions_def idx_ok_def hex_def board_wf_def)
  moreover have "apply_move g m now = Fail ErrOutOfBounds \<longleftrightarrow> \<not> is_over g \<and> pl_color (current_player g) = mv_player m
    \<and> \<not> board_in (gs_board g) (mv_pos m)"
    using i by (auto simp: apply_move_def split: option.splits)
  moreover have "hex (b_side (gs_board g)) (mv_pos m)
      \<or> mv_pos m = Position min_int64 min_int64 \<and> board_idx (gs_board g) (mv_pos m) = board_idx (gs_board g) (Position 0 0)"
    if "apply_move g m now = Done (g', res)" for g' res
  proof -
    have "board_in (gs_board g) (mv_pos m)" "idx_ok (gs_board g) (mv_pos m)"
      using that by (auto simp: apply_move_def split: if_splits option.splits)
    then show ?thesis using inside wrapped_not_idx_ok [OF b] wrapped_idx_centre [OF b] by (auto simp: wrapped_positions_def)
  qed
  ultimately show ?thesis using inside by blast
qed

theorem apply_move_panics_iff_witness:
  "apply_move sample_game \<lparr>mv_player = 1, mv_pos = Position 0 min_int64\<rparr> 5000000 = Panic"
  using apply_move_panics_iff [OF sample_wf, of "\<lparr>mv_player = 1, mv_pos = Position 0 min_int64\<rparr>"]
  by (simp add: pos64_def is_int64_def min_int64_def is_over_def current_player_def sample_game_def
      start_clock_def new_game_def sample_config_def Empty_def)

text \<open>C6: The result of an accepted move: the mover wins exactly when the new board shows a straight segment of six, or
  else enough maximal segments of exactly five, or of four, or else enough captured pairs, in this order of
  precedence, with the thresholds that are positive; otherwise nobody has won, and the turn passes to the
  next seat.\<close>

theorem move_result_spec:
  assumes g: "game_wf g" "pos64 (mv_pos m)" and mv: "apply_move g m now = Done (g', res)"
  defines "c \<equiv> mv_player m" and "b \<equiv> gs_board g'" and "cf \<equiv> gs_config g"
  defines "runs \<equiv> \<lambda>n. int (card {(p, d). d \<in> set directions \<and> maximal_segment b c p d n})"
  shows "mr_kind res =
      (if \<exists>d \<in> set directions. \<exists>p. segment b c p d 6 then WinAlignment6
       else if 0 < cf_align5 cf \<and> cf_align5 cf \<le> runs 5 then WinAlignment5
       else if 0 < cf_align4 cf \<and> cf_align4 cf \<le> runs 4 then WinAlignment4
       else if 0 < cf_pairs cf \<and> cf_pairs cf \<le> pl_pairs (gs_players g' ! gs_turn g) then WinCapture
       else WinNone)
    \<and> gs_kind g' = mr_kind res \<and> gs_winner g' = mr_winner res
    \<and> mr_winner res = (if mr_kind res = WinNone then Empty else c)
    \<and> gs_turn g' = (if mr_kind res = WinNone then (gs_turn g + 1) mod length (gs_players g) else gs_turn g)"
proof -
  obtain cur where acc: "accepts g m now cur" and pl: "(g', res) = place g m cur now"
    using mv by (auto simp: apply_move_Done)
  have b: "board_wf b" using apply_move_wf [OF g mv] by (simp add: game_wf_def b_def)
  have runs: "runs n = count_maximal_runs b c n" if "0 < n" for n
    using count_maximal_runs_card [OF b that] by (simp add: runs_def)
  have run: "(\<exists>d \<in> set directions. \<exists>p. segment b c p d 6) \<longleftrightarrow> has_run b c 6"
    using has_run_segment [OF b] by simp
  have over: "gs_kind g = WinNone" "gs_winner g = Empty" using acc by (auto simp: accepts_def is_over_def)
  have "pl_color cur = c" using acc charge_clock_Some(1) by (auto simp: accepts_def c_def)
  moreover have "gs_turn g < length (gs_players g)" using g by (simp add: game_wf_def)
  ultimately show ?thesis
    using pl over unfolding run by (simp add: runs place_eq Let_def)
      (auto simp: check_win_def moved_def paid_player_def b_def c_def cf_def split: if_splits)
qed

theorem move_result_spec_witness:
  "mr_kind (snd sample_result) = WinNone \<and> gs_turn (fst sample_result) = 1"
proof -
  have "mr_kind (snd sample_result) = WinNone" by code_simp
  with move_result_spec [OF sample_wf sample_mv_ok sample_move] show ?thesis
    by (simp add: sample_game_def start_clock_def new_game_def sample_config_def)
qed

text \<open>A finished game stays as it is: whatever callers do to it afterwards, its board, players, history, turn
  and result no longer change, and every move is refused with \<open>ErrGameOver\<close>.\<close>

theorem finished_game_is_final:
  assumes "is_over g" and "game_step\<^sup>*\<^sup>* g g'"
  shows "gs_board g' = gs_board g \<and> gs_players g' = gs_players g \<and> gs_history g' = gs_history g
    \<and> gs_turn g' = gs_turn g \<and> gs_winner g' = gs_winner g \<and> gs_kind g' = gs_kind g
    \<and> apply_move g' m now = Fail ErrGameOver"
  using assms(2)
proof (induction rule: rtranclp_induct)
  case base
  show ?case using assms(1) by (simp add: apply_move_def)
next
  case (step x y)
  then have over: "is_over x" using assms(1) by (simp add: is_over_def)
  from step(2) have "gs_board y = gs_board x \<and> gs_players y = gs_players x \<and> gs_history y = gs_history x
    \<and> gs_turn y = gs_turn x \<and> gs_winner y = gs_winner x \<and> gs_kind y = gs_kind x"
    using over by (cases rule: game_stepE)
      (auto simp: apply_move_def start_clock_def forfeit_def resign_def agree_draw_def)
  moreover from this have "is_over y" using over by (simp add: is_over_def)
  ultimately show ?case using step(3) by (simp add: apply_move_def)
qed

theorem finished_game_is_final_witness:
  "gs_winner (agree_draw (resign sample_game 1)) = 2 \<and> gs_kind (agree_draw (resign sample_game 1)) = WinResign"
proof -
  have "gs_winner (resign sample_game 1) = 2" "gs_kind (resign sample_game 1) = WinResign"
    by (simp_all add: sample_game_def start_clock_def new_game_def sample_config_def resign_def
        is_over_def Empty_def survivor_def Let_def)
  with finished_game_is_final [OF _ r_into_rtranclp [of game_step, OF step_draw], of "resign sample_game 1"]
  show ?thesis by (simp add: is_over_def)
qed

text \<open>As long as the reported time is not before the turn started, what
  \<open>RemainingForActive\<close> reports is what \<open>ApplyMove\<close> charges. A move is refused as flagged only when
  the reported remaining time is zero, and an accepted move leaves the mover with the reported
  remaining time plus the increment.\<close>

theorem clock_report_matches_charge:
  assumes g: "game_wf g" and clk: "clock_enabled g" "\<not> is_zero_time (gs_started g)" "gs_started g \<le> now"
  shows "(apply_move g m now = Fail ErrFlagged \<longrightarrow> remaining_for_active g now = 0)
    \<and> (\<forall>g' res. apply_move g m now = Done (g', res) \<longrightarrow>
         pl_time (gs_players g' ! gs_turn g) = remaining_for_active g now + cf_incr (gs_config g))
    \<and> 0 \<le> remaining_for_active g now \<and> remaining_for_active g now \<le> pl_time (current_player g)"
proof -
  let ?e = "dur_ms (time_sub now (gs_started g))" and ?t = "pl_time (current_player g)"
  have e: "0 \<le> ?e" using clk(3) time_sub_nonneg_iff by (intro dur_ms_nonneg) simp
  have t: "0 \<le> ?t" using current_in [OF g] g by (auto simp: game_wf_def player_ok_def)
  have i: "gs_turn g < length (gs_players g)" using g by (simp add: game_wf_def)
  have rem: "remaining_for_active g now = (if is_over g then ?t else if ?t < ?e then 0 else ?t - ?e)"
    using clk by (auto simp: remaining_for_active_def Let_def)
  have chg: "charge_clock g (current_player g) now =
      (if ?t < ?e then None else Some ((current_player g)\<lparr>pl_time := ?t - ?e + cf_incr (gs_config g)\<rparr>))"
    using clk e by (simp add: charge_clock_def Let_def)
  have flag: "apply_move g m now = Fail ErrFlagged \<Longrightarrow> \<not> is_over g \<and> ?t < ?e"
    by (simp add: apply_move_def chg split: if_splits)
  have played: "pl_time (gs_players g' ! gs_turn g) = ?t - ?e + cf_incr (gs_config g) \<and> \<not> is_over g \<and> \<not> ?t < ?e"
    if mv: "apply_move g m now = Done (g', res)" for g' res
  proof -
    obtain cur where acc: "accepts g m now cur" and pl: "(g', res) = place g m cur now"
      using mv by (auto simp: apply_move_Done)
    have "g' = fst (place g m cur now)" using pl by (metis fst_conv)
    then have "gs_players g' ! gs_turn g = paid_player g m cur" using i by (simp add: frame_simps)
    then show ?thesis using acc chg by (auto simp: accepts_def paid_player_def split: if_splits)
  qed
  show ?thesis using flag played rem e t by auto
qed

theorem clock_report_matches_charge_witness:
  "pl_time (gs_players (fst sample_result) ! 0) = remaining_for_active sample_game 5000000 + 5"
proof -
  have s: "gs_turn sample_game = 0" "cf_incr (gs_config sample_game) = 5"
    "clock_enabled sample_game" "\<not> is_zero_time (gs_started sample_game)" "gs_started sample_game \<le> 5000000"
    by (simp_all add: sample_game_def start_clock_def new_game_def sample_config_def clock_enabled_def
        is_zero_time_def zero_time_def)
  show ?thesis
    using clock_report_matches_charge [OF sample_wf s(3,4,5), of sample_mv,
        THEN conjunct2, THEN conjunct1, rule_format, OF sample_move] s(1,2) by simp
qed

text \<open>Timing out or resigning ends a running game for good; with two players the other one wins, with more
  nobody does, and the win kind tells the two endings apart.\<close>

theorem forfeit_and_resign_outcome:
  assumes g: "game_wf g" "\<not> is_over g" and l: "loser \<in> pl_color ` set (gs_players g)"
    and n: "2 \<le> length (gs_players g)"
  shows "gs_kind (forfeit g loser) = WinTimeout \<and> gs_kind (resign g loser) = WinResign
    \<and> gs_winner (forfeit g loser) = gs_winner (resign g loser)
    \<and> (if length (gs_players g) = 2
       then gs_winner (resign g loser) \<in> pl_color ` set (gs_players g) - {loser}
       else gs_winner (resign g loser) = Empty)"
proof (cases "length (gs_players g) = 2")
  case True
  then obtain p p' where ps: "gs_players g = [p, p']"
    by (auto simp: numeral_2_eq_2 length_Suc_conv)
  then have "survivor g loser = Some (if loser = pl_color p then pl_color p' else pl_color p)"
    using l by (intro survivor_wins [OF g(1) ps]) auto
  moreover have "pl_color p \<noteq> pl_color p'" using g ps by (simp add: game_wf_def)
  ultimately show ?thesis using g(2) l ps by (auto simp: forfeit_def resign_def Let_def)
next
  case False
  then have "survivor g loser = None" by (simp add: survivor_def)
  with False g(2) show ?thesis by (simp add: forfeit_def resign_def Let_def)
qed

theorem forfeit_and_resign_outcome_witness: "gs_winner (forfeit sample_game 2) \<in> {1, 2} - {2}"
proof -
  have "pl_color ` set (gs_players sample_game) = {1, 2}" "length (gs_players sample_game) = 2" "\<not> is_over sample_game"
    by (simp_all add: sample_game_def start_clock_def new_game_def sample_config_def is_over_def)
  with forfeit_and_resign_outcome [OF sample_wf, of 2] show ?thesis by auto
qed

text \<open>The run functions compute their documented notions on every board: \<open>HasRun\<close> finds a run exactly when the
  board has a straight segment of at least that length, and \<open>CountMaximalRuns\<close> counts each
  segment of exactly that length that cannot be extended at either end once.\<close>

theorem runs_are_segments:
  assumes "board_wf b" "0 < n"
  shows "(has_run b c n \<longleftrightarrow> (\<exists>d \<in> set directions. \<exists>p. segment b c p d n))
    \<and> count_maximal_runs b c n = int (card {(p, d). d \<in> set directions \<and> maximal_segment b c p d n})"
  using has_run_segment [OF assms] count_maximal_runs_card [OF assms] by simp

theorem runs_are_segments_witness:
  "has_run (new_board 2) Empty 3 \<and> (\<exists>d \<in> set directions. \<exists>p. segment (new_board 2) Empty p d 3)"
proof -
  have "has_run (new_board 2) Empty 3" by code_simp
  with runs_are_segments [of "new_board 2" 3 Empty] new_board_spec(1) [of 2] show ?thesis by simp
qed

text \<open>On 64-bit coordinates \<open>In\<close> accepts the cells of the hexagon and three more positions, those whose
  coordinates and sum are zero or the least integer: two of them index outside the cell slice,
  and the third one shares its slot with the centre, so a stone sent there lands on the
  centre.\<close>

theorem membership_wraps:
  assumes b: "board_wf b" and p: "pos64 p"
  shows "(board_in b p \<longleftrightarrow> hex (b_side b) p \<or> p \<in> wrapped_positions)
    \<and> (hex (b_side b) p \<longrightarrow> idx_ok b p)
    \<and> (p = Position min_int64 0 \<or> p = Position 0 min_int64 \<longrightarrow> \<not> idx_ok b p)
    \<and> board_set b (Position min_int64 min_int64) c = board_set b (Position 0 0) c"
  using board_in_iff_hex_or_wrapped [OF b p] idx_ok_hex [OF b] wrapped_not_idx_ok [OF b]
    wrapped_idx_centre [OF b] by (simp add: board_set_def)

theorem membership_wraps_witness:
  "board_in (new_board 11) (Position min_int64 0) \<and> \<not> idx_ok (new_board 11) (Position min_int64 0)"
  using membership_wraps [of "new_board 11" "Position min_int64 0"] new_board_spec(1) [of 11]
  by (simp add: pos64_def is_int64_def min_int64_def wrapped_positions_def)

text \<open>C25: The walk along a run ends by itself: on a board, from any cell and in any direction, more fuel than the model gives
  makes no difference, the cells walked over are on the board and of the colour, and the first cell
  after them is not. A walk is never longer than twice the side of the board.\<close>

theorem run_walk_terminates:
  assumes "board_wf b" "d \<in> set directions" "near p" "run_fuel b \<le> fuel"
  shows "run_walk fuel b c p d = run_walk (run_fuel b) b c p d
    \<and> (\<forall>k < run_walk fuel b c p d. on b c (shift p d (int k)))
    \<and> \<not> on b c (shift p d (int (run_walk fuel b c p d)))
    \<and> int (run_walk fuel b c p d) < 2 * b_side b"
proof -
  let ?n = "run_walk fuel b c p d"
  note walk = run_walk_enough [OF assms]
  have "run_walk (run_fuel b) b c p d = ?n"
    using walk run_walk_enough [OF assms(1-3) order_refl] by (metis order_antisym order_refl)
  moreover have seg: "segment b c p d ?n" "\<not> segment b c p d (Suc ?n)"
    using walk [of ?n c] walk [of "Suc ?n" c] by simp_all
  moreover have "int ?n < 2 * b_side b"
    using segment_bound [OF assms(2) seg(1)] assms(1) by (cases "?n = 0") (auto simp: board_wf_def)
  ultimately show ?thesis by (auto simp: segment_def less_Suc_eq)
qed

theorem run_walk_terminates_witness:
  "run_walk 1000 (new_board 2) Empty (Position 0 0) (Position 1 0) = run_walk 4 (new_board 2) Empty (Position 0 0) (Position 1 0)"
proof -
  have "b_side (new_board 2) = 2" by code_simp
  then show ?thesis
    using run_walk_terminates [of "new_board 2" "Position 1 0" "Position 0 0" 1000 Empty] new_board_spec(1) [of 2]
    by (simp add: directions_def near_def run_fuel_def)
qed

end
