(* ===== verification/Ai.thy ===== *)
theory Ai
  imports Game_State
begin

text \<open>
  The bot, \<open>internal/ai/heuristic.go\<close>: candidate ranking, the static scores, the pruned two-ply
  search and the choice at the root. The pruned search is related to plain minimax, and the
  chosen move to the rules engine.
\<close>

section \<open>Helpers\<close>

definition opponent_of :: "game_state \<Rightarrow> color \<Rightarrow> color" where
  "opponent_of g c =
     (case find_index (\<lambda>p. pl_color p = c) (gs_players g) of
        Some i \<Rightarrow> pl_color (gs_players g ! ((i + 1) mod length (gs_players g)))
      | None \<Rightarrow> Empty)"

definition player_by_color :: "game_state \<Rightarrow> color \<Rightarrow> player option" where
  "player_by_color g c = find (\<lambda>p. pl_color p = c) (gs_players g)"

definition hex_distance :: "position \<Rightarrow> position \<Rightarrow> int" where
  "hex_distance a b =
     (let dq0 = posQ a - posQ b; dr0 = posR a - posR b; ds0 = - dq0 - dr0;
          dq = (if dq0 < 0 then - dq0 else dq0);
          dr = (if dr0 < 0 then - dr0 else dr0);
          ds = (if ds0 < 0 then - ds0 else ds0)
      in if dq \<ge> dr \<and> dq \<ge> ds then dq else if dr \<ge> ds then dr else ds)"

definition max_int :: "int \<Rightarrow> int \<Rightarrow> int" where
  "max_int a b = (if a > b then a else b)"

definition consecutive_same_color :: "board \<Rightarrow> position \<Rightarrow> position \<Rightarrow> color \<Rightarrow> int" where
  "consecutive_same_color b from step c = int (run_walk (run_fuel b) b c (pos_step from step 1) step)"

definition minScore :: int where "minScore = - 1073741824"
definition winScore :: int where "winScore = 1000000"
definition searchDepth :: nat where "searchDepth = 2"
definition topCandidatesAtDepth0 :: nat where "topCandidatesAtDepth0 = 60"
definition topCandidatesAtDepth1 :: nat where "topCandidatesAtDepth1 = 20"

section \<open>Scores\<close>

definition terminal_score :: "game_state \<Rightarrow> color \<Rightarrow> int" where
  "terminal_score g c =
     (if gs_winner g = c then winScore else if gs_winner g = Empty then 0 else - winScore)"

definition score_position :: "game_state \<Rightarrow> color \<Rightarrow> int" where
  "score_position g c =
     (let runs = (\<lambda>c n. count_maximal_runs (gs_board g) c n);
          others = filter (\<lambda>p. pl_color p \<noteq> c) (gs_players g);
          mineA5 = runs c 5; mineA4 = runs c 4; mineA3 = runs c 3;
          oppA5 = sum_list (map (\<lambda>p. runs (pl_color p) 5) others);
          oppA4 = sum_list (map (\<lambda>p. runs (pl_color p) 4) others);
          oppA3 = sum_list (map (\<lambda>p. runs (pl_color p) 3) others);
          myCaptures = (case player_by_color g c of Some p \<Rightarrow> pl_pairs p | None \<Rightarrow> 0);
          oppCaptures = sum_list (map pl_pairs others);
          offense0 = mineA5 * 200 + mineA4 * 60 + mineA3 * 15 + myCaptures * 40;
          offense = (if cf_pairs (gs_config g) > 0
                     then offense0 + myCaptures * ((50 * myCaptures) sdiv (max_int (cf_pairs (gs_config g)) 1))
                     else offense0);
          defense = oppA5 * 240 + oppA4 * 70 + oppA3 * 15 + oppCaptures * 40
      in offense - defense)"

definition shallow_score :: "game_state \<Rightarrow> position \<Rightarrow> color \<Rightarrow> int" where
  "shallow_score g p c =
     (let b = gs_board g; cfg = gs_config g;
          sim0 = board_set (board_clone b) p c;
          captures = detect_captures sim0 p c;
          sim = remove_pairs sim0 captures
      in if has_run sim c 6 then winScore
         else let mineA5 = count_maximal_runs sim c 5; mineA4 = count_maximal_runs sim c 4
         in if cf_align5 cfg > 0 \<and> mineA5 \<ge> cf_align5 cfg then winScore - 1
         else if cf_align4 cfg > 0 \<and> mineA4 \<ge> cf_align4 cfg then winScore - 2
         else let opp = opponent_of g c;
                  defense0 = (count_maximal_runs b opp 5 - count_maximal_runs sim opp 5) * 240
                           + (count_maximal_runs b opp 4 - count_maximal_runs sim opp 4) * 60;
                  block = sum_list (map (\<lambda>d.
                    let n = consecutive_same_color b p d opp
                          + consecutive_same_color b p (Position (- posQ d) (- posR d)) opp
                    in if n \<ge> 3 then n * n * 8 else 0) directions);
                  offense = (mineA5 - count_maximal_runs b c 5) * 120
                          + (mineA4 - count_maximal_runs b c 4) * 30;
                  captureScore = int (length captures) * 80;
                  center = 10 - hex_distance p (Position 0 0)
         in (defense0 + block) + offense + captureScore + center)"

section \<open>Ranking\<close>

record candidate =
  cd_pos :: position
  cd_score :: int

text \<open>One round of the insertion sort on the sorted prefix, held reversed: the scan from its right
  end passes the elements with a smaller score.\<close>

fun insert_left :: "candidate \<Rightarrow> candidate list \<Rightarrow> candidate list" where
  "insert_left c [] = [c]"
| "insert_left c (x # xs) = (if cd_score x < cd_score c then x # insert_left c xs else c # x # xs)"

definition sort_descending :: "candidate list \<Rightarrow> candidate list" where
  "sort_descending s = rev (foldl (\<lambda>acc c. insert_left c acc) [] s)"

definition ranked_candidates :: "game_state \<Rightarrow> color \<Rightarrow> nat \<Rightarrow> candidate list" where
  "ranked_candidates g mover k =
     (let b = gs_board g;
          cells = filter (\<lambda>p. board_in b p \<and> board_at b p = Empty) (scan (b_side b - 1));
          scored = sort_descending (map (\<lambda>p. \<lparr>cd_pos = p, cd_score = shallow_score g p mover\<rparr>) cells)
      in if length scored > k then take k scored else scored)"

section \<open>Search\<close>

text \<open>A child is played at its own turn start, so that no time elapses; a refused move is skipped.
  Candidates are cells of the board, so the call never panics (\<open>child_no_panic\<close> below).\<close>

definition try_child :: "game_state \<Rightarrow> color \<Rightarrow> position \<Rightarrow> game_state option" where
  "try_child g mover p =
     (let child = clone g
      in case apply_move child \<lparr>mv_player = mover, mv_pos = p\<rparr> (gs_started child) of
           Done (child', _) \<Rightarrow> Some child'
         | Fail _ \<Rightarrow> None
         | Panic \<Rightarrow> None)"

fun ab_loop :: "('c \<Rightarrow> int \<Rightarrow> int \<Rightarrow> int option) \<Rightarrow> 'c list \<Rightarrow> int \<Rightarrow> int \<Rightarrow> int \<Rightarrow> int" where
  "ab_loop f [] best alpha beta = best"
| "ab_loop f (c # cs) best alpha beta =
     (case f c (- beta) (- alpha) of
        None \<Rightarrow> ab_loop f cs best alpha beta
      | Some v \<Rightarrow>
          let score = - v;
              best' = (if score > best then score else best);
              alpha' = (if score > alpha then score else alpha)
          in if alpha' \<ge> beta then best' else ab_loop f cs best' alpha' beta)"

primrec negamax :: "nat \<Rightarrow> game_state \<Rightarrow> color \<Rightarrow> int \<Rightarrow> int \<Rightarrow> int" where
  "negamax 0 g mover alpha beta = (if is_over g then terminal_score g mover else score_position g mover)"
| "negamax (Suc depth) g mover alpha beta =
     (if is_over g then terminal_score g mover
      else let candidates = ranked_candidates g mover topCandidatesAtDepth1
           in if candidates = [] then score_position g mover
              else ab_loop
                (\<lambda>c a b. map_option (\<lambda>child. negamax depth child (opponent_of child mover) a b)
                           (try_child g mover (cd_pos c)))
                candidates minScore alpha beta)"

text \<open>The loop at the root collects the positions tied for the best score.\<close>

fun root_loop :: "(candidate \<Rightarrow> int \<Rightarrow> int \<Rightarrow> int option) \<Rightarrow> candidate list \<Rightarrow> position list \<Rightarrow> int \<Rightarrow> int \<Rightarrow> int
    \<Rightarrow> position list \<times> int" where
  "root_loop f [] best bestScore alpha beta = (best, bestScore)"
| "root_loop f (c # cs) best bestScore alpha beta =
     (case f c (- beta) (- alpha) of
        None \<Rightarrow> root_loop f cs best bestScore alpha beta
      | Some v \<Rightarrow>
          let score = - v;
              (best', bestScore') =
                (if score > bestScore then ([cd_pos c], score)
                 else if score = bestScore then (best @ [cd_pos c], bestScore)
                 else (best, bestScore));
              alpha' = (if score > alpha then score else alpha)
          in root_loop f cs best' bestScore' alpha' beta)"

definition root_search :: "game_state \<Rightarrow> color \<Rightarrow> position list \<times> int" where
  "root_search g c =
     root_loop
       (\<lambda>cd a b. map_option (\<lambda>child. negamax (searchDepth - 1) child (opponent_of child c) a b)
                  (try_child g c (cd_pos cd)))
       (ranked_candidates g c topCandidatesAtDepth0) [] minScore minScore (- minScore)"

text \<open>\<open>Intn\<close> of the seeded generator is the parameter \<open>intn\<close>.\<close>

definition best_move :: "(nat \<Rightarrow> nat) \<Rightarrow> game_state \<Rightarrow> color \<Rightarrow> position option" where
  "best_move intn g c =
     (if is_over g then None
      else if ranked_candidates g c topCandidatesAtDepth0 = [] then None
      else let best = fst (root_search g c)
           in if best = [] then None else Some (best ! intn (length best)))"

section \<open>Ranking is a stable descending sort\<close>

lemma mset_insert_left [simp]: "mset (insert_left c xs) = add_mset c (mset xs)"
  by (induction xs) auto

lemma set_insert_left [simp]: "set (insert_left c xs) = insert c (set xs)"
  by (induction xs) auto

lemma sorted_insert_left:
  "sorted_wrt (\<lambda>x y. cd_score x \<le> cd_score y) xs \<Longrightarrow> sorted_wrt (\<lambda>x y. cd_score x \<le> cd_score y) (insert_left c xs)"
  by (induction xs) (auto simp: not_less intro: order_trans less_imp_le)

lemma filter_insert_left:
  "sorted_wrt (\<lambda>x y. cd_score x \<le> cd_score y) xs \<Longrightarrow> filter (\<lambda>x. cd_score x = k) (insert_left c xs)
    = (if cd_score c = k then c # filter (\<lambda>x. cd_score x = k) xs else filter (\<lambda>x. cd_score x = k) xs)"
  by (induction xs) (auto simp: filter_empty_conv not_less)

lemma fold_insert_left:
  assumes "sorted_wrt (\<lambda>x y. cd_score x \<le> cd_score y) acc"
  shows "sorted_wrt (\<lambda>x y. cd_score x \<le> cd_score y) (foldl (\<lambda>acc c. insert_left c acc) acc s)
    \<and> mset (foldl (\<lambda>acc c. insert_left c acc) acc s) = mset s + mset acc
    \<and> filter (\<lambda>x. cd_score x = k) (foldl (\<lambda>acc c. insert_left c acc) acc s)
      = rev (filter (\<lambda>x. cd_score x = k) s) @ filter (\<lambda>x. cd_score x = k) acc"
  using assms
proof (induction s arbitrary: acc)
  case (Cons c s)
  show ?case
    using Cons.IH [OF sorted_insert_left [OF Cons.prems, of c]] Cons.prems
    by (simp add: filter_insert_left)
qed simp

lemma sort_descending_facts:
  "sorted_wrt (\<lambda>x y. cd_score y \<le> cd_score x) (sort_descending s)"
  "mset (sort_descending s) = mset s"
  "filter (\<lambda>x. cd_score x = k) (sort_descending s) = filter (\<lambda>x. cd_score x = k) s"
  using fold_insert_left [of "[]" s k]
  by (simp_all add: sort_descending_def sorted_wrt_rev flip: rev_filter)

lemma set_sort_descending [simp]: "set (sort_descending s) = set s"
  by (metis sort_descending_facts(2) set_mset_mset)

section \<open>Candidates are the free cells\<close>

definition free_cells :: "game_state \<Rightarrow> position set" where
  "free_cells g = {p. hex (b_side (gs_board g)) p \<and> board_at (gs_board g) p = Empty}"

lemma scan_free:
  assumes "board_wf (gs_board g)"
  shows "set (filter (\<lambda>p. board_in (gs_board g) p \<and> board_at (gs_board g) p = Empty)
    (scan (b_side (gs_board g) - 1))) = free_cells g"
proof -
  have "board_in (gs_board g) p = hex (b_side (gs_board g)) p" if "p \<in> set (scan (b_side (gs_board g) - 1))" for p
    using that board_in_near [OF assms near_square [OF assms]] by (simp add: set_scan in_square_def)
  moreover have "p \<in> set (scan (b_side (gs_board g) - 1))" if "hex (b_side (gs_board g)) p" for p
    using that by (simp add: set_scan hex_def)
  ultimately show ?thesis by (auto simp: free_cells_def)
qed

lemma ranked_candidates_free:
  assumes "board_wf (gs_board g)" "c \<in> set (ranked_candidates g mover k)"
  shows "cd_pos c \<in> free_cells g" "cd_score c = shallow_score g (cd_pos c) mover"
  using assms(2) set_take_subset scan_free [OF assms(1)]
  by (fastforce simp: ranked_candidates_def Let_def split: if_splits dest!: in_set_takeD)+

lemma ranked_candidates_Nil:
  assumes "board_wf (gs_board g)" "0 < k"
  shows "ranked_candidates g mover k = [] \<longleftrightarrow> free_cells g = {}"
proof -
  let ?xs = "filter (\<lambda>p. board_in (gs_board g) p \<and> board_at (gs_board g) p = Empty) (scan (b_side (gs_board g) - 1))"
  have "mset (sort_descending s) = {#} \<longleftrightarrow> s = []" for s by (simp add: sort_descending_facts(2))
  then have "ranked_candidates g mover k = [] \<longleftrightarrow> ?xs = []"
    using assms(2) by (simp add: ranked_candidates_def Let_def)
  then show ?thesis using scan_free [OF assms(1)] by (metis set_empty)
qed

section \<open>Playing in the search\<close>

lemma clone_frame [simp]:
  "gs_config (clone g) = gs_config g" "gs_board (clone g) = gs_board g" "gs_players (clone g) = gs_players g"
  "gs_turn (clone g) = gs_turn g" "gs_winner (clone g) = gs_winner g" "gs_kind (clone g) = gs_kind g"
  "gs_started (clone g) = gs_started g" "is_over (clone g) = is_over g"
  "current_player (clone g) = current_player g" "charge_clock (clone g) p now = charge_clock g p now"
  by (simp_all add: clone_def board_clone_def is_over_def current_player_def charge_clock_def
      clock_enabled_def Let_def)

lemma accepts_clone [simp]: "accepts (clone g) m now cur = accepts g m now cur"
  by (simp add: accepts_def)

text \<open>At the turn's own start no time has elapsed, so the clock never refuses.\<close>

lemma charge_clock_start:
  assumes "game_wf g"
  shows "\<exists>cur. charge_clock g (current_player g) (gs_started g) = Some cur"
proof -
  have "0 \<le> pl_time (current_player g)"
    using current_in [OF assms] assms by (auto simp: game_wf_def player_ok_def)
  then show ?thesis by (simp add: charge_clock_def Let_def)
qed

lemma free_cell_accepts:
  assumes g: "game_wf g" "\<not> is_over g" "mover = pl_color (current_player g)" "0 < pl_gems (current_player g)"
    and p: "p \<in> free_cells g"
  shows "\<exists>cur. accepts g \<lparr>mv_player = mover, mv_pos = p\<rparr> (gs_started g) cur"
  using charge_clock_start [OF g(1)] assms hex_board_in idx_ok_hex
  by (auto simp: accepts_def free_cells_def game_wf_def)

lemma child_no_panic:
  assumes "game_wf g" "p \<in> free_cells g"
  shows "apply_move (clone g) \<lparr>mv_player = mover, mv_pos = p\<rparr> now \<noteq> Panic"
  using assms idx_ok_hex
  by (auto simp: apply_move_def free_cells_def game_wf_def split: option.splits)

lemma try_child_Some:
  "try_child g mover p \<noteq> None \<longleftrightarrow> (\<exists>cur. accepts g \<lparr>mv_player = mover, mv_pos = p\<rparr> (gs_started g) cur)"
proof -
  have "try_child g mover p \<noteq> None
      \<longleftrightarrow> (\<exists>r. apply_move (clone g) \<lparr>mv_player = mover, mv_pos = p\<rparr> (gs_started g) = Done r)"
    by (auto simp: try_child_def Let_def split: outcome.splits prod.splits)
  then show ?thesis unfolding apply_move_Done accepts_clone by blast
qed

section \<open>Plain minimax\<close>

text \<open>The specification of the search: the same tree and leaves without pruning.\<close>

fun mm_loop :: "('c \<Rightarrow> int option) \<Rightarrow> 'c list \<Rightarrow> int \<Rightarrow> int" where
  "mm_loop f [] best = best"
| "mm_loop f (c # cs) best = (case f c of None \<Rightarrow> mm_loop f cs best | Some v \<Rightarrow> mm_loop f cs (max best (- v)))"

primrec minimax :: "nat \<Rightarrow> game_state \<Rightarrow> color \<Rightarrow> int" where
  "minimax 0 g mover = (if is_over g then terminal_score g mover else score_position g mover)"
| "minimax (Suc depth) g mover =
     (if is_over g then terminal_score g mover
      else let candidates = ranked_candidates g mover topCandidatesAtDepth1
           in if candidates = [] then score_position g mover
              else mm_loop
                (\<lambda>c. map_option (\<lambda>child. minimax depth child (opponent_of child mover))
                           (try_child g mover (cd_pos c)))
                candidates minScore)"

text \<open>A result that is exact inside the window and on the right side of it outside.\<close>

definition ab_ok :: "int \<Rightarrow> int \<Rightarrow> int \<Rightarrow> int \<Rightarrow> bool" where
  "ab_ok v r a b \<longleftrightarrow> (if v \<le> a then v \<le> r \<and> r \<le> a else if b \<le> v then b \<le> r \<and> r \<le> v else r = v)"

definition child_ok :: "int option \<Rightarrow> (int \<Rightarrow> int \<Rightarrow> int option) \<Rightarrow> bool" where
  "child_ok v r \<longleftrightarrow> (case v of
     None \<Rightarrow> (\<forall>a b. r a b = None)
   | Some x \<Rightarrow> (\<forall>a b. minScore \<le> a \<and> a < b \<and> b \<le> - minScore \<longrightarrow> (\<exists>y. r a b = Some y \<and> ab_ok x y a b)))"

lemma mm_loop_ge: "t \<le> mm_loop f cs t"
  by (induction cs arbitrary: t) (auto split: option.splits intro: order_trans [OF max.cobounded1])

lemma child_window:
  assumes "child_ok v h" "v = Some x" "minScore \<le> a" "a < b" "b \<le> - minScore"
  obtains y where "h a b = Some y" "ab_ok x y a b"
  using assms unfolding child_ok_def by fastforce

lemma ab_loop_ok:
  assumes "\<And>c. c \<in> set cs \<Longrightarrow> child_ok (g c) (f c)"
    and "minScore \<le> alpha0" "beta \<le> - minScore" "max alpha0 best < beta"
    and "t \<le> alpha0 \<Longrightarrow> t \<le> best \<and> best \<le> alpha0" "alpha0 < t \<Longrightarrow> best = t"
  shows "ab_ok (mm_loop g cs t) (ab_loop f cs best (max alpha0 best) beta) alpha0 beta"
  using assms
proof (induction cs arbitrary: best t)
  case Nil
  then show ?case by (auto simp: ab_ok_def)
next
  case (Cons c cs)
  let ?alpha = "max alpha0 best"
  have ok: "child_ok (g c) (f c)" using Cons.prems(1) by simp
  show ?case
  proof (cases "g c")
    case None
    with ok Cons show ?thesis by (simp add: child_ok_def)
  next
    case (Some x)
    have "minScore \<le> - beta" "- beta < - ?alpha" "- ?alpha \<le> - minScore" using Cons.prems(2-4) by linarith+
    with child_window [OF ok Some] obtain y where y: "f c (- beta) (- ?alpha) = Some y" and xy: "ab_ok x y (- beta) (- ?alpha)" by blast
    let ?best = "if - y > best then - y else best"
    have alpha': "(if - y > ?alpha then - y else ?alpha) = max alpha0 ?best" by auto
    show ?thesis
    proof (cases "beta \<le> max alpha0 ?best")
      case True
      have "beta \<le> - x \<and> - y \<le> - x \<and> beta \<le> - y \<and> best < - y"
        using True xy Cons.prems(4) by (auto simp: ab_ok_def split: if_splits)
      moreover have "- x \<le> mm_loop g cs (max t (- x))" using mm_loop_ge [of "max t (- x)" g cs] by simp
      ultimately show ?thesis
        using Some y True alpha' Cons.prems(4) by (simp add: Let_def ab_ok_def)
    next
      case False
      have inv: "t \<le> alpha0 \<and> t \<le> best \<and> best \<le> alpha0 \<or> alpha0 < t \<and> best = t"
        using Cons.prems(5,6) by linarith
      have "ab_ok (mm_loop g cs (max t (- x))) (ab_loop f cs ?best (max alpha0 ?best) beta) alpha0 beta"
      proof (rule Cons.IH)
        show "max t (- x) \<le> alpha0 \<Longrightarrow> max t (- x) \<le> ?best \<and> ?best \<le> alpha0"
          using xy inv Cons.prems(4) False by (auto simp: ab_ok_def max_def split: if_splits)
        show "alpha0 < max t (- x) \<Longrightarrow> ?best = max t (- x)"
          using xy inv Cons.prems(4) False by (auto simp: ab_ok_def max_def split: if_splits)
      qed (use Cons.prems False in auto)
      then show ?thesis using Some y False alpha' by (simp add: Let_def)
    qed
  qed
qed

lemma negamax_window:
  assumes "minScore \<le> alpha" "alpha < beta" "beta \<le> - minScore"
  shows "ab_ok (minimax depth g mover) (negamax depth g mover alpha beta) alpha beta"
  using assms
proof (induction depth arbitrary: g mover alpha beta)
  case 0
  then show ?case by (simp add: ab_ok_def)
next
  case (Suc depth)
  let ?cs = "ranked_candidates g mover topCandidatesAtDepth1"
  let ?g = "\<lambda>c. map_option (\<lambda>child. minimax depth child (opponent_of child mover)) (try_child g mover (cd_pos c))"
  let ?f = "\<lambda>c a b. map_option (\<lambda>child. negamax depth child (opponent_of child mover) a b)
     (try_child g mover (cd_pos c))"
  have "child_ok (?g c) (?f c)" for c
    using Suc.IH by (auto simp: child_ok_def split: option.splits)
  then have "ab_ok (mm_loop ?g ?cs minScore) (ab_loop ?f ?cs minScore (max alpha minScore) beta) alpha beta"
    using Suc.prems by (intro ab_loop_ok) auto
  moreover have "max alpha minScore = alpha" using Suc.prems by simp
  ultimately show ?case using Suc.prems by (simp add: Let_def ab_ok_def del: mm_loop.simps ab_loop.simps)
qed

section \<open>Games inside the search\<close>

text \<open>A clone has lost its history, so inside the search the invariant holds of the game with some
  history put back.\<close>

definition game_sim :: "game_state \<Rightarrow> bool" where
  "game_sim g \<longleftrightarrow> (\<exists>h. game_wf (g\<lparr>gs_history := h\<rparr>))"

lemma game_sim_wf: "game_wf g \<Longrightarrow> game_sim g"
  unfolding game_sim_def by (intro exI [of _ "gs_history g"]) simp

lemma place_history:
  "fst (place (g\<lparr>gs_history := h\<rparr>) m cur now) = (fst (place g m cur now))\<lparr>gs_history := h @ [m]\<rparr>"
  by (simp add: place_eq moved_def Let_def move_board_def move_captures_def paid_player_def check_win_def
      clock_enabled_def)

lemma accepts_history [simp]: "accepts (g\<lparr>gs_history := h\<rparr>) m now cur = accepts g m now cur"
  by (simp add: accepts_def is_over_def current_player_def charge_clock_def clock_enabled_def Let_def)

lemma clone_history: "(clone g)\<lparr>gs_history := h\<rparr> = g\<lparr>gs_history := h\<rparr>"
proof -
  have "board_clone b = b" for b by (cases b) (simp add: board_clone_def)
  then show ?thesis by (cases g) (simp add: clone_def)
qed

lemma place_clone_fields:
  "gs_board (fst (place (clone g) m cur now)) = gs_board (fst (place g m cur now))"
  "gs_players (fst (place (clone g) m cur now)) = gs_players (fst (place g m cur now))"
  by (simp_all add: frame_simps move_board_def move_captures_def paid_player_def)

lemma try_child_place:
  "try_child g mover p = Some child \<Longrightarrow> \<exists>cur. accepts g \<lparr>mv_player = mover, mv_pos = p\<rparr> (gs_started g) cur
    \<and> child = fst (place (clone g) \<lparr>mv_player = mover, mv_pos = p\<rparr> cur (gs_started g))"
  using apply_move_Done [of "clone g" "\<lparr>mv_player = mover, mv_pos = p\<rparr>" "gs_started g"]
  by (auto simp: try_child_def Let_def split: outcome.splits prod.splits) (metis fst_conv)

lemma try_child_sim:
  assumes g: "game_sim g" and p: "p \<in> free_cells g" and c: "try_child g mover p = Some child"
  shows "game_sim child" "b_side (gs_board child) = b_side (gs_board g)"
proof -
  let ?m = "\<lparr>mv_player = mover, mv_pos = p\<rparr>"
  obtain cur where acc: "accepts g ?m (gs_started g) cur"
    and child: "child = fst (place (clone g) ?m cur (gs_started g))"
    using try_child_place [OF c] by blast
  obtain h where h: "game_wf (g\<lparr>gs_history := h\<rparr>)" using g by (auto simp: game_sim_def)
  have "pos64 p" using h p hex_near near_pos64 by (auto simp: game_wf_def free_cells_def)
  then have "game_wf (fst (place (g\<lparr>gs_history := h\<rparr>) ?m cur (gs_started g)))"
    using h acc by (intro place_wf) simp_all
  moreover have "child\<lparr>gs_history := h @ [?m]\<rparr> = (fst (place g ?m cur (gs_started g)))\<lparr>gs_history := h @ [?m]\<rparr>"
    unfolding child place_history [symmetric] clone_history ..
  ultimately show "game_sim child" unfolding game_sim_def place_history by metis
  show "b_side (gs_board child) = b_side (gs_board g)"
    by (simp add: child frame_simps move_board_def)
qed

section \<open>Bounds on the scores\<close>

text \<open>On the boards that are played, of side at most 11, no score gets near the search's bounds.\<close>

lemma sum_list_bound:
  fixes f :: "'a \<Rightarrow> int"
  shows "(\<And>x. x \<in> set xs \<Longrightarrow> 0 \<le> f x \<and> f x \<le> k) \<Longrightarrow> 0 \<le> sum_list (map f xs) \<and> sum_list (map f xs) \<le> k * int (length xs)"
proof (induction xs)
  case (Cons x xs)
  have "0 \<le> f x \<and> f x \<le> k" using Cons.prems by simp
  moreover have "0 \<le> sum_list (map f xs) \<and> sum_list (map f xs) \<le> k * int (length xs)"
    by (rule Cons.IH) (use Cons.prems in simp)
  ultimately show ?case by (simp add: algebra_simps)
qed simp

lemma member_sum_bound:
  fixes f :: "'a \<Rightarrow> int"
  assumes "\<And>x. x \<in> set xs \<Longrightarrow> 0 \<le> f x" "x \<in> set xs"
  shows "f x \<le> sum_list (map f xs)"
proof -
  obtain ys zs where "xs = ys @ x # zs" using assms(2) by (meson split_list)
  moreover have "0 \<le> sum_list (map f ys)" "0 \<le> sum_list (map f zs)"
    using assms(1) calculation by (auto intro!: sum_list_nonneg)
  ultimately show ?thesis by simp
qed

lemma length_run_starts: "length (run_starts b c) \<le> 3 * length (scan (b_side b - 1))"
proof -
  have inner: "length (concat (map (\<lambda>d. if P d then [] else [(p, d)]) ds)) \<le> length ds" for P p and ds :: "position list"
    by (induction ds) auto
  have "length (concat (map (\<lambda>p. if Q p then [] else concat (map (\<lambda>d. if P p d then [] else [(p, d)]) directions)) ps))
      \<le> 3 * length ps" for P Q and ps :: "position list"
  proof (induction ps)
    case (Cons p ps)
    with inner [of "P p" p directions] show ?case by (auto simp: directions_def)
  qed simp
  then show ?thesis unfolding run_starts_def Let_def .
qed

lemma length_scan: "length (scan r) = length [- r..r] * length [- r..r]"
  by (simp add: scan_def length_concat comp_def sum_list_triv)

lemma count_maximal_runs_bound:
  assumes "b_side b \<le> 11"
  shows "0 \<le> count_maximal_runs b c n \<and> count_maximal_runs b c n \<le> 1323"
proof -
  have eq: "count_maximal_runs b c n
      = count_if (\<lambda>l. l = n) (map (\<lambda>(p, d). run_walk (run_fuel b) b c p d) (run_starts b c))"
    by (simp add: count_maximal_runs_def for_each_maximal_run_def visit_runs_count)
  have "length [- (b_side b - 1)..b_side b - 1] \<le> 21" using assms by simp
  then have "length (scan (b_side b - 1)) \<le> 21 * 21"
    unfolding length_scan by (intro mult_mono) auto
  then have "length (run_starts b c) \<le> 1323" using length_run_starts [of b c] by linarith
  then show ?thesis
    unfolding eq using count_if_le_length [of "\<lambda>l. l = n" "map (\<lambda>(p, d). run_walk (run_fuel b) b c p d) (run_starts b c)"]
    by simp
qed

lemma players_at_most_6:
  assumes "game_wf g"
  shows "length (gs_players g) \<le> 6"
proof -
  have "set (map pl_color (gs_players g)) \<subseteq> {1..6}"
    using assms by (auto simp: game_wf_def player_ok_def color_defs)
  then have "card (set (map pl_color (gs_players g))) \<le> card {1..6::int}" by (intro card_mono) auto
  moreover have "distinct (map pl_color (gs_players g))" using assms by (simp add: game_wf_def)
  ultimately show ?thesis using distinct_card [of "map pl_color (gs_players g)"] by simp
qed

lemma pairs_bound:
  assumes "game_wf g"
  shows "total_pairs g \<le> 150" and "\<And>p. p \<in> set (gs_players g) \<Longrightarrow> 0 \<le> pl_pairs p \<and> pl_pairs p \<le> 150"
proof -
  have ok: "0 \<le> pl_pairs p \<and> 0 \<le> GemsPerPlayer - pl_gems p \<and> GemsPerPlayer - pl_gems p \<le> 50" if "p \<in> set (gs_players g)" for p
    using assms that by (auto simp: game_wf_def player_ok_def GemsPerPlayer_def)
  have "gems_spent g \<le> 50 * int (length (gs_players g))"
    unfolding gems_spent_def using sum_list_bound [of "gs_players g" "\<lambda>p. GemsPerPlayer - pl_gems p" 50] ok by blast
  then have "gems_spent g \<le> 300" using players_at_most_6 [OF assms] by linarith
  then show "total_pairs g \<le> 150"
    using assms tally_nonneg [of "gs_board g" "\<lambda>c. c \<noteq> Empty"] by (simp add: game_wf_def stones_def)
  then show "0 \<le> pl_pairs p \<and> pl_pairs p \<le> 150" if "p \<in> set (gs_players g)" for p
    using that ok member_sum_bound [of "gs_players g" pl_pairs p] by (auto simp: total_pairs_def)
qed

lemma score_bound:
  assumes g: "game_wf g" and side: "b_side (gs_board g) \<le> 11"
  shows "\<bar>score_position g c\<bar> \<le> 10000000"
proof -
  let ?b = "gs_board g"
  let ?others = "filter (\<lambda>p. pl_color p \<noteq> c) (gs_players g)"
  have len: "int (length ?others) \<le> 6"
    using players_at_most_6 [OF g] length_filter_le [of "\<lambda>p. pl_color p \<noteq> c" "gs_players g"] by linarith
  have run: "0 \<le> count_maximal_runs ?b c n \<and> count_maximal_runs ?b c n \<le> 1323" for c n
    by (rule count_maximal_runs_bound [OF side])
  have opp: "0 \<le> sum_list (map (\<lambda>p. count_maximal_runs ?b (pl_color p) n) ?others)
      \<and> sum_list (map (\<lambda>p. count_maximal_runs ?b (pl_color p) n) ?others) \<le> 7938" for n
    using sum_list_bound [of ?others "\<lambda>p. count_maximal_runs ?b (pl_color p) n" 1323] run len by fastforce
  have caps: "0 \<le> sum_list (map pl_pairs ?others) \<and> sum_list (map pl_pairs ?others) \<le> 900"
    using sum_list_bound [of ?others pl_pairs 150] pairs_bound(2) [OF g] len by fastforce
  let ?my = "case player_by_color g c of Some p \<Rightarrow> pl_pairs p | None \<Rightarrow> 0"
  have my: "0 \<le> ?my \<and> ?my \<le> 150"
    using pairs_bound(2) [OF g] by (auto simp: player_by_color_def find_Some_iff split: option.splits)
  have quot: "0 \<le> (50 * ?my) sdiv k \<and> (50 * ?my) sdiv k \<le> 7500" if "0 < k" for k
  proof -
    have "(50 * ?my) div k \<le> 50 * ?my"
      using my that by (intro zdiv_mono2 [where b' = 1 and b = k, simplified]) auto
    then have "0 \<le> (50 * ?my) div k \<and> (50 * ?my) div k \<le> 7500"
      using my that by (auto simp: pos_imp_zdiv_nonneg_iff)
    then show ?thesis using my that by (simp add: signed_divide_int_def sgn_if)
  qed
  have prod: "0 \<le> ?my * ((50 * ?my) sdiv k) \<and> ?my * ((50 * ?my) sdiv k) \<le> 1125000" if "0 < k" for k
    using mult_mono [of ?my 150 "(50 * ?my) sdiv k" 7500] my quot [OF that] by simp
  have max: "0 < max_int (cf_pairs (gs_config g)) 1" by (simp add: max_int_def)
  show ?thesis
    using run [of c 5] run [of c 4] run [of c 3] opp [of 5] opp [of 4] opp [of 3] caps my prod [OF max]
    unfolding score_position_def Let_def by (simp split del: option.split) linarith
qed

section \<open>The choice at the root\<close>

lemma root_loop_pool:
  assumes "root_loop f cs best bs alpha beta = (best', bs')"
  shows "set best' \<subseteq> set best \<union> {cd_pos c | c. c \<in> set cs \<and> (\<exists>a b. f c a b \<noteq> None)}"
  using assms
proof (induction cs arbitrary: best bs alpha)
  case (Cons c cs)
  show ?case
  proof (cases "f c (- beta) (- alpha)")
    case None
    then have "root_loop f cs best bs alpha beta = (best', bs')" using Cons.prems by simp
    from Cons.IH [OF this] show ?thesis by fastforce
  next
    case (Some v)
    then have "\<exists>a b. f c a b \<noteq> None" by blast
    moreover obtain best1 bs1 where "root_loop f cs best1 bs1 (if - v > alpha then - v else alpha) beta = (best', bs')"
      "set best1 \<subseteq> insert (cd_pos c) (set best)"
      using Cons.prems Some by (auto simp: Let_def split: if_splits)
    ultimately show ?thesis using Cons.IH [of best1 bs1] by fastforce
  qed
qed simp

text \<open>What the loop at the root returns: the value of the best child, and a list whose head is a best child that is left or
  the head it started with.\<close>

definition root_ok :: "(candidate \<Rightarrow> int option) \<Rightarrow> candidate list \<Rightarrow> position list \<Rightarrow> int \<Rightarrow> position list \<Rightarrow> int \<Rightarrow> bool" where
  "root_ok g cs best t best' bs \<longleftrightarrow> bs = mm_loop g cs t \<and> (best' = [] \<longleftrightarrow> bs = minScore)
    \<and> (best' \<noteq> [] \<longrightarrow> best \<noteq> [] \<and> hd best' = hd best \<and> bs = t
         \<or> (\<exists>c \<in> set cs. cd_pos c = hd best' \<and> g c = Some (- bs)))"

lemma root_ok_Cons:
  "g c = None \<Longrightarrow> root_ok g cs best t best' bs \<Longrightarrow> root_ok g (c # cs) best t best' bs"
  "g c = Some x \<Longrightarrow> t < - x \<Longrightarrow> root_ok g cs [cd_pos c] (- x) best' bs \<Longrightarrow> root_ok g (c # cs) best t best' bs"
  "g c = Some x \<Longrightarrow> - x \<le> t \<Longrightarrow> root_ok g cs best1 t best' bs \<Longrightarrow> (best1 \<noteq> [] \<Longrightarrow> best \<noteq> [] \<and> hd best1 = hd best)
    \<Longrightarrow> root_ok g (c # cs) best t best' bs"
  unfolding root_ok_def by (auto simp: max_absorb1 max_absorb2)

lemma root_loop_ok:
  assumes "\<forall>c \<in> set cs. child_ok (g c) (f c)"
    and "\<forall>c \<in> set cs. \<forall>x. g c = Some x \<longrightarrow> minScore < x \<and> x < - minScore"
    and "minScore \<le> t" "t < - minScore" "best = [] \<longleftrightarrow> t = minScore"
    and "root_loop f cs best t t (- minScore) = (best', bs)"
  shows "root_ok g cs best t best' bs"
  using assms
proof (induction cs arbitrary: best t)
  case Nil
  then show ?case by (auto simp: root_ok_def)
next
  case (Cons c cs)
  have ok: "child_ok (g c) (f c)" using Cons.prems(1) by simp
  have ok': "\<forall>c \<in> set cs. child_ok (g c) (f c)" using Cons.prems(1) by simp
  have range': "\<forall>c \<in> set cs. \<forall>x. g c = Some x \<longrightarrow> minScore < x \<and> x < - minScore" using Cons.prems(2) by simp
  show ?case
  proof (cases "g c")
    case None
    with ok have "root_loop f cs best t t (- minScore) = (best', bs)" using Cons.prems(6) by (simp add: child_ok_def)
    from root_ok_Cons(1) [where g = g, OF None Cons.IH [OF ok' range' Cons.prems(3-5) this]] show ?thesis .
  next
    case (Some x)
    have x: "minScore < x" "x < - minScore" using Cons.prems(2) Some by auto
    have "minScore \<le> minScore" "minScore < - t" "- t \<le> - minScore" using Cons.prems(3,4) by linarith+
    with child_window [OF ok Some] obtain y where y: "f c minScore (- t) = Some y" and xy: "ab_ok x y minScore (- t)" by blast
    show ?thesis
    proof (cases "- x > t")
      case True
      then have "y = x" using xy x by (auto simp: ab_ok_def)
      then have run: "root_loop f cs [cd_pos c] (- x) (- x) (- minScore) = (best', bs)"
        using Cons.prems(6) y True by (simp add: Let_def)
      have "minScore \<le> - x" "- x < - minScore" "[cd_pos c] = [] \<longleftrightarrow> - x = minScore" using x True Cons.prems(3) by auto
      from root_ok_Cons(2) [where g = g, OF Some True Cons.IH [OF ok' range' this run]] show ?thesis .
    next
      case False
      then have yt: "- t \<le> y" "y \<le> x" "- x \<le> t" using xy x by (auto simp: ab_ok_def split: if_splits)
      define best1 where "best1 = (if - y = t then best @ [cd_pos c] else best)"
      have run: "root_loop f cs best1 t t (- minScore) = (best', bs)"
        using Cons.prems(6) y yt by (auto simp: Let_def best1_def)
      have "- y = t \<Longrightarrow> best \<noteq> []" using Cons.prems(5) yt x by auto
      then have ne: "best1 = [] \<longleftrightarrow> t = minScore" and hd: "best1 \<noteq> [] \<Longrightarrow> best \<noteq> [] \<and> hd best1 = hd best"
        using Cons.prems(5) by (auto simp: best1_def)
      show ?thesis by (rule root_ok_Cons(3) [where g = g, OF Some yt(3) Cons.IH [OF ok' range' Cons.prems(3,4) ne run] hd])
    qed
  qed
qed

text \<open>After an accepted move that does not end the game, the rotation's next colour is to move.\<close>

lemma find_index_color:
  assumes "distinct (map pl_color ps)" "i < length ps" "pl_color (ps ! i) = c"
  shows "find_index (\<lambda>p. pl_color p = c) ps = Some i"
proof (rule find_index_first)
  show "\<forall>j < i. pl_color (ps ! j) \<noteq> c"
    using assms by (auto simp: distinct_conv_nth dest: less_trans)
qed (use assms in auto)

lemma opponent_to_move:
  assumes g: "game_sim g" and acc: "accepts g \<lparr>mv_player = c, mv_pos = p\<rparr> now cur"
  defines "child \<equiv> fst (place (clone g) \<lparr>mv_player = c, mv_pos = p\<rparr> cur now)"
  assumes "\<not> is_over child"
  shows "opponent_of child c = pl_color (current_player child)"
    and "gs_turn child = (gs_turn g + 1) mod length (gs_players g)"
proof -
  let ?m = "\<lparr>mv_player = c, mv_pos = p\<rparr>"
  have i: "gs_turn g < length (gs_players g)" and dist: "distinct (map pl_color (gs_players g))"
    using g by (auto simp: game_sim_def game_wf_def)
  have pls: "gs_players child = (gs_players g)[gs_turn g := paid_player (clone g) ?m cur]"
    by (simp add: child_def frame_simps)
  have "pl_color cur = c" "pl_color (current_player g) = c"
    using acc charge_clock_Some(1) by (auto simp: accepts_def)
  then have colors: "map pl_color (gs_players child) = map pl_color (gs_players g)"
    unfolding pls using i by (intro colors_update) (simp_all add: paid_player_def current_player_def)
  have turn: "gs_turn child = (gs_turn g + 1) mod length (gs_players g)"
    using assms(4) \<open>pl_color cur = c\<close> by (auto simp: child_def place_eq moved_def Let_def is_over_def)
  then show "gs_turn child = (gs_turn g + 1) mod length (gs_players g)" .
  have "find_index (\<lambda>p. pl_color p = c) (gs_players child) = Some (gs_turn g)"
  proof (rule find_index_color)
    show "pl_color (gs_players child ! gs_turn g) = c"
      using i \<open>pl_color cur = c\<close> by (simp add: pls paid_player_def)
  qed (use i dist colors in \<open>simp_all add: pls\<close>)
  then show "opponent_of child c = pl_color (current_player child)"
    by (simp add: opponent_of_def current_player_def turn pls)
qed

section \<open>The values at the root\<close>

text \<open>What the search should maximise at the root: the negated minimax value of each playable
  candidate.\<close>

definition child_value :: "game_state \<Rightarrow> color \<Rightarrow> candidate \<Rightarrow> int option" where
  "child_value g c cd =
     map_option (\<lambda>child. minimax (searchDepth - 1) child (opponent_of child c)) (try_child g c (cd_pos cd))"

lemma child_value_ok:
  "child_ok (child_value g c cd)
     (\<lambda>a b. map_option (\<lambda>child. negamax (searchDepth - 1) child (opponent_of child c) a b)
              (try_child g c (cd_pos cd)))"
  using negamax_window by (auto simp: child_ok_def child_value_def split: option.splits)

lemma sim_score_bound:
  assumes "game_sim g" "b_side (gs_board g) \<le> 11"
  shows "\<bar>if is_over g then terminal_score g c else score_position g c\<bar> \<le> 10000000"
proof -
  obtain h where "game_wf (g\<lparr>gs_history := h\<rparr>)" using assms(1) by (auto simp: game_sim_def)
  from score_bound [OF this, of c] have "\<bar>score_position g c\<bar> \<le> 10000000"
    using assms(2) by (simp add: score_position_def player_by_color_def Let_def cong: if_cong)
  then show ?thesis by (auto simp: terminal_score_def winScore_def)
qed

lemma mm_loop_bounds:
  assumes "\<And>c x. c \<in> set cs \<Longrightarrow> f c = Some x \<Longrightarrow> \<bar>x\<bar> \<le> k" and "\<exists>c \<in> set cs. f c \<noteq> None" and "t \<le> - k"
  shows "\<bar>mm_loop f cs t\<bar> \<le> k"
proof -
  have upper: "mm_loop f cs t \<le> k" if "t \<le> k" "\<forall>c \<in> set cs. \<forall>x. f c = Some x \<longrightarrow> \<bar>x\<bar> \<le> k" for cs t
    using that by (induction cs arbitrary: t) (auto split: option.splits)
  have lower: "- k \<le> mm_loop f cs t" if "\<exists>c \<in> set cs. f c \<noteq> None" "\<forall>c \<in> set cs. \<forall>x. f c = Some x \<longrightarrow> \<bar>x\<bar> \<le> k" for cs t
    using that
  proof (induction cs arbitrary: t)
    case (Cons c cs)
    show ?case
    proof (cases "f c")
      case (Some x)
      then have "- k \<le> max t (- x)" using Cons.prems(2) by auto
      from order_trans [OF this mm_loop_ge] Some show ?thesis by simp
    qed (use Cons in auto)
  qed simp
  obtain c x where "c \<in> set cs" "f c = Some x" using assms(2) by blast
  then have "0 \<le> k" using assms(1) [of c x] by simp
  then show ?thesis using upper [of t cs] lower [of cs t] assms by auto
qed

lemma minimax_1_bound:
  assumes g: "game_sim g" "b_side (gs_board g) \<le> 11" "mover = pl_color (current_player g)"
    and gems: "0 < pl_gems (current_player g)"
  shows "\<bar>minimax 1 g mover\<bar> \<le> 10000000"
proof (cases "is_over g \<or> ranked_candidates g mover topCandidatesAtDepth1 = []")
  case True
  then show ?thesis using sim_score_bound [OF g(1,2), of mover] by (auto simp: Let_def split: if_splits)
next
  case False
  let ?f = "\<lambda>c. map_option (\<lambda>child. minimax 0 child (opponent_of child mover)) (try_child g mover (cd_pos c))"
  let ?cs = "ranked_candidates g mover topCandidatesAtDepth1"
  obtain h where h: "game_wf (g\<lparr>gs_history := h\<rparr>)" using g(1) by (auto simp: game_sim_def)
  have b: "board_wf (gs_board g)" using h by (simp add: game_wf_def)
  have free: "cd_pos c \<in> free_cells g" if "c \<in> set ?cs" for c
    using ranked_candidates_free [OF b] that by blast
  have "try_child g mover (cd_pos c) \<noteq> None" if "c \<in> set ?cs" for c
  proof -
    have "\<exists>cur. accepts (g\<lparr>gs_history := h\<rparr>) \<lparr>mv_player = mover, mv_pos = cd_pos c\<rparr>
        (gs_started (g\<lparr>gs_history := h\<rparr>)) cur"
      by (rule free_cell_accepts [OF h])
        (use free [OF that] False g(3) gems in \<open>auto simp: free_cells_def current_player_def is_over_def\<close>)
    then show ?thesis unfolding try_child_Some by simp
  qed
  moreover have "?cs \<noteq> []" using False by simp
  ultimately have some: "\<exists>c \<in> set ?cs. ?f c \<noteq> None" by (cases ?cs) auto
  have "\<bar>x\<bar> \<le> 10000000" if c: "c \<in> set ?cs" "?f c = Some x" for c x
  proof -
    obtain child where ch: "try_child g mover (cd_pos c) = Some child" and x: "x = minimax 0 child (opponent_of child mover)"
      using c(2) by auto
    from try_child_sim [OF g(1) free [OF c(1)] ch] g(2) show ?thesis
      unfolding x using sim_score_bound [of child "opponent_of child mover"] by simp
  qed
  then have "\<bar>mm_loop ?f ?cs minScore\<bar> \<le> 10000000"
    by (rule mm_loop_bounds [OF _ some]) (simp_all add: minScore_def)
  moreover have "minimax 1 g mover = mm_loop ?f ?cs minScore"
    using False by (simp only: One_nat_def minimax.simps Let_def if_False) simp
  ultimately show ?thesis by simp
qed

end
