(* ===== verification/Ai_Props.thy ===== *)
theory Ai_Props
  imports Ai Game_Props
begin

text \<open>
  The properties of the bot: its search is minimax, its choice is legal, it finds a move when there
  is one, and the ranking is a stable sort of the free cells.
\<close>

lemma child_value_range:
  assumes g: "game_wf g" "b_side (gs_board g) \<le> 11" "c = pl_color (current_player g)"
    and nxt: "2 \<le> length (gs_players g)" "0 < pl_gems (gs_players g ! ((gs_turn g + 1) mod length (gs_players g)))"
    and cd: "cd \<in> set (ranked_candidates g c k)" "child_value g c cd = Some x"
  shows "\<bar>x\<bar> \<le> 10000000"
proof -
  let ?m = "\<lparr>mv_player = c, mv_pos = cd_pos cd\<rparr>"
  obtain child where ch: "try_child g c (cd_pos cd) = Some child" and x: "x = minimax 1 child (opponent_of child c)"
    using cd(2) by (auto simp: child_value_def searchDepth_def)
  obtain cur where acc: "accepts g ?m (gs_started g) cur" and child: "child = fst (place (clone g) ?m cur (gs_started g))"
    using try_child_place [OF ch] by blast
  have free: "cd_pos cd \<in> free_cells g" using ranked_candidates_free(1) [of g cd] g(1) cd(1) by (auto simp: game_wf_def)
  note sim = try_child_sim [OF game_sim_wf [OF g(1)] free ch]
  show ?thesis
  proof (cases "is_over child")
    case True
    then show ?thesis using sim_score_bound [of child "opponent_of child c"] sim g(2) by (simp add: x)
  next
    case False
    have turn: "gs_turn child = (gs_turn g + 1) mod length (gs_players g)"
      and opp: "opponent_of child c = pl_color (current_player child)"
      using opponent_to_move [OF game_sim_wf [OF g(1)] acc] False by (simp_all add: child)
    have "gs_turn g < length (gs_players g)" using g(1) by (simp add: game_wf_def)
    then have "(gs_turn g + 1) mod length (gs_players g) \<noteq> gs_turn g"
      using nxt(1) by (cases "gs_turn g + 1 = length (gs_players g)") auto
    then have "current_player child = gs_players g ! ((gs_turn g + 1) mod length (gs_players g))"
      unfolding current_player_def turn by (simp add: child frame_simps)
    then show ?thesis unfolding x using minimax_1_bound [OF sim(1) _ opp] sim(2) g(2) nxt(2) by simp
  qed
qed

lemma root_search_ok:
  assumes g: "game_wf g" "b_side (gs_board g) \<le> 11" "c = pl_color (current_player g)"
    and nxt: "2 \<le> length (gs_players g)" "0 < pl_gems (gs_players g ! ((gs_turn g + 1) mod length (gs_players g)))"
    and r: "root_search g c = (best, bs)"
  shows "bs = mm_loop (child_value g c) (ranked_candidates g c topCandidatesAtDepth0) minScore
    \<and> (best = [] \<longleftrightarrow> bs = minScore)
    \<and> (best \<noteq> [] \<longrightarrow> (\<exists>cd \<in> set (ranked_candidates g c topCandidatesAtDepth0).
          cd_pos cd = hd best \<and> child_value g c cd = Some (- bs)))"
proof -
  let ?cs = "ranked_candidates g c topCandidatesAtDepth0"
  have ok: "\<forall>cd \<in> set ?cs. child_ok (child_value g c cd)
     (\<lambda>a b. map_option (\<lambda>child. negamax (searchDepth - 1) child (opponent_of child c) a b)
              (try_child g c (cd_pos cd)))"
    by (intro ballI child_value_ok)
  have range: "\<forall>cd \<in> set ?cs. \<forall>x. child_value g c cd = Some x \<longrightarrow> minScore < x \<and> x < - minScore"
    using child_value_range [OF g nxt] by (fastforce simp: minScore_def abs_le_iff)
  have bounds: "minScore \<le> minScore" "minScore < - minScore" "([] :: position list) = [] \<longleftrightarrow> minScore = minScore"
    by (simp_all add: minScore_def)
  from root_loop_ok [OF ok range bounds r [unfolded root_search_def], unfolded root_ok_def] show ?thesis by blast
qed

text \<open>C28: On the boards that are played, when the next player still has a stone, the pruned search at the root computes
  plain two-ply minimax: its score is the maximum of the negated values of the playable candidates,
  and the first position of its pool is a candidate of exactly that value.\<close>

theorem root_search_is_minimax:
  assumes g: "game_wf g" "b_side (gs_board g) \<le> 11" "c = pl_color (current_player g)"
    and nxt: "2 \<le> length (gs_players g)" "0 < pl_gems (gs_players g ! ((gs_turn g + 1) mod length (gs_players g)))"
  shows "snd (root_search g c) = mm_loop (child_value g c) (ranked_candidates g c topCandidatesAtDepth0) minScore
    \<and> (fst (root_search g c) \<noteq> [] \<longrightarrow>
        (\<exists>cd \<in> set (ranked_candidates g c topCandidatesAtDepth0).
           cd_pos cd = hd (fst (root_search g c)) \<and> child_value g c cd = Some (- snd (root_search g c))))"
proof -
  obtain best bs where r: "root_search g c = (best, bs)" by (cases "root_search g c")
  show ?thesis using root_search_ok [OF g nxt r] unfolding r fst_conv snd_conv by blast
qed

theorem root_search_is_minimax_witness:
  "snd (root_search sample_game 1) = mm_loop (child_value sample_game 1)
     (ranked_candidates sample_game 1 topCandidatesAtDepth0) minScore"
proof -
  have "pl_color (current_player sample_game) = 1" "length (gs_players sample_game) = 2" "gs_turn sample_game = 0"
    "pl_gems (gs_players sample_game ! 1) = 50"
    by (simp_all add: sample_game_def start_clock_def new_game_def sample_config_def current_player_def GemsPerPlayer_def)
  with root_search_is_minimax [OF sample_wf, of 1] sample_side show ?thesis by simp
qed

text \<open>Whatever the generator draws, the move the bot returns is one the rules engine accepts for the player to move, on
  a free cell of the hexagon.\<close>

theorem best_move_is_legal:
  assumes "game_wf g" "best_move intn g c = Some p" "\<And>n. 0 < n \<Longrightarrow> intn n < n"
  shows "p \<in> free_cells g \<and> (\<exists>r. apply_move g \<lparr>mv_player = c, mv_pos = p\<rparr> (gs_started g) = Done r)"
proof -
  obtain best bs where r: "root_search g c = (best, bs)" by (cases "root_search g c")
  have p: "p = best ! intn (length best)" "best \<noteq> []"
    using assms(2) r by (auto simp: best_move_def split: if_splits)
  then have "p \<in> set best" using assms(3) by simp
  moreover have "set best \<subseteq> {cd_pos cd | cd. cd \<in> set (ranked_candidates g c topCandidatesAtDepth0)
      \<and> try_child g c (cd_pos cd) \<noteq> None}"
    using root_loop_pool [OF r [unfolded root_search_def]] by auto
  ultimately obtain cd where cd: "cd \<in> set (ranked_candidates g c topCandidatesAtDepth0)" "p = cd_pos cd"
    "try_child g c (cd_pos cd) \<noteq> None" by blast
  then obtain cur where "accepts g \<lparr>mv_player = c, mv_pos = p\<rparr> (gs_started g) cur"
    using try_child_Some by blast
  then have "\<exists>r. apply_move g \<lparr>mv_player = c, mv_pos = p\<rparr> (gs_started g) = Done r"
    unfolding apply_move_Done by blast
  moreover have "p \<in> free_cells g"
    using ranked_candidates_free(1) cd(1,2) assms(1) by (auto simp: game_wf_def)
  ultimately show ?thesis by blast
qed

lemma best_move_found:
  assumes g: "game_wf g" "b_side (gs_board g) \<le> 11" "c = pl_color (current_player g)" "\<not> is_over g"
    and nxt: "2 \<le> length (gs_players g)" "0 < pl_gems (gs_players g ! ((gs_turn g + 1) mod length (gs_players g)))"
    and live: "0 < pl_gems (current_player g)" "free_cells g \<noteq> {}"
  shows "best_move intn g c \<noteq> None"
proof -
  let ?cs = "ranked_candidates g c topCandidatesAtDepth0"
  have b: "board_wf (gs_board g)" using g(1) by (simp add: game_wf_def)
  have ne: "?cs \<noteq> []" using ranked_candidates_Nil [OF b, of topCandidatesAtDepth0 c] live(2)
    by (simp add: topCandidatesAtDepth0_def)
  have some: "\<exists>x. child_value g c cd = Some x" if "cd \<in> set ?cs" for cd
    using free_cell_accepts [OF g(1,4,3) live(1) ranked_candidates_free(1) [OF b that]]
      try_child_Some [of g c "cd_pos cd"] by (auto simp: child_value_def)
  have range: "minScore < x \<and> x < - minScore" if "cd \<in> set ?cs" "child_value g c cd = Some x" for cd x
    using child_value_range [OF g(1-3) nxt that] by (simp add: minScore_def abs_le_iff)
  obtain best bs where r: "root_search g c = (best, bs)" by (cases "root_search g c")
  note root_search_ok [OF g(1-3) nxt r]
  moreover have "minScore < mm_loop (child_value g c) ?cs minScore"
  proof -
    obtain cd cds where cs: "?cs = cd # cds" using ne by (cases ?cs) auto
    then obtain x where x: "child_value g c cd = Some x" using some by auto
    then have "minScore < max minScore (- x)" using range [of cd x] cs by auto
    from less_le_trans [OF this mm_loop_ge] x show ?thesis by (simp add: cs)
  qed
  ultimately have "best \<noteq> []" by auto
  then show ?thesis using ne g(4) r by (simp add: best_move_def)
qed

lemma sample_current: "pl_color (current_player sample_game) = 1" "length (gs_players sample_game) = 2"
  "gs_turn sample_game = 0" "pl_gems (gs_players sample_game ! Suc 0) = 50" "pl_gems (current_player sample_game) = 50"
  "\<not> is_over sample_game"
  by (simp_all add: sample_game_def start_clock_def new_game_def sample_config_def current_player_def
      GemsPerPlayer_def is_over_def)

lemma sample_free: "free_cells sample_game \<noteq> {}"
proof -
  have "hex 2 (Position 0 0)" by (simp add: hex_def)
  moreover from this have "board_at (gs_board sample_game) (Position 0 0) = Empty"
    using new_board_spec(3) [of 2 "Position 0 0"]
    by (simp add: sample_game_def start_clock_def new_game_def sample_config_def hex_in_square)
  ultimately show ?thesis using sample_side by (auto simp: free_cells_def)
qed

theorem best_move_is_legal_witness:
  "\<exists>p \<in> free_cells sample_game. best_move (\<lambda>n. 0) sample_game 1 = Some p"
proof -
  have "best_move (\<lambda>n. 0) sample_game 1 \<noteq> None"
    using sample_free sample_current sample_side by (intro best_move_found [OF sample_wf]) simp_all
  then obtain p where "best_move (\<lambda>n. 0) sample_game 1 = Some p" by blast
  with best_move_is_legal [OF sample_wf this] show ?thesis by auto
qed

text \<open>The bot always finds a move when its player has a stone left and a cell is free, as long as the next player
  still has a stone.\<close>

theorem best_move_exists:
  assumes "game_wf g" "b_side (gs_board g) \<le> 11" "\<not> is_over g" "2 \<le> length (gs_players g)"
    and "0 < pl_gems (gs_players g ! ((gs_turn g + 1) mod length (gs_players g)))"
    and "0 < pl_gems (current_player g)" "free_cells g \<noteq> {}"
  shows "\<exists>p. best_move intn g (pl_color (current_player g)) = Some p"
  using best_move_found [OF assms(1,2) refl assms(3-7)] by blast

theorem best_move_exists_witness: "\<exists>p. best_move (\<lambda>n. n - 1) sample_game 1 = Some p"
  using best_move_exists [OF sample_wf, of "\<lambda>n. n - 1"] sample_free sample_current sample_side by simp

text \<open>When the next player has no stone left, an ordinary move scores above every winning one: the reply search
  skips all replies and returns its initial value, and its negation exceeds the score of a win. The bot then
  passes over an immediate win.\<close>

theorem stuck_opponent_outscores_win:
  assumes "\<not> is_over child" "board_wf (gs_board child)" "pl_gems (current_player child) \<le> 0" "free_cells child \<noteq> {}"
  shows "- negamax 1 child mover alpha beta = - minScore \<and> - minScore > winScore"
proof -
  let ?cs = "ranked_candidates child mover topCandidatesAtDepth1"
  have "?cs \<noteq> []" using ranked_candidates_Nil [OF assms(2), of topCandidatesAtDepth1 mover] assms(4)
    by (simp add: topCandidatesAtDepth1_def)
  moreover have "try_child child mover p = None" for p
    using try_child_Some [of child mover p] assms(3) by (auto simp: accepts_def)
  then have "ab_loop (\<lambda>c a b. map_option (\<lambda>ch. negamax 0 ch (opponent_of ch mover) a b)
      (try_child child mover (cd_pos c))) cs best alpha beta = best" for cs best
    by (induction cs) simp_all
  ultimately have "negamax 1 child mover alpha beta = minScore"
    using assms(1) by (simp only: One_nat_def negamax.simps Let_def if_False)
  then show ?thesis by (simp add: minScore_def winScore_def)
qed

theorem stuck_opponent_outscores_win_witness:
  "- negamax 1 (sample_game\<lparr>gs_players := [\<lparr>pl_color = 1, pl_gems = 0, pl_pairs = 0, pl_time = 0\<rparr>]\<rparr>) 1 0 1 > winScore"
proof -
  let ?g = "sample_game\<lparr>gs_players := [\<lparr>pl_color = 1, pl_gems = 0, pl_pairs = 0, pl_time = 0\<rparr>]\<rparr>"
  have "\<not> is_over ?g" "board_wf (gs_board ?g)" "pl_gems (current_player ?g) \<le> 0" "free_cells ?g \<noteq> {}"
    using sample_current sample_wf sample_free
    by (simp_all add: is_over_def current_player_def game_wf_def free_cells_def)
  from stuck_opponent_outscores_win [OF this, of 1 0 1] show ?thesis by simp
qed

text \<open>The ranking sorts the candidates into descending order of score and loses none, the scan order
  deciding among equals, and nothing that was cut off beats one that was kept.\<close>

theorem sort_descending_is_stable_sort:
  "sorted_wrt (\<lambda>x y. cd_score y \<le> cd_score x) (sort_descending s) \<and> mset (sort_descending s) = mset s
    \<and> filter (\<lambda>x. cd_score x = k) (sort_descending s) = filter (\<lambda>x. cd_score x = k) s
    \<and> (\<forall>x \<in> set (take n (sort_descending s)). \<forall>y \<in> set (drop n (sort_descending s)). cd_score y \<le> cd_score x)"
proof -
  have "sorted_wrt (\<lambda>x y. cd_score y \<le> cd_score x) (take n (sort_descending s) @ drop n (sort_descending s))"
    using sort_descending_facts(1) by simp
  then show ?thesis using sort_descending_facts unfolding sorted_wrt_append by blast
qed

theorem sort_descending_is_stable_sort_witness:
  "mset (sort_descending [\<lparr>cd_pos = Position 0 0, cd_score = 1\<rparr>, \<lparr>cd_pos = Position 1 0, cd_score = 2\<rparr>])
    = {# \<lparr>cd_pos = Position 0 0, cd_score = 1\<rparr>, \<lparr>cd_pos = Position 1 0, cd_score = 2\<rparr> #}"
  using sort_descending_is_stable_sort [of "[\<lparr>cd_pos = Position 0 0, cd_score = 1\<rparr>, \<lparr>cd_pos = Position 1 0, cd_score = 2\<rparr>]"]
  by simp

end
