(* ===== verification/Elo.thy ===== *)
theory Elo
  imports Complex_Main "HOL-Library.Signed_Division"
begin

text \<open>
  The rating computation, \<open>internal/elo/elo.go\<close>. The floating-point formula is read over the reals:
  \<open>math.Pow\<close> is the real power and \<open>math.Round\<close> rounds half away from zero. The integer part, the
  average and the split of the gain, divides rounding towards zero as Go does.
\<close>

section \<open>Definitions\<close>

definition K :: int where "K = 32"

definition DefaultRating :: int where "DefaultRating = 1200"

datatype elo_outcome = Loss | Draw | Win

fun score :: "elo_outcome \<Rightarrow> real" where
  "score Win = 1"
| "score Draw = 1 / 2"
| "score Loss = 0"

definition expected :: "int \<Rightarrow> int \<Rightarrow> real" where
  "expected ratingA ratingB = 1 / (1 + 10 powr (real_of_int (ratingB - ratingA) / 400))"

definition go_round :: "real \<Rightarrow> int" where
  "go_round x = (if 0 \<le> x then \<lfloor>x + 1 / 2\<rfloor> else - \<lfloor>- x + 1 / 2\<rfloor>)"

definition update :: "int \<Rightarrow> int \<Rightarrow> elo_outcome \<Rightarrow> int" where
  "update rating opponent outcome =
     rating + go_round (real_of_int K * (score outcome - expected rating opponent))"

record multi_result =
  mres_user :: string
  mres_rating :: int
  mres_result :: char

text \<open>One round of the loop over the opponents; the first one takes the remainder.\<close>

definition loser_result :: "int \<Rightarrow> int \<Rightarrow> nat \<times> string \<times> int \<Rightarrow> multi_result" where
  "loser_result perLoss remainder = (\<lambda>(i, uid, r).
     let loss = (if i = 0 then perLoss + remainder else perLoss)
     in \<lparr>mres_user = uid, mres_rating = r - loss, mres_result = CHR ''L''\<rparr>)"

definition update_multi :: "string \<Rightarrow> int \<Rightarrow> string list \<Rightarrow> int list \<Rightarrow> multi_result list" where
  "update_multi winnerID winnerRating opponentIDs opponentRatings =
     (let n = length opponentIDs
      in if n = 0 \<or> n \<noteq> length opponentRatings then []
         else let avg = sum_list opponentRatings sdiv int n;
                  newWinner = update winnerRating avg Win;
                  gain = newWinner - winnerRating;
                  perLoss = gain sdiv int n;
                  remainder = gain - perLoss * int n
              in \<lparr>mres_user = winnerID, mres_rating = newWinner, mres_result = CHR ''W''\<rparr>
                 # map (loser_result perLoss remainder)
                     (zip [0..<n] (zip opponentIDs opponentRatings)))"

section \<open>Facts\<close>

lemma expected_bounds: "0 < expected a b" "expected a b < 1"
  by (simp_all add: expected_def field_simps add_pos_pos)

lemma expected_sum: "expected a b + expected b a = 1"
proof -
  have "real_of_int (a - b) / 400 + real_of_int (b - a) / 400 = 0" by (simp add: field_simps)
  then have "10 powr (real_of_int (a - b) / 400) * 10 powr (real_of_int (b - a) / 400) = 1"
    unfolding powr_add [symmetric] by simp
  moreover have "1 / (1 + y) + 1 / (1 + x) = 1" if "x * y = 1" "0 < x" "0 < y" for x y :: real
    using that by (simp add: field_simps)
  ultimately show ?thesis unfolding expected_def by simp
qed

lemma expected_mono: "a \<le> a' \<Longrightarrow> expected a b \<le> expected a' b"
  unfolding expected_def by (intro divide_left_mono add_left_mono powr_mono mult_pos_pos) (auto intro: add_pos_pos)

lemma go_round_minus: "go_round (- x) = - go_round x"
  by (auto simp: go_round_def)

lemma go_round_mono: "x \<le> y \<Longrightarrow> go_round x \<le> go_round y"
proof -
  assume "x \<le> y"
  consider "0 \<le> x" | "x < 0" "0 \<le> y" | "y < 0" by linarith
  then show ?thesis
  proof cases
    case 1
    then show ?thesis using \<open>x \<le> y\<close> by (simp add: go_round_def floor_mono)
  next
    case 2
    then have "0 \<le> \<lfloor>- x + 1 / 2\<rfloor>" "0 \<le> \<lfloor>y + 1 / 2\<rfloor>" by (simp_all add: zero_le_floor)
    then have "- \<lfloor>- x + 1 / 2\<rfloor> \<le> \<lfloor>y + 1 / 2\<rfloor>" by linarith
    then show ?thesis using 2 by (simp only: go_round_def if_P if_not_P not_le)
  next
    case 3
    then have "\<lfloor>- y + 1 / 2\<rfloor> \<le> \<lfloor>- x + 1 / 2\<rfloor>" using \<open>x \<le> y\<close> by (intro floor_mono) simp
    then show ?thesis using 3 \<open>x \<le> y\<close> by (simp add: go_round_def)
  qed
qed

lemma go_round_int: "go_round (real_of_int k) = k"
  by (auto simp: go_round_def)

lemma win_gain: "0 \<le> update r q Win - r \<and> update r q Win - r \<le> K"
proof -
  have "0 \<le> real_of_int K * (1 - expected r q)" "real_of_int K * (1 - expected r q) \<le> real_of_int K"
    using expected_bounds [of r q] by (simp_all add: K_def)
  from go_round_mono [OF this(1)] go_round_mono [OF this(2)] show ?thesis
    using go_round_int [of 0] go_round_int [of K] by (simp add: update_def)
qed

lemma update_opposite:
  assumes "score o' = 1 - score o''"
  shows "update q r o' - q = - (update r q o'' - r)"
proof -
  have "real_of_int K * (score o' - expected q r) = - (real_of_int K * (score o'' - expected r q))"
  proof -
    have "score o' - expected q r = - (score o'' - expected r q)" using expected_sum [of r q] assms by linarith
    then show ?thesis by (simp only: mult_minus_right)
  qed
  then have "go_round (real_of_int K * (score o' - expected q r))
      = - go_round (real_of_int K * (score o'' - expected r q))"
    by (simp only: go_round_minus)
  then show ?thesis by (simp add: update_def)
qed

lemma loss_gain: "update q r Loss - q = - (update r q Win - r)"
  by (rule update_opposite) simp

lemma draw_gain: "update q r Draw - q = - (update r q Draw - r)"
  by (rule update_opposite) simp

lemma losers:
  assumes "length ids = length rs"
  shows "sum_list (map mres_rating (map (loser_result a e) (zip [k..<k + length ids] (zip ids rs))))
      = sum_list rs - a * int (length ids) - (if k = 0 \<and> ids \<noteq> [] then e else 0)
    \<and> map mres_user (map (loser_result a e) (zip [k..<k + length ids] (zip ids rs))) = ids"
  using assms
proof (induction ids rs arbitrary: k rule: list_induct2)
  case (Cons x xs y ys)
  have "[k..<k + length (x # xs)] = k # [Suc k..<Suc k + length xs]" by (simp add: upt_rec)
  with Cons.IH [of "Suc k"] show ?case by (simp add: loser_result_def Let_def algebra_simps)
qed simp

section \<open>Properties\<close>

text \<open>A two-player rating update moves between 0 and \<open>K\<close> points from the loser to the winner, a draw
  moves the same amount with opposite signs, and a higher rated player never gains more for a win.\<close>

theorem update_is_zero_sum:
  "update r q Win + update q r Loss = r + q \<and> update r q Draw + update q r Draw = r + q
    \<and> 0 \<le> update r q Win - r \<and> update r q Win - r \<le> K
    \<and> (r \<le> r' \<longrightarrow> update r' q Win - r' \<le> update r q Win - r)"
proof -
  have "update r' q Win - r' \<le> update r q Win - r" if "r \<le> r'"
    using expected_mono [OF that, of q] by (simp add: update_def K_def) (intro go_round_mono, simp)
  then show ?thesis using loss_gain [of q r] draw_gain [of q r] win_gain [of r q] by auto
qed

theorem update_is_zero_sum_witness: "update 1300 1200 Win - 1300 \<le> update 1200 1200 Win - 1200"
  using update_is_zero_sum [of 1200 1200 1300] by simp

text \<open>In a game of more players the winner's gain against the average opponent is taken from the others
  to the last point, whatever the rounding: the ratings sum to what they were, and the winner and then
  every loser in order get a new rating.\<close>

theorem update_multi_is_zero_sum:
  assumes "ids \<noteq> []" "length ids = length rs"
  shows "sum_list (map mres_rating (update_multi w r ids rs)) = r + sum_list rs
    \<and> map mres_user (update_multi w r ids rs) = w # ids"
proof -
  define gain where "gain = update r (sum_list rs sdiv int (length ids)) Win - r"
  define per where "per = gain sdiv int (length ids)"
  have ne: "rs \<noteq> []" using assms by (metis length_0_conv)
  have "update_multi w r ids rs = \<lparr>mres_user = w, mres_rating = r + gain, mres_result = CHR ''W''\<rparr>
      # map (loser_result per (gain - per * int (length ids))) (zip [0..<length ids] (zip ids rs))"
    using assms ne by (simp add: update_multi_def Let_def gain_def per_def)
  then show ?thesis
    using losers [OF assms(2), of per "gain - per * int (length ids)" 0] assms(1) ne
    by (simp add: assms(2) del: map_map)
qed

theorem update_multi_is_zero_sum_witness:
  "sum_list (map mres_rating (update_multi ''a'' 1200 [''b'', ''c''] [1300, 1101])) = 3601"
  using update_multi_is_zero_sum [of "[''b'', ''c'']" "[1300, 1101]" "''a''" 1200] by simp

end
