(* ===== verification/Lease.thy ===== *)
theory Lease
  imports Prelude
begin

text \<open>
  Ownership of games and of roles, \<open>internal/lease\<close>. The tables \<open>game_leases\<close> and
  \<open>leader_leases\<close> are maps from their keys to rows; each SQL statement is one function on the
  table, run atomically as the database runs it. A call to the database can fail without
  effect (\<open>DbFailed\<close>) or, for the acquire query, return no row (\<open>DbNoRow\<close>).
\<close>

datatype db_event = DbFine | DbFailed | DbNoRow

section \<open>The contract of a claim\<close>

text \<open>
  What both tables promise when a row is claimed: the claimant owns the row until the deadline,
  the epoch starts at one and grows exactly when the owner changes, and a live row of another
  owner is not given away. The invariant relates the epochs that processes remember to the row.
\<close>

definition lease_inv :: "('r \<Rightarrow> string) \<Rightarrow> ('r \<Rightarrow> int) \<Rightarrow> (string \<Rightarrow> int option) \<Rightarrow> 'r option \<Rightarrow> bool" where
  "lease_inv owner epoch held row \<longleftrightarrow>
     (\<forall>w e. held w = Some e \<longrightarrow> (\<exists>r. row = Some r \<and> 1 \<le> e \<and> e \<le> epoch r \<and> (e = epoch r \<longrightarrow> owner r = w)))"

locale claimable =
  fixes claim :: "'r option \<Rightarrow> string \<Rightarrow> gtime \<Rightarrow> duration \<Rightarrow> 'r option"
    and owner :: "'r \<Rightarrow> string" and epoch :: "'r \<Rightarrow> int" and expires :: "'r \<Rightarrow> gtime"
  assumes claim_iff: "claim row w now ttl \<noteq> None \<longleftrightarrow>
      (case row of None \<Rightarrow> True | Some r \<Rightarrow> owner r = w \<or> expires r < now)"
    and claim_row: "claim row w now ttl = Some r' \<Longrightarrow> owner r' = w \<and> expires r' = now + ttl"
    and claim_new: "claim None w now ttl = Some r' \<Longrightarrow> epoch r' = 1"
    and claim_epoch: "claim (Some r) w now ttl = Some r'
      \<Longrightarrow> epoch r' = epoch r + (if owner r = w then 0 else 1)"
begin

lemma inv_claim:
  assumes "lease_inv owner epoch held row" "claim row w now ttl = Some r'"
    and pos: "\<And>r. row = Some r \<Longrightarrow> 1 \<le> epoch r"
  shows "lease_inv owner epoch (held(w \<mapsto> epoch r')) (Some r') \<and> 1 \<le> epoch r'"
proof (cases row)
  case None
  with assms claim_row claim_new show ?thesis by (auto simp: lease_inv_def split: if_splits)
next
  case (Some r)
  have e: "epoch r' = epoch r + (if owner r = w then 0 else 1)" and o: "owner r' = w"
    using claim_epoch claim_row assms(2) Some by blast+
  have p: "1 \<le> epoch r" using pos Some by simp
  have old: "1 \<le> e \<and> e \<le> epoch r \<and> (e = epoch r \<longrightarrow> owner r = w')" if "held w' = Some e" for w' e
    using assms(1) that Some by (auto simp: lease_inv_def)
  show ?thesis
  proof (cases "owner r = w")
    case True
    then show ?thesis using old e o p by (auto simp: lease_inv_def)
  next
    case False
    then have "e < epoch r'" if "held w' = Some e" for w' e using old [OF that] e by simp
    then show ?thesis using old e o p False by (fastforce simp: lease_inv_def)
  qed
qed

lemma live_blocks:
  assumes "owner r \<noteq> w" "now \<le> expires r"
  shows "claim (Some r) w now ttl = None"
  using claim_iff [of "Some r" w now ttl] assms by auto

lemma dead_claimable:
  assumes "expires r < now"
  shows "\<exists>r'. claim (Some r) w now ttl = Some r' \<and> owner r' = w \<and> expires r' = now + ttl"
  using claim_iff [of "Some r" w now ttl] claim_row assms by fastforce

lemma inv_unique:
  assumes "lease_inv owner epoch held row" "held w = Some e" "held w' = Some e"
    and "row = Some r" "epoch r = e"
  shows "w = w' \<and> owner r = w"
  using assms by (auto simp: lease_inv_def)

end

lemma lease_inv_mono: "lease_inv owner epoch held row \<Longrightarrow> held' \<subseteq>\<^sub>m held \<Longrightarrow> lease_inv owner epoch held' row"
  unfolding lease_inv_def map_le_def by (metis domI)

section \<open>Game leases\<close>

record lease_row =
  lr_owner :: string
  lr_addr :: string
  lr_epoch :: int
  lr_expires :: gtime

type_synonym lease_table = "string \<Rightarrow> lease_row option"

text \<open>The \<open>INSERT ... ON CONFLICT DO UPDATE ... WHERE\<close> of the acquire statement: the row it writes, if any.\<close>

definition claim_row :: "string \<Rightarrow> lease_row option \<Rightarrow> string \<Rightarrow> gtime \<Rightarrow> duration \<Rightarrow> lease_row option" where
  "claim_row addr row w now ttl =
     (case row of
        None \<Rightarrow> Some \<lparr>lr_owner = w, lr_addr = addr, lr_epoch = 1, lr_expires = now + ttl\<rparr>
      | Some l \<Rightarrow>
          if lr_owner l = w \<or> lr_expires l < now
          then Some \<lparr>lr_owner = w, lr_addr = addr,
                     lr_epoch = lr_epoch l + (if lr_owner l = w then 0 else 1), lr_expires = now + ttl\<rparr>
          else None)"

lemma lease_inv_expires [simp]:
  "lease_inv lr_owner lr_epoch held (Some (l\<lparr>lr_expires := x\<rparr>)) = lease_inv lr_owner lr_epoch held (Some l)"
  by (simp add: lease_inv_def)

interpretation game_lease: claimable "claim_row addr" lr_owner lr_epoch lr_expires for addr
  by unfold_locales (auto simp: claim_row_def split: option.splits if_splits)

record grant =
  gr_epoch :: int
  gr_acquired :: bool
  gr_owner :: string
  gr_addr :: string

definition no_grant :: grant where
  "no_grant = \<lparr>gr_epoch = 0, gr_acquired = False, gr_owner = '''', gr_addr = ''''\<rparr>"

definition granted :: "int \<Rightarrow> grant" where
  "granted e = no_grant\<lparr>gr_epoch := e, gr_acquired := True\<rparr>"

lemma granted_sel [simp]: "gr_epoch (granted e) = e" "gr_acquired (granted e)" "\<not> gr_acquired no_grant"
  by (simp_all add: granted_def no_grant_def)

text \<open>The whole statement: the new table and the one row it selects.\<close>

definition acquire_sql :: "lease_table \<Rightarrow> string \<Rightarrow> string \<Rightarrow> string \<Rightarrow> duration \<Rightarrow> gtime \<Rightarrow> lease_table \<times> grant" where
  "acquire_sql t gid w addr ttl now =
     (case claim_row addr (t gid) w now ttl of
        Some l \<Rightarrow> (t(gid \<mapsto> l), granted (lr_epoch l))
      | None \<Rightarrow> (case t gid of
            Some l \<Rightarrow> (t, \<lparr>gr_epoch = lr_epoch l, gr_acquired = False, gr_owner = lr_owner l, gr_addr = lr_addr l\<rparr>)
          | None \<Rightarrow> (t, no_grant)))"

section \<open>The manager\<close>

record manager =
  mg_owner :: string
  mg_addr :: string
  mg_ttl :: duration
  mg_held :: "string \<Rightarrow> int option"

definition DefaultTTL :: duration where "DefaultTTL = 15 * 1000000000"

definition new_manager :: "string \<Rightarrow> manager" where
  "new_manager w = \<lparr>mg_owner = w, mg_addr = '''', mg_ttl = DefaultTTL, mg_held = Map.empty\<rparr>"

definition with_ttl :: "manager \<Rightarrow> duration \<Rightarrow> manager" where
  "with_ttl m d = m\<lparr>mg_ttl := d\<rparr>"

definition with_addr :: "manager \<Rightarrow> string \<Rightarrow> manager" where
  "with_addr m addr = m\<lparr>mg_addr := addr\<rparr>"

definition held :: "manager \<Rightarrow> string \<Rightarrow> int option" where
  "held m gid = mg_held m gid"

definition resolver_owner :: "lease_table \<Rightarrow> gtime \<Rightarrow> string \<Rightarrow> string \<times> string" where
  "resolver_owner t now gid =
     (case t gid of
        Some l \<Rightarrow> if now \<le> lr_expires l then (lr_owner l, lr_addr l) else ('''', '''')
      | None \<Rightarrow> ('''', ''''))"

text \<open>\<open>Acquire\<close> returns \<open>None\<close> for an error.\<close>

definition acquire :: "db_event \<Rightarrow> gtime \<Rightarrow> lease_table \<Rightarrow> manager \<Rightarrow> string \<Rightarrow> lease_table \<times> manager \<times> grant option" where
  "acquire ev now t m gid =
     (case ev of
        DbFailed \<Rightarrow> (t, m, None)
      | DbNoRow \<Rightarrow> (t, m, Some no_grant)
      | DbFine \<Rightarrow>
          (case acquire_sql t gid (mg_owner m) (mg_addr m) (mg_ttl m) now of
             (t', g) \<Rightarrow>
               (t', if gr_acquired g then m\<lparr>mg_held := (mg_held m)(gid \<mapsto> gr_epoch g)\<rparr> else m, Some g)))"

definition try_acquire :: "db_event \<Rightarrow> gtime \<Rightarrow> lease_table \<Rightarrow> manager \<Rightarrow> string
    \<Rightarrow> lease_table \<times> manager \<times> (int \<times> bool) option" where
  "try_acquire ev now t m gid =
     (case acquire ev now t m gid of (t', m', g) \<Rightarrow> (t', m', map_option (\<lambda>g. (gr_epoch g, gr_acquired g)) g))"

definition ensure_held :: "db_event \<Rightarrow> gtime \<Rightarrow> lease_table \<Rightarrow> manager \<Rightarrow> string \<Rightarrow> lease_table \<times> manager" where
  "ensure_held ev now t m gid =
     (case held m gid of
        Some _ \<Rightarrow> (t, m)
      | None \<Rightarrow> (case acquire ev now t m gid of (t', m', _) \<Rightarrow> (t', m')))"

definition release :: "db_event \<Rightarrow> lease_table \<Rightarrow> manager \<Rightarrow> string \<Rightarrow> lease_table \<times> manager" where
  "release ev t m gid =
     ((if ev = DbFailed then t
       else case t gid of
          Some l \<Rightarrow> if lr_owner l = mg_owner m then t(gid := None) else t
        | None \<Rightarrow> t),
      m\<lparr>mg_held := (mg_held m)(gid := None)\<rparr>)"

text \<open>\<open>renew\<close> extends every row of this owner, then forgets the held games that were not among them; it
  returns those, for which the callback runs.\<close>

definition renew_rows :: "gtime \<Rightarrow> lease_table \<Rightarrow> string \<Rightarrow> duration \<Rightarrow> lease_table" where
  "renew_rows now t w ttl =
     (\<lambda>gid. case t gid of
        Some l \<Rightarrow> Some (if lr_owner l = w then l\<lparr>lr_expires := now + ttl\<rparr> else l)
      | None \<Rightarrow> None)"

definition owned :: "lease_table \<Rightarrow> string \<Rightarrow> string \<Rightarrow> bool" where
  "owned t w gid = (case t gid of Some l \<Rightarrow> lr_owner l = w | None \<Rightarrow> False)"

definition renew :: "db_event \<Rightarrow> gtime \<Rightarrow> lease_table \<Rightarrow> manager \<Rightarrow> lease_table \<times> manager \<times> string set" where
  "renew ev now t m =
     (if ev = DbFailed then (t, m, {})
      else let w = mg_owner m
           in (renew_rows now t w (mg_ttl m),
               m\<lparr>mg_held := (\<lambda>gid. if owned t w gid then mg_held m gid else None)\<rparr>,
               {gid. mg_held m gid \<noteq> None \<and> \<not> owned t w gid}))"

definition close_manager :: "db_event \<Rightarrow> lease_table \<Rightarrow> manager \<Rightarrow> lease_table \<times> manager" where
  "close_manager ev t m =
     (if ev = DbFailed then (t, m)
      else ((\<lambda>gid. if owned t (mg_owner m) gid then None else t gid), m\<lparr>mg_held := Map.empty\<rparr>))"

text \<open>The fence of the repository's conditional writes, and the epoch a pod writes with.\<close>

definition fence_passes :: "lease_table \<Rightarrow> string \<Rightarrow> int \<Rightarrow> bool" where
  "fence_passes t gid e \<longleftrightarrow> e = 0 \<or> (case t gid of Some l \<Rightarrow> lr_epoch l = e | None \<Rightarrow> False)"

section \<open>A cluster of managers\<close>

record cluster =
  cl_now :: gtime
  cl_table :: lease_table
  cl_pods :: "string \<Rightarrow> manager"

definition held_by :: "cluster \<Rightarrow> string \<Rightarrow> string \<Rightarrow> int option" where
  "held_by c gid = (\<lambda>w. mg_held (cl_pods c w) gid)"

definition cluster_start :: "cluster \<Rightarrow> bool" where
  "cluster_start c \<longleftrightarrow> cl_table c = Map.empty
     \<and> (\<forall>w. mg_owner (cl_pods c w) = w \<and> mg_held (cl_pods c w) = Map.empty)"

text \<open>Steps that delete no row: time passes, pods acquire and renew, with or without database failures.\<close>

inductive claim_step :: "cluster \<Rightarrow> cluster \<Rightarrow> bool" where
  step_time: "cl_now c \<le> t \<Longrightarrow> claim_step c (c\<lparr>cl_now := t\<rparr>)"
| step_acquire: "acquire ev (cl_now c) (cl_table c) (cl_pods c w) gid = (t, m, g)
    \<Longrightarrow> claim_step c (c\<lparr>cl_table := t, cl_pods := (cl_pods c)(w := m)\<rparr>)"
| step_renew: "renew ev (cl_now c) (cl_table c) (cl_pods c w) = (t, m, lost)
    \<Longrightarrow> claim_step c (c\<lparr>cl_table := t, cl_pods := (cl_pods c)(w := m)\<rparr>)"

inductive_cases claim_stepE: "claim_step c c'"

text \<open>All steps: a pod also releases a game and closes.\<close>

inductive lease_step :: "cluster \<Rightarrow> cluster \<Rightarrow> bool" where
  step_claim: "claim_step c c' \<Longrightarrow> lease_step c c'"
| step_release: "release ev (cl_table c) (cl_pods c w) gid = (t, m)
    \<Longrightarrow> lease_step c (c\<lparr>cl_table := t, cl_pods := (cl_pods c)(w := m)\<rparr>)"
| step_close: "close_manager ev (cl_table c) (cl_pods c w) = (t, m)
    \<Longrightarrow> lease_step c (c\<lparr>cl_table := t, cl_pods := (cl_pods c)(w := m)\<rparr>)"

inductive_cases lease_stepE: "lease_step c c'"

definition cluster_inv :: "cluster \<Rightarrow> bool" where
  "cluster_inv c \<longleftrightarrow> (\<forall>w. mg_owner (cl_pods c w) = w)
     \<and> (\<forall>gid. lease_inv lr_owner lr_epoch (held_by c gid) (cl_table c gid)
          \<and> (\<forall>r. cl_table c gid = Some r \<longrightarrow> 1 \<le> lr_epoch r))"

lemma acquire_owner: "acquire ev now t m gid = (t', m', g) \<Longrightarrow> mg_owner m' = mg_owner m"
  by (auto simp: acquire_def split: db_event.splits prod.splits if_splits)

lemma acquire_effect:
  assumes "acquire ev now t m gid = (t', m', g)"
  shows "(t' = t \<and> m' = m)
    \<or> (\<exists>l. claim_row (mg_addr m) (t gid) (mg_owner m) now (mg_ttl m) = Some l
         \<and> t' = t(gid \<mapsto> l) \<and> m' = m\<lparr>mg_held := (mg_held m)(gid \<mapsto> lr_epoch l)\<rparr>)"
  using assms
  by (auto simp: acquire_def acquire_sql_def no_grant_def split: db_event.splits option.splits)

lemma cluster_inv_acquire:
  assumes c: "cluster_inv c" and a: "acquire ev (cl_now c) (cl_table c) (cl_pods c w) gid = (t, m, g)"
  shows "cluster_inv (c\<lparr>cl_table := t, cl_pods := (cl_pods c)(w := m)\<rparr>)"
  using acquire_effect [OF a]
proof (elim disjE exE conjE)
  assume "t = cl_table c" "m = cl_pods c w"
  then show ?thesis using c by (simp add: cluster_inv_def held_by_def)
next
  fix l
  let ?w = "mg_owner (cl_pods c w)"
  assume l: "claim_row (mg_addr (cl_pods c w)) (cl_table c gid) ?w (cl_now c) (mg_ttl (cl_pods c w)) = Some l"
    and t: "t = (cl_table c)(gid \<mapsto> l)" and m: "m = (cl_pods c w)\<lparr>mg_held := (mg_held (cl_pods c w))(gid \<mapsto> lr_epoch l)\<rparr>"
  have w: "?w = w" using c by (simp add: cluster_inv_def)
  let ?c = "c\<lparr>cl_table := t, cl_pods := (cl_pods c)(w := m)\<rparr>"
  have "lease_inv lr_owner lr_epoch ((held_by c gid)(w \<mapsto> lr_epoch l)) (Some l) \<and> 1 \<le> lr_epoch l"
  proof -
    have "lease_inv lr_owner lr_epoch (held_by c gid) (cl_table c gid)"
      and "\<And>r. cl_table c gid = Some r \<Longrightarrow> 1 \<le> lr_epoch r"
      using c by (auto simp: cluster_inv_def)
    from game_lease.inv_claim [OF this(1) l this(2)] show ?thesis unfolding w .
  qed
  moreover have "held_by ?c gid = (held_by c gid)(w \<mapsto> lr_epoch l)"
    by (auto simp: held_by_def m)
  moreover have "held_by ?c gid' = held_by c gid'" if "gid' \<noteq> gid" for gid'
    using that by (auto simp: held_by_def m)
  ultimately show ?thesis
    using c w by (auto simp: cluster_inv_def t) (auto simp: m)
qed

lemma cluster_inv_renew:
  assumes c: "cluster_inv c" and a: "renew ev (cl_now c) (cl_table c) (cl_pods c w) = (t, m, lost)"
  shows "cluster_inv (c\<lparr>cl_table := t, cl_pods := (cl_pods c)(w := m)\<rparr>)"
proof (cases "ev = DbFailed")
  case True
  then have "c\<lparr>cl_table := t, cl_pods := (cl_pods c)(w := m)\<rparr> = c" using a by (cases c) (auto simp: renew_def)
  then show ?thesis using c by simp
next
  case False
  let ?c = "c\<lparr>cl_table := t, cl_pods := (cl_pods c)(w := m)\<rparr>"
  have w: "mg_owner (cl_pods c w) = w" using c by (simp add: cluster_inv_def)
  have t: "t = renew_rows (cl_now c) (cl_table c) w (mg_ttl (cl_pods c w))"
    and m: "m = (cl_pods c w)\<lparr>mg_held := (\<lambda>gid. if owned (cl_table c) w gid then mg_held (cl_pods c w) gid else None)\<rparr>"
    using a False w by (auto simp: renew_def Let_def)
  have "lease_inv lr_owner lr_epoch (held_by ?c gid) (t gid) \<and> (\<forall>r. t gid = Some r \<longrightarrow> 1 \<le> lr_epoch r)" for gid
  proof -
    have inv: "lease_inv lr_owner lr_epoch (held_by c gid) (cl_table c gid)"
      and pos: "\<And>r. cl_table c gid = Some r \<Longrightarrow> 1 \<le> lr_epoch r"
      using c by (auto simp: cluster_inv_def)
    have "held_by ?c gid \<subseteq>\<^sub>m held_by c gid" by (auto simp: held_by_def map_le_def m dom_def)
    from lease_inv_mono [OF inv this] show ?thesis
      using pos by (cases "cl_table c gid") (auto simp: t renew_rows_def)
  qed
  then show ?thesis using c by (simp add: cluster_inv_def m)
qed

interpretation lease_claims: machine cluster_start claim_step cluster_inv
proof unfold_locales
  show "cluster_inv c" if "cluster_start c" for c
    using that by (simp add: cluster_start_def cluster_inv_def lease_inv_def held_by_def)
  show "cluster_inv c'" if "cluster_inv c" "claim_step c c'" for c c'
    using that(2,1) by (cases rule: claim_stepE)
      (auto intro: cluster_inv_acquire cluster_inv_renew, simp add: cluster_inv_def held_by_def)
qed

section \<open>Properties\<close>

text \<open>C2: As long as no lease row is deleted, fencing excludes: in every state the cluster reaches by time
  passing, acquisitions and renewals, with or without database failures, at most one pod
  remembers an epoch for a game that the fence accepts, and it is the row's owner. A pod that lost
  the game can keep believing it holds it, but its writes are refused.\<close>

theorem fencing_excludes_others:
  assumes "reach cluster_start claim_step c"
    and "held_by c gid w = Some e" "fence_passes (cl_table c) gid e"
    and "held_by c gid w' = Some e'" "fence_passes (cl_table c) gid e'"
  shows "w = w' \<and> owned (cl_table c) w gid"
proof -
  have inv: "lease_inv lr_owner lr_epoch (held_by c gid) (cl_table c gid)"
    using lease_claims.inv_reach [OF assms(1)] by (simp add: cluster_inv_def)
  have pass: "\<exists>r. cl_table c gid = Some r \<and> lr_epoch r = x" if "held_by c gid v = Some x" "fence_passes (cl_table c) gid x" for v x
  proof -
    have "1 \<le> x" using inv that(1) unfolding lease_inv_def by blast
    then show ?thesis using that(2) by (cases "cl_table c gid") (simp_all add: fence_passes_def)
  qed
  obtain r where r: "cl_table c gid = Some r" "lr_epoch r = e" "e' = e"
    using pass [OF assms(2,3)] pass [OF assms(4,5)] by fastforce
  from game_lease.inv_unique [OF inv assms(2) _ r(1,2)] assms(4) r(1,3) show ?thesis
    by (simp add: owned_def)
qed

definition empty_cluster :: cluster where
  "empty_cluster = \<lparr>cl_now = 0, cl_table = Map.empty, cl_pods = new_manager\<rparr>"

text \<open>A pod acquires a game.\<close>

definition after_acquire :: "cluster \<Rightarrow> string \<Rightarrow> string \<Rightarrow> cluster" where
  "after_acquire c w gid =
     (case acquire DbFine (cl_now c) (cl_table c) (cl_pods c w) gid of
        (t, m, _) \<Rightarrow> c\<lparr>cl_table := t, cl_pods := (cl_pods c)(w := m)\<rparr>)"

definition after_release :: "cluster \<Rightarrow> string \<Rightarrow> string \<Rightarrow> cluster" where
  "after_release c w gid =
     (case release DbFine (cl_table c) (cl_pods c w) gid of
        (t, m) \<Rightarrow> c\<lparr>cl_table := t, cl_pods := (cl_pods c)(w := m)\<rparr>)"

lemma after_acquire_step: "claim_step c (after_acquire c w gid)"
  unfolding after_acquire_def by (cases "acquire DbFine (cl_now c) (cl_table c) (cl_pods c w) gid")
    (auto intro: step_acquire)

lemma after_release_step: "lease_step c (after_release c w gid)"
  unfolding after_release_def by (cases "release DbFine (cl_table c) (cl_pods c w) gid")
    (auto intro: step_release)

lemma empty_cluster_start: "cluster_start empty_cluster"
  by (simp add: cluster_start_def empty_cluster_def new_manager_def)

theorem fencing_excludes_others_witness:
  "owned (cl_table (after_acquire empty_cluster ''p'' ''g'')) ''p'' ''g''"
proof -
  have "reach cluster_start claim_step (after_acquire empty_cluster ''p'' ''g'')"
    by (rule reach_step, rule reach_start, rule empty_cluster_start, rule after_acquire_step)
  moreover have "held_by (after_acquire empty_cluster ''p'' ''g'') ''g'' ''p'' = Some 1"
    "fence_passes (cl_table (after_acquire empty_cluster ''p'' ''g'')) ''g'' 1"
    by (simp_all add: after_acquire_def empty_cluster_def acquire_def acquire_sql_def claim_row_def
        new_manager_def held_by_def fence_passes_def)
  ultimately show ?thesis using fencing_excludes_others by blast
qed

text \<open>C40: With releases fencing no longer excludes: releasing deletes the row, so the next acquisition starts
  again at epoch one, and a pod that acquired the game first, lost it and never noticed passes the
  fence together with the present owner.\<close>

theorem release_breaks_fencing:
  "\<exists>c. reach cluster_start lease_step c \<and> owned (cl_table c) ''b'' ''g''
     \<and> held_by c ''g'' ''a'' = Some 1 \<and> fence_passes (cl_table c) ''g'' 1
     \<and> held_by c ''g'' ''b'' = Some 1"
proof -
  define c1 where "c1 = after_acquire empty_cluster ''a'' ''g''"
  define c2 where "c2 = c1\<lparr>cl_now := 20000000000\<rparr>"
  define c3 where "c3 = after_acquire c2 ''b'' ''g''"
  define c4 where "c4 = after_release c3 ''b'' ''g''"
  define c5 where "c5 = after_acquire c4 ''b'' ''g''"
  note evals = after_acquire_def after_release_def acquire_def acquire_sql_def claim_row_def release_def
  have 1: "cl_now c1 = 0" "cl_table c1 = [''g'' \<mapsto> \<lparr>lr_owner = ''a'', lr_addr = '''', lr_epoch = 1, lr_expires = 15000000000\<rparr>]"
    "mg_held (cl_pods c1 ''a'') ''g'' = Some 1" "cl_pods c1 ''b'' = new_manager ''b''"
    unfolding c1_def evals by (simp_all add: empty_cluster_def new_manager_def DefaultTTL_def)
  have 2: "cl_now c2 = 20000000000" "cl_table c2 = cl_table c1" "cl_pods c2 = cl_pods c1" by (simp_all add: c2_def)
  have 3: "cl_table c3 = [''g'' \<mapsto> \<lparr>lr_owner = ''b'', lr_addr = '''', lr_epoch = 2, lr_expires = 35000000000\<rparr>]"
    "cl_pods c3 ''a'' = cl_pods c1 ''a''" "mg_owner (cl_pods c3 ''b'') = ''b''"
    unfolding c3_def evals 2 1 by (simp_all add: new_manager_def DefaultTTL_def)
  have 4: "cl_table c4 ''g'' = None" "cl_pods c4 ''a'' = cl_pods c1 ''a''" "mg_owner (cl_pods c4 ''b'') = ''b''"
    unfolding c4_def evals 3 by (simp_all add: 3)
  have 5: "\<exists>l. cl_table c5 ''g'' = Some l \<and> lr_owner l = ''b'' \<and> lr_epoch l = 1"
    "cl_pods c5 ''a'' = cl_pods c1 ''a''" "mg_held (cl_pods c5 ''b'') ''g'' = Some 1"
    unfolding c5_def evals by (simp_all add: 4)
  have "reach cluster_start lease_step c1" unfolding c1_def
    by (rule reach_step, rule reach_start, rule empty_cluster_start, rule step_claim, rule after_acquire_step)
  then have "reach cluster_start lease_step c2" unfolding c2_def
    by (rule reach_step) (rule step_claim, rule step_time, simp add: 1)
  then have "reach cluster_start lease_step c3" unfolding c3_def
    by (rule reach_step) (rule step_claim, rule after_acquire_step)
  then have "reach cluster_start lease_step c4" unfolding c4_def
    by (rule reach_step) (rule after_release_step)
  then have "reach cluster_start lease_step c5" unfolding c5_def
    by (rule reach_step) (rule step_claim, rule after_acquire_step)
  moreover have "owned (cl_table c5) ''b'' ''g'' \<and> held_by c5 ''g'' ''a'' = Some 1
      \<and> fence_passes (cl_table c5) ''g'' 1 \<and> held_by c5 ''g'' ''b'' = Some 1"
    using 5 1(3) by (auto simp: owned_def fence_passes_def held_by_def)
  ultimately show ?thesis by blast
qed

text \<open>A granted lease is exclusive until its deadline and available after it: while it is live no other pod's
  acquisition succeeds or changes the table, and it reports the owner and address that the resolver also
  reports; once the deadline has passed any pod's acquisition succeeds, under a larger epoch.\<close>

theorem lease_is_exclusive_while_live:
  assumes row: "t gid = Some l" and other: "mg_owner m \<noteq> lr_owner l"
  shows "(now \<le> lr_expires l \<longrightarrow>
      acquire DbFine now t m gid
        = (t, m, Some \<lparr>gr_epoch = lr_epoch l, gr_acquired = False, gr_owner = lr_owner l, gr_addr = lr_addr l\<rparr>)
      \<and> resolver_owner t now gid = (lr_owner l, lr_addr l))
    \<and> (lr_expires l < now \<longrightarrow>
      (\<exists>t' m'. acquire DbFine now t m gid
          = (t', m', Some (granted (lr_epoch l + 1)))
        \<and> held m' gid = Some (lr_epoch l + 1) \<and> resolver_owner t' (now + mg_ttl m) gid = (mg_owner m, mg_addr m))
      \<and> resolver_owner t now gid = ('''', ''''))"
  using other row game_lease.live_blocks [OF other [symmetric], of now "mg_addr m" "mg_ttl m"]
  by (simp add: acquire_def acquire_sql_def resolver_owner_def claim_row_def held_def)

theorem lease_is_exclusive_while_live_witness:
  "acquire DbFine 5 [''g'' \<mapsto> \<lparr>lr_owner = ''a'', lr_addr = ''x'', lr_epoch = 3, lr_expires = 9\<rparr>] (new_manager ''b'') ''g''
    = ([''g'' \<mapsto> \<lparr>lr_owner = ''a'', lr_addr = ''x'', lr_epoch = 3, lr_expires = 9\<rparr>], new_manager ''b'',
       Some \<lparr>gr_epoch = 3, gr_acquired = False, gr_owner = ''a'', gr_addr = ''x''\<rparr>)"
  using lease_is_exclusive_while_live
    [of "[''g'' \<mapsto> \<lparr>lr_owner = ''a'', lr_addr = ''x'', lr_epoch = 3, lr_expires = 9\<rparr>]" "''g''"
      "\<lparr>lr_owner = ''a'', lr_addr = ''x'', lr_epoch = 3, lr_expires = 9\<rparr>" "new_manager ''b''" 5]
  by (simp add: new_manager_def)

text \<open>After a successful heartbeat a pod holds exactly the games it held before whose row is its own, all of them live
  until a full term from now; every other one is reported lost, once. A failed heartbeat loses
  nothing.\<close>

theorem renew_keeps_owned:
  assumes "renew ev now t m = (t', m', lost)" "ev \<noteq> DbFailed" "0 \<le> mg_ttl m"
  shows "held m' gid = (if owned t (mg_owner m) gid then held m gid else None)
    \<and> (gid \<in> lost \<longleftrightarrow> held m gid \<noteq> None \<and> held m' gid = None)
    \<and> (held m' gid \<noteq> None \<longrightarrow> fst (resolver_owner t' (now + mg_ttl m) gid) = mg_owner m)
    \<and> (renew ev now t' m' = (t', m', {}))
    \<and> renew DbFailed now t m = (t, m, {})"
proof -
  have m': "mg_owner m' = mg_owner m" "mg_ttl m' = mg_ttl m"
    and h: "mg_held m' = (\<lambda>gid. if owned t (mg_owner m) gid then mg_held m gid else None)"
    and t': "t' = renew_rows now t (mg_owner m) (mg_ttl m)"
    and l: "lost = {gid. mg_held m gid \<noteq> None \<and> \<not> owned t (mg_owner m) gid}"
    using assms by (auto simp: renew_def Let_def)
  have own: "owned t' (mg_owner m) g = owned t (mg_owner m) g" for g
    by (auto simp: t' owned_def renew_rows_def split: option.splits)
  have "renew_rows now t' (mg_owner m) (mg_ttl m) g = t' g" for g
    by (auto simp: t' renew_rows_def split: option.splits)
  then have "renew_rows now t' (mg_owner m) (mg_ttl m) = t'" by blast
  moreover have "(\<lambda>gid. if owned t' (mg_owner m) gid then mg_held m' gid else None) = mg_held m'"
    by (auto simp: own h)
  moreover have "{gid. mg_held m' gid \<noteq> None \<and> \<not> owned t' (mg_owner m) gid} = {}"
    by (auto simp: own h)
  ultimately have "renew ev now t' m' = (t', m', {})"
    unfolding renew_def Let_def m' using assms(2) by simp
  moreover have "fst (resolver_owner t' (now + mg_ttl m) gid) = mg_owner m" if "owned t (mg_owner m) gid"
    using that by (auto simp: t' renew_rows_def resolver_owner_def owned_def split: option.splits)
  ultimately show ?thesis by (auto simp: held_def h l renew_def)
qed

theorem renew_keeps_owned_witness:
  "held (fst (snd (renew DbFine 7 Map.empty (with_ttl (new_manager ''a'') 4)))) ''g'' = None"
proof -
  obtain t' m' lost where r: "renew DbFine 7 Map.empty (with_ttl (new_manager ''a'') 4) = (t', m', lost)"
    by (cases "renew DbFine 7 Map.empty (with_ttl (new_manager ''a'') 4)") auto
  from renew_keeps_owned [OF r, of "''g''"] have "held m' ''g'' = None"
    by (simp add: new_manager_def with_ttl_def owned_def)
  then show ?thesis unfolding r by simp
qed

end
