(* ===== verification/Elector.thy ===== *)
theory Elector
  imports Lease
begin

text \<open>
  Leader election, \<open>internal/lease/elector.go\<close>, over the table \<open>leader_leases\<close>; one row, the row of the
  elected role, is enough. The callback \<open>onElected\<close> runs once per term and its context is
  cancelled at the end of it.
\<close>

section \<open>Definitions\<close>

record leader_row =
  ld_owner :: string
  ld_epoch :: int
  ld_expires :: gtime

definition campaign_sql :: "leader_row option \<Rightarrow> string \<Rightarrow> gtime \<Rightarrow> duration \<Rightarrow> leader_row option" where
  "campaign_sql row w now ttl =
     (case row of
        None \<Rightarrow> Some \<lparr>ld_owner = w, ld_epoch = 1, ld_expires = now + ttl\<rparr>
      | Some l \<Rightarrow>
          if ld_owner l = w \<or> ld_expires l < now
          then Some \<lparr>ld_owner = w, ld_epoch = ld_epoch l + (if ld_owner l = w then 0 else 1), ld_expires = now + ttl\<rparr>
          else None)"

interpretation leader_lease: claimable campaign_sql ld_owner ld_epoch ld_expires
  by unfold_locales (auto simp: campaign_sql_def split: option.splits if_splits)

text \<open>\<open>el_leading\<close> says whether \<open>leadCancel\<close> is set; \<open>el_starts\<close> and \<open>el_cancels\<close> count the calls of the
  callback and of the cancel functions.\<close>

record elector =
  el_owner :: string
  el_ttl :: duration
  el_epoch :: int
  el_leading :: bool
  el_starts :: nat
  el_cancels :: nat

definition new_elector :: "string \<Rightarrow> elector" where
  "new_elector w = \<lparr>el_owner = w, el_ttl = DefaultTTL, el_epoch = 0, el_leading = False, el_starts = 0, el_cancels = 0\<rparr>"

definition is_leader :: "elector \<Rightarrow> bool" where
  "is_leader e = el_leading e"

definition become_leader :: "elector \<Rightarrow> int \<Rightarrow> elector" where
  "become_leader e ep =
     (if el_leading e then e\<lparr>el_epoch := ep\<rparr>
      else e\<lparr>el_leading := True, el_epoch := ep, el_starts := el_starts e + 1\<rparr>)"

definition step_down :: "elector \<Rightarrow> elector" where
  "step_down e = (if el_leading e then e\<lparr>el_leading := False, el_cancels := el_cancels e + 1\<rparr> else e)"

definition campaign :: "db_event \<Rightarrow> gtime \<Rightarrow> leader_row option \<Rightarrow> elector \<Rightarrow> leader_row option \<times> elector" where
  "campaign ev now row e =
     (if ev = DbFailed then (row, e)
      else case campaign_sql row (el_owner e) now (el_ttl e) of
             Some l \<Rightarrow> (Some l, become_leader e (ld_epoch l))
           | None \<Rightarrow> (row, step_down e))"

definition close_elector :: "db_event \<Rightarrow> leader_row option \<Rightarrow> elector \<Rightarrow> leader_row option \<times> elector" where
  "close_elector ev row e =
     ((if ev = DbFailed then row
       else case row of Some l \<Rightarrow> if ld_owner l = el_owner e then None else row | None \<Rightarrow> None),
      step_down e)"

section \<open>A cluster of electors\<close>

record election =
  en_now :: gtime
  en_row :: "leader_row option"
  en_pods :: "string \<Rightarrow> elector"

definition election_start :: "election \<Rightarrow> bool" where
  "election_start c \<longleftrightarrow> en_row c = None \<and> en_pods c = new_elector"

inductive election_step :: "election \<Rightarrow> election \<Rightarrow> bool" where
  elect_time: "en_now c \<le> t \<Longrightarrow> election_step c (c\<lparr>en_now := t\<rparr>)"
| elect_campaign: "campaign ev (en_now c) (en_row c) (en_pods c w) = (row, e)
    \<Longrightarrow> election_step c (c\<lparr>en_row := row, en_pods := (en_pods c)(w := e)\<rparr>)"
| elect_close: "close_elector ev (en_row c) (en_pods c w) = (row, e)
    \<Longrightarrow> election_step c (c\<lparr>en_row := row, en_pods := (en_pods c)(w := e)\<rparr>)"

inductive_cases election_stepE: "election_step c c'"

text \<open>The callback and its cancellation alternate.\<close>

definition balanced :: "elector \<Rightarrow> bool" where
  "balanced e \<longleftrightarrow> el_starts e = el_cancels e + (if el_leading e then 1 else 0)"

definition election_inv :: "election \<Rightarrow> bool" where
  "election_inv c \<longleftrightarrow> (\<forall>w. el_owner (en_pods c w) = w \<and> balanced (en_pods c w))"

lemma campaign_pods:
  assumes "campaign ev now row e = (row', e')"
  shows "el_owner e' = el_owner e"
    and "balanced e \<Longrightarrow> balanced e'"
  using assms by (auto simp: balanced_def campaign_def become_leader_def step_down_def split: if_splits option.splits)

lemma close_pods:
  assumes "close_elector ev row e = (row', e')"
  shows "el_owner e' = el_owner e"
    and "balanced e \<Longrightarrow> balanced e'"
  using assms by (auto simp: balanced_def close_elector_def step_down_def split: if_splits option.splits)

interpretation election: machine election_start election_step election_inv
proof unfold_locales
  show "election_inv c" if "election_start c" for c
    using that by (simp add: election_start_def election_inv_def new_elector_def balanced_def)
  show "election_inv c'" if "election_inv c" "election_step c c'" for c c'
    using that(2,1)
    by (cases rule: election_stepE) (auto simp: election_inv_def campaign_pods close_pods)
qed

section \<open>Properties\<close>

text \<open>Every term of leadership is one call of the callback and, when it ends, one cancellation: the calls
  and cancellations of a pod never differ by more than the term it is in. A heartbeat of a sitting
  leader starts nothing.\<close>

theorem leader_terms_are_balanced:
  assumes "reach election_start election_step c"
  shows "el_starts (en_pods c w) = el_cancels (en_pods c w) + (if is_leader (en_pods c w) then 1 else 0)"
  using election.inv_reach [OF assms] by (simp add: election_inv_def is_leader_def balanced_def)

theorem leader_terms_are_balanced_witness:
  "el_starts (snd (campaign DbFine 0 None (new_elector ''a''))) = 1"
proof -
  let ?c = "\<lparr>en_now = 0, en_row = None, en_pods = new_elector\<rparr>"
  obtain row e where ce: "campaign DbFine 0 None (new_elector ''a'') = (row, e)"
    by (cases "campaign DbFine 0 None (new_elector ''a'')")
  have "election_step ?c (?c\<lparr>en_row := row, en_pods := (en_pods ?c)(''a'' := e)\<rparr>)"
    by (rule elect_campaign [where ev = DbFine]) (simp add: ce)
  then have "reach election_start election_step (?c\<lparr>en_row := row, en_pods := (en_pods ?c)(''a'' := e)\<rparr>)"
    by (rule reach_step [rotated]) (rule reach_start, simp add: election_start_def)
  from leader_terms_are_balanced [OF this, of "''a''"]
  show ?thesis using ce by (auto simp: is_leader_def campaign_def campaign_sql_def become_leader_def new_elector_def)
qed

text \<open>A campaign decides by the row alone: it wins exactly when there is no row, the pod's own row, or one past its deadline, and
  then leads under the row's epoch until a full term from now; otherwise it leaves the row and steps down.
  So right after its campaign a pod leads if and only if it owns the row. Only a failed query changes nothing, and
  a leader that cannot reach the database keeps leading.\<close>

theorem campaign_decides_by_row:
  assumes "campaign ev now row e = (row', e')"
  shows "(ev \<noteq> DbFailed \<longrightarrow>
      (is_leader e' \<longleftrightarrow> (case row of None \<Rightarrow> True | Some l \<Rightarrow> ld_owner l = el_owner e \<or> ld_expires l < now))
      \<and> (is_leader e' \<longrightarrow> row' = Some \<lparr>ld_owner = el_owner e, ld_epoch = el_epoch e', ld_expires = now + el_ttl e\<rparr>)
      \<and> (\<not> is_leader e' \<longrightarrow> row' = row))
    \<and> (ev = DbFailed \<longrightarrow> row' = row \<and> e' = e)"
  using assms leader_lease.claim_iff [of row "el_owner e" now "el_ttl e"]
  by (auto simp: campaign_def campaign_sql_def is_leader_def become_leader_def step_down_def
      split: if_splits option.splits)

theorem campaign_decides_by_row_witness:
  "\<not> is_leader (snd (campaign DbFine 3 (Some \<lparr>ld_owner = ''b'', ld_epoch = 2, ld_expires = 9\<rparr>) (new_elector ''a'')))"
proof -
  obtain row e where ce: "campaign DbFine 3 (Some \<lparr>ld_owner = ''b'', ld_epoch = 2, ld_expires = 9\<rparr>) (new_elector ''a'') = (row, e)"
    by (cases "campaign DbFine 3 (Some \<lparr>ld_owner = ''b'', ld_epoch = 2, ld_expires = 9\<rparr>) (new_elector ''a'')")
  from campaign_decides_by_row [OF ce] have "\<not> is_leader e" by (simp add: new_elector_def)
  then show ?thesis unfolding ce by simp
qed

end
