(* ===== verification/Timers.thy ===== *)
theory Timers
  imports Prelude
begin

text \<open>
  The clock and presence timers, \<open>internal/server/clock.go\<close> and \<open>presence.go\<close>. A scheduled timer is
  a goroutine that waits for its deadline or its cancellation; the manager maps each key to the
  cancel function of the newest one. A cancelled goroutine whose deadline has passed may still
  run its callback, since \<open>select\<close> chooses freely between two ready cases, and a clock
  scheduled with nothing left runs it without looking at the context at all. This is why the
  handlers check the game again.
\<close>

section \<open>Definitions\<close>

record 'k pending =
  pt_id :: nat
  pt_key :: 'k
  pt_at :: gtime
  pt_now :: bool

text \<open>\<open>tm_cancels\<close> is the map of the source, \<open>tm_done\<close> the cancelled contexts, \<open>tm_pending\<close> the goroutines.\<close>

record 'k timers =
  tm_cancels :: "'k \<Rightarrow> nat option"
  tm_done :: "nat set"
  tm_pending :: "'k pending list"
  tm_next :: nat

definition new_timers :: "'k timers" where
  "new_timers = \<lparr>tm_cancels = Map.empty, tm_done = {}, tm_pending = [], tm_next = 0\<rparr>"

definition timer_cancel :: "'k \<Rightarrow> 'k timers \<Rightarrow> 'k timers" where
  "timer_cancel k tm =
     (case tm_cancels tm k of
        Some i \<Rightarrow> tm\<lparr>tm_cancels := (tm_cancels tm)(k := None), tm_done := insert i (tm_done tm)\<rparr>
      | None \<Rightarrow> tm)"

definition timer_cancel_where :: "('k \<Rightarrow> bool) \<Rightarrow> 'k timers \<Rightarrow> 'k timers" where
  "timer_cancel_where P tm =
     tm\<lparr>tm_cancels := (\<lambda>k. if P k then None else tm_cancels tm k),
        tm_done := tm_done tm \<union> {i. \<exists>k. P k \<and> tm_cancels tm k = Some i}\<rparr>"

definition timer_start :: "bool \<Rightarrow> 'k \<Rightarrow> gtime \<Rightarrow> 'k timers \<Rightarrow> 'k timers" where
  "timer_start now_flag k at tm =
     (let tm1 = timer_cancel k tm; i = tm_next tm
      in tm1\<lparr>tm_cancels := (tm_cancels tm1)(k \<mapsto> i),
             tm_pending := tm_pending tm1 @ [\<lparr>pt_id = i, pt_key = k, pt_at = at, pt_now = now_flag\<rparr>],
             tm_next := i + 1\<rparr>)"

subsection \<open>The clock manager: one timer per game\<close>

definition clock_schedule :: "string \<Rightarrow> duration \<Rightarrow> gtime \<Rightarrow> string timers \<Rightarrow> string timers" where
  "clock_schedule gid remaining now tm = timer_start (remaining \<le> 0) gid (now + remaining) tm"

definition clock_cancel :: "string \<Rightarrow> string timers \<Rightarrow> string timers" where
  "clock_cancel gid tm = timer_cancel gid tm"

definition clock_cancel_all :: "string timers \<Rightarrow> string timers" where
  "clock_cancel_all tm = timer_cancel_where (\<lambda>_. True) tm"

subsection \<open>The presence manager: one timer per seat\<close>

definition DisconnectGracePeriod :: duration where "DisconnectGracePeriod = 60 * 1000000000"

definition presence_schedule :: "string \<Rightarrow> int \<Rightarrow> duration \<Rightarrow> gtime \<Rightarrow> (string \<times> int) timers \<Rightarrow> (string \<times> int) timers" where
  "presence_schedule gid seat grace now tm = timer_start False (gid, seat) (now + grace) tm"

definition presence_cancel :: "string \<Rightarrow> int \<Rightarrow> (string \<times> int) timers \<Rightarrow> (string \<times> int) timers" where
  "presence_cancel gid seat tm = timer_cancel (gid, seat) tm"

definition presence_cancel_game :: "string \<Rightarrow> (string \<times> int) timers \<Rightarrow> (string \<times> int) timers" where
  "presence_cancel_game gid tm = timer_cancel_where (\<lambda>k. fst k = gid) tm"

definition presence_cancel_all :: "(string \<times> int) timers \<Rightarrow> (string \<times> int) timers" where
  "presence_cancel_all tm = timer_cancel_where (\<lambda>_. True) tm"

section \<open>Runs\<close>

text \<open>A goroutine runs its callback once its deadline has passed, or gives up once cancelled.\<close>

inductive timer_step :: "'k timers \<Rightarrow> 'k timers \<Rightarrow> bool" where
  timer_schedules: "timer_step tm (timer_start f k at tm)"
| timer_cancels: "timer_step tm (timer_cancel k tm)"
| timer_cancels_many: "timer_step tm (timer_cancel_where P tm)"
| timer_fires: "p \<in> set (tm_pending tm) \<Longrightarrow> pt_now p \<or> pt_at p \<le> now
    \<Longrightarrow> timer_step tm (tm\<lparr>tm_pending := remove1 p (tm_pending tm)\<rparr>)"
| timer_gives_up: "p \<in> set (tm_pending tm) \<Longrightarrow> pt_id p \<in> tm_done tm
    \<Longrightarrow> timer_step tm (tm\<lparr>tm_pending := remove1 p (tm_pending tm)\<rparr>)"

inductive_cases timer_stepE: "timer_step tm tm'"

definition live_timers :: "'k timers \<Rightarrow> 'k \<Rightarrow> 'k pending set" where
  "live_timers tm k = {p \<in> set (tm_pending tm). pt_key p = k \<and> pt_id p \<notin> tm_done tm}"

definition timers_inv :: "'k timers \<Rightarrow> bool" where
  "timers_inv tm \<longleftrightarrow> distinct (map pt_id (tm_pending tm))
     \<and> (\<forall>p \<in> set (tm_pending tm). pt_id p < tm_next tm)
     \<and> (\<forall>p \<in> set (tm_pending tm). pt_id p \<in> tm_done tm \<or> tm_cancels tm (pt_key p) = Some (pt_id p))
     \<and> (\<forall>i \<in> tm_done tm. i < tm_next tm)
     \<and> (\<forall>k i. tm_cancels tm k = Some i \<longrightarrow> i < tm_next tm \<and> i \<notin> tm_done tm)
     \<and> (\<forall>k k' i. tm_cancels tm k = Some i \<and> tm_cancels tm k' = Some i \<longrightarrow> k = k')"

lemma timers_inv_new: "timers_inv new_timers"
  by (simp add: timers_inv_def new_timers_def)

lemma timers_inv_cancel:
  assumes "timers_inv tm" shows "timers_inv (timer_cancel k tm)"
proof (cases "tm_cancels tm k")
  case None
  with assms show ?thesis by (simp add: timer_cancel_def)
next
  case (Some i)
  have "k' = k" if "tm_cancels tm k' = Some i" for k'
    using assms Some that unfolding timers_inv_def by blast
  moreover have "i < tm_next tm" using assms Some unfolding timers_inv_def by blast
  ultimately show ?thesis
    using assms Some by (simp add: timer_cancel_def timers_inv_def) (metis option.inject)
qed

lemma timers_inv_cancel_where:
  assumes "timers_inv tm" shows "timers_inv (timer_cancel_where P tm)"
proof -
  have uniq: "k = k'" if "tm_cancels tm k = Some i" "tm_cancels tm k' = Some i" for k k' i
    using assms that unfolding timers_inv_def by blast
  have cur: "i < tm_next tm \<and> i \<notin> tm_done tm" if "tm_cancels tm k = Some i" for k i
    using assms that unfolding timers_inv_def by blast
  have pend: "pt_id p \<in> tm_done tm \<or> tm_cancels tm (pt_key p) = Some (pt_id p)" if "p \<in> set (tm_pending tm)" for p
    using assms that unfolding timers_inv_def by blast
  show ?thesis
    unfolding timers_inv_def timer_cancel_where_def timers.simps
    using assms uniq cur
    by (intro conjI) (use pend in blast | auto simp: timers_inv_def)+
qed

lemma timer_cancel_frame [frame_simps]:
  "tm_pending (timer_cancel k tm) = tm_pending tm" "tm_next (timer_cancel k tm) = tm_next tm"
  "tm_cancels (timer_cancel k tm) = (tm_cancels tm)(k := None)"
  by (auto simp: timer_cancel_def split: option.splits)

lemma timers_inv_add:
  assumes inv: "timers_inv tm" and k: "tm_cancels tm k = None"
  shows "timers_inv (tm\<lparr>tm_cancels := (tm_cancels tm)(k \<mapsto> tm_next tm),
    tm_pending := tm_pending tm @ [\<lparr>pt_id = tm_next tm, pt_key = k, pt_at = at, pt_now = f\<rparr>], tm_next := tm_next tm + 1\<rparr>)"
proof -
  have new: "tm_next tm \<notin> pt_id ` set (tm_pending tm)" "tm_next tm \<notin> tm_done tm" "tm_cancels tm k' \<noteq> Some (tm_next tm)" for k'
    using inv unfolding timers_inv_def by fastforce+
  have key: "pt_id p \<in> tm_done tm \<or> pt_key p \<noteq> k \<and> tm_cancels tm (pt_key p) = Some (pt_id p)" if "p \<in> set (tm_pending tm)" for p
    using inv that k unfolding timers_inv_def by fastforce
  show ?thesis using inv new key unfolding timers_inv_def by (auto simp: less_Suc_eq)
qed

lemma timers_inv_start:
  assumes "timers_inv tm" shows "timers_inv (timer_start f k at tm)"
proof -
  have "tm_cancels (timer_cancel k tm) k = None" by (simp add: frame_simps)
  from timers_inv_add [OF timers_inv_cancel [OF assms] this, of at f] show ?thesis
    by (simp add: timer_start_def Let_def timer_cancel_frame)
qed

lemma timers_inv_remove:
  assumes "timers_inv tm" shows "timers_inv (tm\<lparr>tm_pending := remove1 p (tm_pending tm)\<rparr>)"
proof -
  have "distinct (map f (remove1 p xs))" if "distinct (map f xs)" for f :: "'a pending \<Rightarrow> nat" and xs
    using that set_remove1_subset [of p] by (induction xs) fastforce+
  then show ?thesis using assms unfolding timers_inv_def by (auto dest: notin_set_remove1)
qed

interpretation timers: machine "\<lambda>tm :: 'k timers. tm = new_timers" timer_step timers_inv
proof unfold_locales
  show "timers_inv tm" if "tm = new_timers" for tm :: "'k timers"
    using that timers_inv_new by simp
  show "timers_inv tm'" if "timers_inv tm" "timer_step tm tm'" for tm tm' :: "'k timers"
    using that(2,1) by (cases rule: timer_stepE)
      (auto intro: timers_inv_start timers_inv_cancel timers_inv_cancel_where timers_inv_remove)
qed

text \<open>At any time at most one timer per key is armed and not cancelled, and it is the one the manager can
  cancel: after a cancellation none is left, and after scheduling exactly the new one, with
  its own deadline.\<close>

theorem one_live_timer_per_key:
  assumes "reach (\<lambda>tm. tm = new_timers) timer_step tm"
  shows "(p \<in> live_timers tm k \<and> p' \<in> live_timers tm k \<longrightarrow> p = p')
    \<and> live_timers (timer_cancel k tm) k = {}
    \<and> live_timers (timer_start f k at tm) k = {\<lparr>pt_id = tm_next tm, pt_key = k, pt_at = at, pt_now = f\<rparr>}"
proof -
  have inv: "timers_inv tm" by (rule timers.inv_reach [OF assms])
  have "inj_on pt_id (set (tm_pending tm))" using inv by (auto simp: timers_inv_def distinct_map)
  moreover have "tm_cancels tm k = Some (pt_id q)" if "q \<in> live_timers tm k" for q
    using that inv unfolding timers_inv_def live_timers_def by blast
  ultimately have "p \<in> live_timers tm k \<and> p' \<in> live_timers tm k \<longrightarrow> p = p'"
    by (auto simp: live_timers_def inj_on_def) (metis option.inject)
  moreover have cancel: "live_timers (timer_cancel k tm) k = {}"
    using timers_inv_cancel [OF inv, of k] unfolding timers_inv_def live_timers_def
    by (auto simp: frame_simps)
  moreover have "tm_next tm \<notin> tm_done (timer_cancel k tm)"
    using timers_inv_cancel [OF inv, of k] unfolding timers_inv_def by (auto simp: frame_simps)
  then have "live_timers (timer_start f k at tm) k = {\<lparr>pt_id = tm_next tm, pt_key = k, pt_at = at, pt_now = f\<rparr>}"
    using cancel by (auto simp: live_timers_def timer_start_def Let_def frame_simps)
  ultimately show ?thesis by blast
qed

theorem one_live_timer_per_key_witness:
  "live_timers (clock_schedule ''g'' 5 10 new_timers) ''g''
     = {\<lparr>pt_id = 0, pt_key = ''g'', pt_at = 15, pt_now = False\<rparr>}"
proof -
  have "reach (\<lambda>tm. tm = new_timers) timer_step (new_timers :: string timers)" by (rule reach_start) simp
  from one_live_timer_per_key [OF this, of _ "''g''" _ False 15] show ?thesis
    by (simp add: clock_schedule_def new_timers_def)
qed

end
