(* ===== verification/Timers_Props.thy ===== *)
theory Timers_Props
  imports Timers
begin

text \<open>
  The timer managers refine an alarm clock with one alarm per key.
\<close>

section \<open>An alarm clock\<close>

text \<open>
  What a timer manager promises: an alarm per key. Scheduling sets it, cancelling clears it, and a goroutine
  that ends clears the alarm it was started for unless that was replaced in the meantime.
\<close>

definition alarms :: "'k timers \<Rightarrow> 'k \<Rightarrow> gtime option" where
  "alarms tm k =
     (case tm_cancels tm k of
        None \<Rightarrow> None
      | Some i \<Rightarrow> map_option pt_at (find (\<lambda>p. pt_id p = i) (tm_pending tm)))"

inductive alarm_step :: "('k \<Rightarrow> gtime option) \<Rightarrow> ('k \<Rightarrow> gtime option) \<Rightarrow> bool" where
  alarm_set: "alarm_step al (al(k \<mapsto> at))"
| alarm_clear: "alarm_step al (\<lambda>k. if P k then None else al k)"

lemma find_id:
  assumes "timers_inv tm" "p \<in> set (tm_pending tm)"
  shows "find (\<lambda>q. pt_id q = pt_id p) (tm_pending tm) = Some p"
proof -
  obtain q where q: "find (\<lambda>q. pt_id q = pt_id p) (tm_pending tm) = Some q"
    using assms(2) by (cases "find (\<lambda>q. pt_id q = pt_id p) (tm_pending tm)") (auto simp: find_None_iff)
  then have "q \<in> set (tm_pending tm)" "pt_id q = pt_id p" by (auto simp: find_Some_iff)
  moreover have "inj_on pt_id (set (tm_pending tm))" using assms(1) by (simp add: timers_inv_def distinct_map)
  ultimately show ?thesis using q assms(2) by (auto dest: inj_onD)
qed

lemma alarms_iff:
  assumes "timers_inv tm"
  shows "alarms tm k = Some at \<longleftrightarrow> (\<exists>p \<in> set (tm_pending tm). tm_cancels tm k = Some (pt_id p) \<and> pt_at p = at)"
  using find_id [OF assms] by (force simp: alarms_def find_Some_iff split: option.splits)

lemma alarms_live:
  assumes "timers_inv tm" "p \<in> set (tm_pending tm)"
  shows "tm_cancels tm (pt_key p) = Some (pt_id p) \<longleftrightarrow> pt_id p \<notin> tm_done tm"
  using assms unfolding timers_inv_def by blast

lemma alarms_start:
  assumes "timers_inv tm"
  shows "alarms (timer_start f k at tm) = (alarms tm)(k \<mapsto> at)"
proof
  fix k'
  have new: "\<forall>p \<in> set (tm_pending tm). pt_id p \<noteq> tm_next tm" using assms by (auto simp: timers_inv_def)
  then have "find (\<lambda>p. pt_id p = tm_next tm) (tm_pending tm) = None" by (simp add: find_None_iff)
  moreover have "i \<noteq> tm_next tm" if "tm_cancels tm k' = Some i" for i
    using that assms by (auto simp: timers_inv_def)
  ultimately show "alarms (timer_start f k at tm) k' = ((alarms tm)(k \<mapsto> at)) k'"
    by (auto simp: alarms_def timer_start_def Let_def frame_simps find_append split: option.split)
qed

lemma alarms_cancel: "alarms (timer_cancel k tm) = (alarms tm)(k := None)"
  by (rule ext) (auto simp: alarms_def frame_simps split: option.split)

lemma alarms_cancel_where: "alarms (timer_cancel_where P tm) = (\<lambda>k. if P k then None else alarms tm k)"
  by (rule ext) (auto simp: alarms_def timer_cancel_where_def split: option.split)

lemma alarms_remove:
  assumes "timers_inv tm" "p \<in> set (tm_pending tm)"
  shows "alarms (tm\<lparr>tm_pending := remove1 p (tm_pending tm)\<rparr>)
    = (\<lambda>k. if k = pt_key p \<and> pt_id p \<notin> tm_done tm then None else alarms tm k)"
proof
  fix k
  let ?tm = "tm\<lparr>tm_pending := remove1 p (tm_pending tm)\<rparr>"
  have inv: "timers_inv ?tm" by (rule timers_inv_remove [OF assms(1)])
  have d: "distinct (map pt_id (tm_pending tm))" using assms(1) by (simp add: timers_inv_def)
  then have set: "set (remove1 p (tm_pending tm)) = set (tm_pending tm) - {p}" by (simp add: distinct_map set_remove1_eq)
  have id: "q = p" if "q \<in> set (tm_pending tm)" "pt_id q = pt_id p" for q
    using d that assms(2) by (auto simp: distinct_map dest: inj_onD)
  have key: "k = pt_key p" if "tm_cancels tm k = Some (pt_id p)"
    using assms that unfolding timers_inv_def by (metis option.inject)
  have cut: "alarms ?tm k = Some at \<longleftrightarrow> (\<exists>q \<in> set (tm_pending tm) - {p}. tm_cancels tm k = Some (pt_id q) \<and> pt_at q = at)" for at
    using alarms_iff [OF inv, of k at] by (simp add: set)
  show "alarms ?tm k = (if k = pt_key p \<and> pt_id p \<notin> tm_done tm then None else alarms tm k)"
  proof (cases "tm_cancels tm k = Some (pt_id p)")
    case True
    then have "alarms ?tm k \<noteq> Some at" for at using cut id by fastforce
    then have "alarms ?tm k = None" by (cases "alarms ?tm k") auto
    then show ?thesis using True key alarms_live [OF assms] by auto
  next
    case False
    then have "alarms ?tm k = Some at \<longleftrightarrow> alarms tm k = Some at" for at
      unfolding cut alarms_iff [OF assms(1)] by blast
    then have "alarms ?tm k = alarms tm k" by (metis option.exhaust)
    then show ?thesis using False alarms_live [OF assms] by auto
  qed
qed

text \<open>C24: The timer managers are alarm clocks: in every reachable state, scheduling sets the alarm of its key and replaces the one
  before, cancelling clears those asked for, a goroutine that fires or gives up clears its alarm only if it was
  not replaced, so each step of a manager is a step of the alarm clock or changes no alarm.\<close>

theorem timers_refine_alarms:
  assumes "reach (\<lambda>tm. tm = new_timers) timer_step tm"
  shows "alarms (timer_start f k at tm) = (alarms tm)(k \<mapsto> at)
    \<and> alarms (timer_cancel k tm) = (alarms tm)(k := None)
    \<and> alarms (timer_cancel_where P tm) = (\<lambda>k. if P k then None else alarms tm k)
    \<and> (p \<in> set (tm_pending tm) \<longrightarrow>
         alarms (tm\<lparr>tm_pending := remove1 p (tm_pending tm)\<rparr>)
           = (if pt_id p \<in> tm_done tm then alarms tm else (alarms tm)(pt_key p := None)))
    \<and> (timer_step tm tm' \<longrightarrow> alarm_step (alarms tm) (alarms tm'))"
proof -
  have inv: "timers_inv tm" by (rule timers.inv_reach [OF assms])
  have remove: "alarm_step (alarms tm) (alarms (tm\<lparr>tm_pending := remove1 q (tm_pending tm)\<rparr>))" if "q \<in> set (tm_pending tm)" for q
    unfolding alarms_remove [OF inv that] by (rule alarm_clear)
  have "alarm_step (alarms tm) (alarms (timer_cancel q tm))" for q
    using alarm_clear [of "alarms tm" "\<lambda>k. k = q"] by (simp add: alarms_cancel fun_upd_def)
  then have "alarm_step (alarms tm) (alarms tm')" if "timer_step tm tm'"
    using that by (cases rule: timer_stepE) (auto simp: alarms_start [OF inv] alarms_cancel_where intro: alarm_step.intros remove)
  then show ?thesis
    using alarms_start [OF inv] alarms_cancel alarms_cancel_where alarms_remove [OF inv]
    by (auto simp: fun_upd_def)
qed

theorem timers_refine_alarms_witness:
  "alarms (clock_schedule ''g'' 7 11 (clock_schedule ''g'' 5 10 new_timers)) = [''g'' \<mapsto> 18]"
proof -
  have "reach (\<lambda>tm. tm = new_timers) timer_step (clock_schedule ''g'' 5 10 new_timers)"
    unfolding clock_schedule_def by (rule reach_step, rule reach_start, rule refl, rule timer_schedules)
  moreover have "reach (\<lambda>tm. tm = new_timers) timer_step (new_timers :: string timers)" by (rule reach_start) simp
  moreover have "alarms new_timers = (Map.empty :: string \<Rightarrow> gtime option)" by (rule ext) (simp add: alarms_def new_timers_def)
  ultimately show ?thesis
    using timers_refine_alarms [of "clock_schedule ''g'' 5 10 new_timers" False "''g''" 18]
      timers_refine_alarms [of new_timers False "''g''" 15] by (simp add: clock_schedule_def)
qed

end
