(* ===== verification/Fanout.thy ===== *)
theory Fanout
  imports Prelude
begin

text \<open>
  Fan-out to clients: the hub of local subscribers (\<open>internal/server/hub.go\<close>) and the interest counts
  of the Redis bus (\<open>internal/bus/redis.go\<close>). The hub calls the bus when a key gets its first
  and loses its last subscriber. The Redis client is not modelled beyond the set of channels
  the process is subscribed to; a subscribe call may fail and is then only logged.
\<close>

section \<open>The bus's interest counts\<close>

record bus =
  bs_refs :: "string \<Rightarrow> int option"
  bs_started :: bool
  bs_channels :: "string set"

definition lobbyChannel :: string where "lobbyChannel = ''lobby''"
definition matchmakeChannel :: string where "matchmakeChannel = ''matchmake''"
definition gameChannelPfx :: string where "gameChannelPfx = ''game:''"

definition game_channel :: "string \<Rightarrow> string" where
  "game_channel gid = gameChannelPfx @ gid"

definition new_bus :: bus where
  "new_bus = \<lparr>bs_refs = Map.empty, bs_started = False, bs_channels = {}\<rparr>"

text \<open>\<open>ok\<close> says whether the client call succeeds.\<close>

definition watch_game :: "bool \<Rightarrow> bus \<Rightarrow> string \<Rightarrow> bus" where
  "watch_game ok b gid =
     (let n = (case bs_refs b gid of Some n \<Rightarrow> n | None \<Rightarrow> 0) + 1;
          b1 = b\<lparr>bs_refs := (bs_refs b)(gid \<mapsto> n)\<rparr>
      in if n = 1 \<and> bs_started b \<and> ok
         then b1\<lparr>bs_channels := insert (game_channel gid) (bs_channels b)\<rparr> else b1)"

definition unwatch_game :: "bool \<Rightarrow> bus \<Rightarrow> string \<Rightarrow> bus" where
  "unwatch_game ok b gid =
     (case bs_refs b gid of
        None \<Rightarrow> b
      | Some n0 \<Rightarrow>
          let n = n0 - 1; last = (n \<le> 0);
              b1 = b\<lparr>bs_refs := (if last then (bs_refs b)(gid := None) else (bs_refs b)(gid \<mapsto> n))\<rparr>
          in if last \<and> bs_started b \<and> ok
             then b1\<lparr>bs_channels := bs_channels b - {game_channel gid}\<rparr> else b1)"

definition bus_start :: "bus \<Rightarrow> bus" where
  "bus_start b =
     b\<lparr>bs_started := True,
       bs_channels := {lobbyChannel, matchmakeChannel} \<union> game_channel ` dom (bs_refs b)\<rparr>"

datatype dispatched = ToLobby | ToMatchmake | ToGame | ToNobody

definition dispatch :: "string \<Rightarrow> dispatched" where
  "dispatch channel =
     (if channel = lobbyChannel then ToLobby
      else if channel = matchmakeChannel then ToMatchmake
      else if take (length gameChannelPfx) channel = gameChannelPfx then ToGame
      else ToNobody)"

lemma game_channel_inj: "game_channel x = game_channel y \<longleftrightarrow> x = y"
  by (simp add: game_channel_def)

lemma dispatch_game [simp]: "dispatch (game_channel gid) = ToGame"
  by (simp add: dispatch_def game_channel_def gameChannelPfx_def lobbyChannel_def matchmakeChannel_def)

section \<open>The hub\<close>

text \<open>A subscriber is named by a number and has a buffer of sixteen messages.\<close>

record hub =
  hb_subs :: "string \<Rightarrow> nat set"
  hb_buffer :: "nat \<Rightarrow> string list"
  hb_closed :: "nat set"
  hb_next :: nat

definition subBuffer :: nat where "subBuffer = 16"

definition new_hub :: hub where
  "new_hub = \<lparr>hb_subs = (\<lambda>_. {}), hb_buffer = (\<lambda>_. []), hb_closed = {}, hb_next = 0\<rparr>"

definition has_subs :: "hub \<Rightarrow> string \<Rightarrow> bool" where
  "has_subs h key = (hb_subs h key \<noteq> {})"

text \<open>Beside the new hub the operations say which interest hook runs.\<close>

datatype hook = NoHook | OnFirst string | OnLast string

definition subscribe :: "hub \<Rightarrow> string \<Rightarrow> hub \<times> nat \<times> hook" where
  "subscribe h key =
     (let sub = hb_next h; set' = insert sub (hb_subs h key)
      in (h\<lparr>hb_subs := (hb_subs h)(key := set'), hb_next := sub + 1\<rparr>, sub,
          if card set' = 1 then OnFirst key else NoHook))"

definition unsubscribe :: "hub \<Rightarrow> string \<Rightarrow> nat \<Rightarrow> hub \<times> hook" where
  "unsubscribe h key sub =
     (let set' = hb_subs h key - {sub}
      in (h\<lparr>hb_subs := (hb_subs h)(key := set'), hb_closed := insert sub (hb_closed h)\<rparr>,
          if hb_subs h key \<noteq> {} \<and> set' = {} then OnLast key else NoHook))"

text \<open>Each subscriber gets the message unless its buffer is full; the writer never blocks.\<close>

definition deliver :: "hub \<Rightarrow> string \<Rightarrow> string \<Rightarrow> hub" where
  "deliver h key msg =
     h\<lparr>hb_buffer := (\<lambda>sub. if sub \<in> hb_subs h key \<and> length (hb_buffer h sub) < subBuffer
                           then hb_buffer h sub @ [msg] else hb_buffer h sub)\<rparr>"

definition receive :: "hub \<Rightarrow> nat \<Rightarrow> hub" where
  "receive h sub = h\<lparr>hb_buffer := (hb_buffer h)(sub := tl (hb_buffer h sub))\<rparr>"

section \<open>Hub and bus together\<close>

text \<open>
  The server wires the hooks to \<open>WatchGame\<close> and \<open>UnwatchGame\<close>; the store adds one watch per cached
  game, \<open>fo_cached\<close>.
\<close>

record fanout =
  fo_hub :: hub
  fo_bus :: bus
  fo_cached :: "string set"

definition run_hook :: "bool \<Rightarrow> hook \<Rightarrow> bus \<Rightarrow> bus" where
  "run_hook ok hk b = (case hk of NoHook \<Rightarrow> b | OnFirst k \<Rightarrow> watch_game ok b k | OnLast k \<Rightarrow> unwatch_game ok b k)"

inductive fanout_step :: "fanout \<Rightarrow> fanout \<Rightarrow> bool" where
  fo_subscribe: "subscribe (fo_hub f) key = (h, sub, hk)
    \<Longrightarrow> fanout_step f (f\<lparr>fo_hub := h, fo_bus := run_hook ok hk (fo_bus f)\<rparr>)"
| fo_unsubscribe: "sub \<in> hb_subs (fo_hub f) key \<Longrightarrow> unsubscribe (fo_hub f) key sub = (h, hk)
    \<Longrightarrow> fanout_step f (f\<lparr>fo_hub := h, fo_bus := run_hook ok hk (fo_bus f)\<rparr>)"
| fo_deliver: "fanout_step f (f\<lparr>fo_hub := deliver (fo_hub f) key msg\<rparr>)"
| fo_receive: "fanout_step f (f\<lparr>fo_hub := receive (fo_hub f) sub\<rparr>)"
| fo_cache: "gid \<notin> fo_cached f
    \<Longrightarrow> fanout_step f (f\<lparr>fo_cached := insert gid (fo_cached f), fo_bus := watch_game ok (fo_bus f) gid\<rparr>)"
| fo_evict: "gid \<in> fo_cached f
    \<Longrightarrow> fanout_step f (f\<lparr>fo_cached := fo_cached f - {gid}, fo_bus := unwatch_game ok (fo_bus f) gid\<rparr>)"
| fo_start: "fanout_step f (f\<lparr>fo_bus := bus_start (fo_bus f)\<rparr>)"

inductive_cases fanout_stepE: "fanout_step f f'"

definition fanout_start :: "fanout \<Rightarrow> bool" where
  "fanout_start f \<longleftrightarrow> f = \<lparr>fo_hub = new_hub, fo_bus = new_bus, fo_cached = {}\<rparr>"

text \<open>How much interest a process has in a game: one for its local subscribers, one for its cache.\<close>

definition interest :: "fanout \<Rightarrow> string \<Rightarrow> int" where
  "interest f gid = (if has_subs (fo_hub f) gid then 1 else 0) + (if gid \<in> fo_cached f then 1 else 0)"

definition refs_of :: "bus \<Rightarrow> string \<Rightarrow> int" where
  "refs_of b gid = (case bs_refs b gid of Some n \<Rightarrow> n | None \<Rightarrow> 0)"

definition fanout_inv :: "fanout \<Rightarrow> bool" where
  "fanout_inv f \<longleftrightarrow> (\<forall>gid. refs_of (fo_bus f) gid = interest f gid)
     \<and> (\<forall>gid n. bs_refs (fo_bus f) gid = Some n \<longrightarrow> 0 < n)
     \<and> (\<forall>key. finite (hb_subs (fo_hub f) key) \<and> (\<forall>s \<in> hb_subs (fo_hub f) key. s < hb_next (fo_hub f)))
     \<and> (\<forall>s. length (hb_buffer (fo_hub f) s) \<le> subBuffer)"

lemma refs_watch:
  "refs_of (watch_game ok b gid) g = refs_of b g + (if g = gid then 1 else 0)"
  by (simp add: watch_game_def refs_of_def Let_def)

lemma refs_unwatch:
  assumes "\<And>n. bs_refs b gid = Some n \<Longrightarrow> 0 < n"
  shows "refs_of (unwatch_game ok b gid) g = refs_of b g - (if g = gid \<and> 0 < refs_of b gid then 1 else 0)"
  using assms by (auto simp: unwatch_game_def refs_of_def Let_def split: option.splits)

lemma pos_watch:
  "(\<And>g n. bs_refs b g = Some n \<Longrightarrow> 0 < n) \<Longrightarrow> bs_refs (watch_game ok b gid) g = Some n \<Longrightarrow> 0 < n"
  by (fastforce simp: watch_game_def Let_def split: option.splits if_splits)

lemma pos_unwatch:
  "(\<And>g n. bs_refs b g = Some n \<Longrightarrow> 0 < n) \<Longrightarrow> bs_refs (unwatch_game ok b gid) g = Some n \<Longrightarrow> 0 < n"
  by (fastforce simp: unwatch_game_def Let_def split: option.splits if_splits)

lemma refs_start [simp]: "refs_of (bus_start b) g = refs_of b g" "bs_refs (bus_start b) = bs_refs b"
  by (simp_all add: refs_of_def bus_start_def)

text \<open>Subscribing and unsubscribing run the hook exactly when the key gains or loses its only subscriber.\<close>

lemma subscribe_interest:
  assumes "subscribe h key = (h', sub, hk)" "finite (hb_subs h key)" "\<And>s. s \<in> hb_subs h key \<Longrightarrow> s < hb_next h"
  shows "hk = (if has_subs h key then NoHook else OnFirst key)"
    and "has_subs h' g = (has_subs h g \<or> g = key)"
    and "hb_subs h' g = (if g = key then insert sub (hb_subs h g) else hb_subs h g)"
    and "hb_next h' = Suc sub" "sub = hb_next h" "hb_buffer h' = hb_buffer h"
proof -
  have "hb_next h \<notin> hb_subs h key" using assms(3) by blast
  then have "card (insert (hb_next h) (hb_subs h key)) = Suc (card (hb_subs h key))"
    using assms(2) by simp
  then show "hk = (if has_subs h key then NoHook else OnFirst key)"
    using assms(1,2) by (auto simp: subscribe_def Let_def has_subs_def split: if_splits)
qed (use assms(1) in \<open>auto simp: subscribe_def Let_def has_subs_def split: if_splits\<close>)

lemma unsubscribe_interest:
  assumes "unsubscribe h key sub = (h', hk)" "sub \<in> hb_subs h key"
  shows "hk = (if has_subs h' key then NoHook else OnLast key)"
    and "g \<noteq> key \<Longrightarrow> has_subs h' g = has_subs h g" and "has_subs h key"
    and "hb_subs h' g = (if g = key then hb_subs h g - {sub} else hb_subs h g)"
    and "hb_next h' = hb_next h" "hb_buffer h' = hb_buffer h"
proof -
  have h': "h' = h\<lparr>hb_subs := (hb_subs h)(key := hb_subs h key - {sub}), hb_closed := insert sub (hb_closed h)\<rparr>"
    and hk: "hk = (if hb_subs h key \<noteq> {} \<and> hb_subs h key - {sub} = {} then OnLast key else NoHook)"
    using assms(1) by (auto simp: unsubscribe_def Let_def)
  have "hb_subs h key \<noteq> {}" using assms(2) by blast
  then show "hk = (if has_subs h' key then NoHook else OnLast key)"
    unfolding hk by (simp add: h' has_subs_def)
qed (use assms in \<open>auto simp: unsubscribe_def Let_def has_subs_def\<close>)

lemma refs_hook:
  "refs_of (run_hook ok NoHook b) g = refs_of b g"
  "refs_of (run_hook ok (OnFirst k) b) g = refs_of b g + (if g = k then 1 else 0)"
  "(\<And>n. bs_refs b k = Some n \<Longrightarrow> 0 < n) \<Longrightarrow> refs_of (run_hook ok (OnLast k) b) g
     = refs_of b g - (if g = k \<and> 0 < refs_of b k then 1 else 0)"
  by (simp_all add: run_hook_def refs_watch refs_unwatch)

lemma pos_hook:
  "(\<And>g n. bs_refs b g = Some n \<Longrightarrow> 0 < n) \<Longrightarrow> bs_refs (run_hook ok hk b) g = Some n \<Longrightarrow> 0 < n"
  unfolding run_hook_def by (cases hk) (auto intro: pos_watch pos_unwatch)

lemma fanout_inv_subscribe:
  assumes "fanout_inv f" "subscribe (fo_hub f) key = (h, sub, hk)"
  shows "fanout_inv (f\<lparr>fo_hub := h, fo_bus := run_hook ok hk (fo_bus f)\<rparr>)"
proof -
  have fin: "finite (hb_subs (fo_hub f) key)" and lt: "\<And>s. s \<in> hb_subs (fo_hub f) key \<Longrightarrow> s < hb_next (fo_hub f)"
    and pos: "\<And>g n. bs_refs (fo_bus f) g = Some n \<Longrightarrow> 0 < n"
    and refs: "\<And>g. refs_of (fo_bus f) g = interest f g"
    using assms(1) by (auto simp: fanout_inv_def)
  note sub = subscribe_interest [OF assms(2) fin lt]
  have "refs_of (run_hook ok hk (fo_bus f)) g = interest (f\<lparr>fo_hub := h, fo_bus := run_hook ok hk (fo_bus f)\<rparr>) g" for g
    using refs [of g] refs [of key] by (cases "g = key") (auto simp: sub(1,2) refs_hook interest_def)
  moreover have "0 < n" if "bs_refs (run_hook ok hk (fo_bus f)) g = Some n" for g n
    by (rule pos_hook [OF pos that])
  ultimately show ?thesis
    using assms(1) by (auto simp: fanout_inv_def sub(3-6) less_Suc_eq)
qed

lemma fanout_inv_unsubscribe:
  assumes "fanout_inv f" "sub \<in> hb_subs (fo_hub f) key" "unsubscribe (fo_hub f) key sub = (h, hk)"
  shows "fanout_inv (f\<lparr>fo_hub := h, fo_bus := run_hook ok hk (fo_bus f)\<rparr>)"
proof -
  have pos: "\<And>g n. bs_refs (fo_bus f) g = Some n \<Longrightarrow> 0 < n"
    and refs: "\<And>g. refs_of (fo_bus f) g = interest f g"
    using assms(1) by (auto simp: fanout_inv_def)
  note sub = unsubscribe_interest [OF assms(3,2)]
  have "refs_of (run_hook ok hk (fo_bus f)) g = interest (f\<lparr>fo_hub := h, fo_bus := run_hook ok hk (fo_bus f)\<rparr>) g" for g
    using refs [of g] refs [of key] sub(3) sub(2) [of g] pos
    by (cases "g = key") (auto simp: sub(1) refs_hook interest_def)
  moreover have "0 < n" if "bs_refs (run_hook ok hk (fo_bus f)) g = Some n" for g n
    by (rule pos_hook [OF pos that])
  ultimately show ?thesis
    using assms(1) by (auto simp: fanout_inv_def sub(4-6))
qed

lemma fanout_inv_cache:
  assumes "fanout_inv f" "gid \<notin> fo_cached f"
  shows "fanout_inv (f\<lparr>fo_cached := insert gid (fo_cached f), fo_bus := watch_game ok (fo_bus f) gid\<rparr>)"
  using assms unfolding fanout_inv_def by (auto simp: interest_def refs_watch intro: pos_watch)

lemma fanout_inv_evict:
  assumes "fanout_inv f" "gid \<in> fo_cached f"
  shows "fanout_inv (f\<lparr>fo_cached := fo_cached f - {gid}, fo_bus := unwatch_game ok (fo_bus f) gid\<rparr>)"
  using assms unfolding fanout_inv_def by (auto simp: interest_def refs_unwatch intro: pos_unwatch)

lemma fanout_inv_buffers:
  assumes "fanout_inv f"
  shows "fanout_inv (f\<lparr>fo_hub := deliver (fo_hub f) key msg\<rparr>)"
    and "fanout_inv (f\<lparr>fo_hub := receive (fo_hub f) sub\<rparr>)"
    and "fanout_inv (f\<lparr>fo_bus := bus_start (fo_bus f)\<rparr>)"
proof -
  have len: "length (hb_buffer (fo_hub f) s) \<le> subBuffer" for s
    using assms by (simp add: fanout_inv_def)
  have "length (tl xs) \<le> n" if "length xs \<le> n" for xs :: "string list" and n using that by simp
  then show "fanout_inv (f\<lparr>fo_hub := receive (fo_hub f) sub\<rparr>)"
    using assms len by (auto simp: fanout_inv_def receive_def interest_def has_subs_def)
  show "fanout_inv (f\<lparr>fo_hub := deliver (fo_hub f) key msg\<rparr>)"
    "fanout_inv (f\<lparr>fo_bus := bus_start (fo_bus f)\<rparr>)"
    using assms len by (auto simp: fanout_inv_def deliver_def interest_def has_subs_def)
qed

interpretation fanout: machine fanout_start fanout_step fanout_inv
proof unfold_locales
  show "fanout_inv f" if "fanout_start f" for f
    using that by (simp add: fanout_start_def fanout_inv_def new_hub_def new_bus_def interest_def refs_of_def
        has_subs_def)
  show "fanout_inv f'" if "fanout_inv f" "fanout_step f f'" for f f'
    using that(2,1)
    by (cases rule: fanout_stepE) (auto intro: fanout_inv_subscribe fanout_inv_unsubscribe
        fanout_inv_cache fanout_inv_evict fanout_inv_buffers)
qed

text \<open>The bus counts exactly the interest there is: in every reachable state a game's count is one for having
  local subscribers plus one for being cached, so a game nobody is interested in has no count
  left, and no subscriber's buffer ever holds more than sixteen messages.\<close>

theorem bus_counts_interest:
  assumes "reach fanout_start fanout_step f"
  shows "(case bs_refs (fo_bus f) gid of
      Some n \<Rightarrow> n = interest f gid \<and> 0 < n
    | None \<Rightarrow> \<not> has_subs (fo_hub f) gid \<and> gid \<notin> fo_cached f)
    \<and> length (hb_buffer (fo_hub f) sub) \<le> subBuffer"
proof -
  have inv: "refs_of (fo_bus f) gid = interest f gid" "\<And>n. bs_refs (fo_bus f) gid = Some n \<Longrightarrow> 0 < n"
    "length (hb_buffer (fo_hub f) sub) \<le> subBuffer"
    using fanout.inv_reach [OF assms] by (auto simp: fanout_inv_def)
  then show ?thesis
    by (auto simp: refs_of_def interest_def split: option.splits if_splits)
qed

theorem bus_counts_interest_witness:
  "refs_of (watch_game True (bus_start new_bus) ''g'') ''g'' = 1
    \<and> bs_refs (fo_bus \<lparr>fo_hub = new_hub, fo_bus = watch_game True new_bus ''g'', fo_cached = {''g''}\<rparr>) ''g'' = Some 1"
proof -
  let ?f = "\<lparr>fo_hub = new_hub, fo_bus = new_bus, fo_cached = {}\<rparr>"
  have "reach fanout_start fanout_step (?f\<lparr>fo_cached := insert ''g'' (fo_cached ?f), fo_bus := watch_game True (fo_bus ?f) ''g''\<rparr>)"
    by (rule reach_step, rule reach_start, simp add: fanout_start_def, rule fo_cache, simp)
  from bus_counts_interest [OF this, of "''g''" 0] show ?thesis
    by (simp add: watch_game_def new_bus_def interest_def has_subs_def new_hub_def refs_of_def bus_start_def Let_def)
qed

section \<open>Subscriptions\<close>

definition subscribed_ok :: "bus \<Rightarrow> bool" where
  "subscribed_ok b \<longleftrightarrow> bs_started b
     \<and> bs_channels b = {lobbyChannel, matchmakeChannel} \<union> game_channel ` dom (bs_refs b)
     \<and> (\<forall>g n. bs_refs b g = Some n \<longrightarrow> 0 < n)"

lemma game_channel_fresh: "game_channel g \<noteq> lobbyChannel" "game_channel g \<noteq> matchmakeChannel"
  by (simp_all add: game_channel_def gameChannelPfx_def lobbyChannel_def matchmakeChannel_def)

lemma subscribed_watch:
  assumes "subscribed_ok b" shows "subscribed_ok (watch_game True b gid)"
proof (cases "bs_refs b gid")
  case None
  with assms show ?thesis by (simp add: subscribed_ok_def watch_game_def insert_commute)
next
  case (Some n)
  have "0 < n" using assms Some by (auto simp: subscribed_ok_def)
  then have "n \<noteq> 0" "0 \<le> n" by simp_all
  moreover have "insert gid (dom (bs_refs b)) = dom (bs_refs b)" using Some by auto
  ultimately show ?thesis using assms Some by (simp add: subscribed_ok_def watch_game_def Let_def)
qed

lemma subscribed_unwatch:
  assumes "subscribed_ok b" shows "subscribed_ok (unwatch_game True b gid)"
proof (cases "bs_refs b gid")
  case None
  with assms show ?thesis by (simp add: unwatch_game_def)
next
  case (Some n)
  have n: "0 < n" and ch: "bs_channels b = {lobbyChannel, matchmakeChannel} \<union> game_channel ` dom (bs_refs b)"
    and st: "bs_started b" "\<forall>g n. bs_refs b g = Some n \<longrightarrow> 0 < n"
    using assms Some by (auto simp: subscribed_ok_def)
  show ?thesis
  proof (cases "n \<le> 1")
    case True
    have "({lobbyChannel, matchmakeChannel} \<union> game_channel ` dom (bs_refs b)) - {game_channel gid}
        = {lobbyChannel, matchmakeChannel} \<union> game_channel ` (dom (bs_refs b) - {gid})"
      using game_channel_fresh [of gid] by (auto simp: game_channel_inj)
    with True Some ch st show ?thesis by (simp add: subscribed_ok_def unwatch_game_def)
  next
    case False
    have "insert gid (dom (bs_refs b)) = dom (bs_refs b)" using Some by auto
    with False Some ch st show ?thesis by (simp add: subscribed_ok_def unwatch_game_def)
  qed
qed

text \<open>When the client's calls succeed, a process subscribes to exactly the lobby, the matchmaking channel and the
  channels of the games it counts: from the start on, watching and unwatching keep it so, and a
  message on any game's channel is dispatched as a game event.\<close>

theorem subscriptions_follow_counts:
  assumes "\<And>g n. bs_refs b g = Some n \<Longrightarrow> 0 < n"
  shows "subscribed_ok (foldl (\<lambda>b (w, gid). if w then watch_game True b gid else unwatch_game True b gid) (bus_start b) ops)
    \<and> dispatch (game_channel gid) = ToGame \<and> dispatch lobbyChannel = ToLobby \<and> dispatch matchmakeChannel = ToMatchmake"
proof -
  have "subscribed_ok (bus_start b)" using assms by (auto simp: subscribed_ok_def bus_start_def)
  then have "subscribed_ok (foldl (\<lambda>b (w, gid). if w then watch_game True b gid else unwatch_game True b gid) (bus_start b) ops)"
    by (induction ops rule: rev_induct) (auto simp: subscribed_watch subscribed_unwatch split: prod.splits)
  moreover have "dispatch lobbyChannel = ToLobby" "dispatch matchmakeChannel = ToMatchmake"
    by (simp_all add: dispatch_def lobbyChannel_def matchmakeChannel_def)
  ultimately show ?thesis using dispatch_game by blast
qed

theorem subscriptions_follow_counts_witness:
  "subscribed_ok (watch_game True (bus_start new_bus) ''g'')"
  using subscriptions_follow_counts [of new_bus "[(True, ''g'')]"] by (simp add: new_bus_def)

end
