(* ===== verification/Two_Phase.thy ===== *)
theory Two_Phase
  imports Prelude
begin

text \<open>
  Operations in two phases: a part under a lock, which changes some counts and decides what is to follow, and the effects that follow
  when the lock is released. Several goroutines can be between the two phases at once, so a state is paired with the effects that
  are still to come, oldest first. When the effects come in the order of the counts, the operations can be
  read as single steps; the locale \<open>two_phase\<close> shows this from one law, that counting and effects do not touch each other.
\<close>

definition run_effects :: "('e \<Rightarrow> 's \<Rightarrow> 's) \<Rightarrow> 'e list \<Rightarrow> 's \<Rightarrow> 's" where
  "run_effects effect es s = foldl (\<lambda>s e. effect e s) s es"

lemma run_effects_simps [simp]:
  "run_effects effect [] s = s" "run_effects effect (e # es) s = run_effects effect es (effect e s)"
  "run_effects effect (es @ es') s = run_effects effect es' (run_effects effect es s)"
  by (simp_all add: run_effects_def)

definition one_step :: "('o \<Rightarrow> 's \<Rightarrow> 's \<times> 'e list) \<Rightarrow> ('e \<Rightarrow> 's \<Rightarrow> 's) \<Rightarrow> 'o \<Rightarrow> 's \<Rightarrow> 's" where
  "one_step counting effect op s = (case counting op s of (s', es) \<Rightarrow> run_effects effect es s')"

text \<open>\<open>may_run\<close> says which of the effects to come can be the next: only the oldest, or any of them.\<close>

definition in_order :: "nat \<Rightarrow> bool" where "in_order i \<longleftrightarrow> i = 0"
definition any_order :: "nat \<Rightarrow> bool" where "any_order i \<longleftrightarrow> True"

inductive two_phase_step :: "('o \<Rightarrow> 's \<Rightarrow> 's \<times> 'e list) \<Rightarrow> ('e \<Rightarrow> 's \<Rightarrow> 's) \<Rightarrow> (nat \<Rightarrow> bool) \<Rightarrow> 's \<times> 'e list \<Rightarrow> 's \<times> 'e list \<Rightarrow> bool"
  for counting effect may_run where
  counts: "counting op s = (s', es) \<Longrightarrow> two_phase_step counting effect may_run (s, todo) (s', todo @ es)"
| takes_effect: "i < length todo \<Longrightarrow> may_run i
    \<Longrightarrow> two_phase_step counting effect may_run (s, todo) (effect (todo ! i) s, take i todo @ drop (Suc i) todo)"

inductive_cases two_phase_stepE: "two_phase_step counting effect may_run x y"

text \<open>The state once everything under way has taken effect, in order.\<close>

definition settled :: "('e \<Rightarrow> 's \<Rightarrow> 's) \<Rightarrow> 's \<times> 'e list \<Rightarrow> 's" where
  "settled effect x = run_effects effect (snd x) (fst x)"

locale two_phase =
  fixes counting :: "'o \<Rightarrow> 's \<Rightarrow> 's \<times> 'e list" and effect :: "'e \<Rightarrow> 's \<Rightarrow> 's"
  assumes count_effect: "counting op (effect e s) = map_prod (effect e) id (counting op s)"
begin

lemma count_effects: "counting op (run_effects effect es s) = map_prod (run_effects effect es) id (counting op s)"
  by (induction es arbitrary: s) (simp_all add: count_effect map_prod_def split: prod.split)

lemma settled_step:
  assumes "two_phase_step counting effect in_order x y"
  shows "settled effect y = settled effect x \<or> (\<exists>op. settled effect y = one_step counting effect op (settled effect x))"
  using assms
proof (cases rule: two_phase_step.cases)
  case (counts op s s' es todo)
  then have "settled effect y = one_step counting effect op (settled effect x)"
    by (simp add: settled_def one_step_def count_effects)
  then show ?thesis by blast
next
  case (takes_effect i todo s)
  then have "todo = todo ! 0 # drop 1 todo" by (simp add: in_order_def Cons_nth_drop_Suc)
  then have "settled effect x = run_effects effect (todo ! 0 # drop 1 todo) s" using takes_effect(1) by (simp add: settled_def)
  then show ?thesis using takes_effect by (simp add: settled_def in_order_def)
qed

text \<open>What every operation keeps as a single step holds of the settled state of every run in order.\<close>

lemma in_order_inv:
  assumes "(two_phase_step counting effect in_order)\<^sup>*\<^sup>* (s, []) x" "P s" "\<And>op s. P s \<Longrightarrow> P (one_step counting effect op s)"
  shows "P (settled effect x)"
  using assms(1)
proof (induction rule: rtranclp_induct)
  case base
  then show ?case using assms(2) by (simp add: settled_def)
next
  case (step y z)
  then show ?case using settled_step [OF step.hyps(2)] assms(3) by metis
qed

end

text \<open>Two operations of which the first has one effect, and that comes after all of the second's.\<close>

lemma two_phase_overtaking:
  assumes "counting op1 s = (s1, [e1])" "counting op2 s1 = (s2, es2)"
  shows "(two_phase_step counting effect any_order)\<^sup>*\<^sup>* (s, []) (effect e1 (run_effects effect es2 s2), [])"
proof -
  let ?step = "two_phase_step counting effect any_order"
  have "?step (s, []) (s1, [e1])" using counts [of counting op1 s s1 "[e1]" effect any_order "[]"] assms(1) by simp
  moreover have "?step (s1, [e1]) (s2, e1 # es2)" using counts [of counting op2 s1 s2 es2 effect any_order "[e1]"] assms(2) by simp
  moreover have "?step\<^sup>*\<^sup>* (s, e1 # es) (run_effects effect es s, [e1])" for s es
  proof (induction es arbitrary: s)
    case (Cons e es)
    have "?step (s, e1 # e # es) (effect e s, e1 # es)"
      using takes_effect [of 1 "e1 # e # es" any_order counting effect s] by (simp add: any_order_def)
    then show ?case using Cons [of "effect e s"] by simp
  qed simp
  moreover have "?step (s, [e1]) (effect e1 s, [])" for s
    using takes_effect [of 0 "[e1]" any_order counting effect s] by (simp add: any_order_def)
  ultimately show ?thesis by (meson r_into_rtranclp rtranclp_trans)
qed

end
