(* ===== verification/Bus_Calls.thy ===== *)
theory Bus_Calls
  imports Fanout Two_Phase
begin

text \<open>
  The bus of \<open>internal/bus/redis.go\<close> call by call. \<open>WatchGame\<close> and \<open>UnwatchGame\<close> count under the lock and call the Redis client after
  they have released it, so the calls of several goroutines can overtake each other. In the order of the counts the calls
  implement \<open>watch_game\<close> and \<open>unwatch_game\<close>, the two operations as single steps; in another order they do not.
\<close>

section \<open>Connecting and closing\<close>

text \<open>The URL is parsed and the server is asked for a sign of life before the counts exist.\<close>

definition new_redis :: "bool \<Rightarrow> bool \<Rightarrow> string + bus" where
  "new_redis url_ok ping_ok = (if \<not> url_ok then Inl ''redis url'' else if \<not> ping_ok then Inl ''redis ping'' else Inr new_bus)"

definition close_bus :: "bus \<Rightarrow> bus" where
  "close_bus b = b\<lparr>bs_channels := {}\<rparr>"

section \<open>Counting and calling\<close>

datatype bus_call = CallSubscribe string | CallUnsubscribe string

definition watch_counted :: "bus \<Rightarrow> string \<Rightarrow> bus \<times> bus_call list" where
  "watch_counted b gid =
     (let n = (case bs_refs b gid of Some n \<Rightarrow> n | None \<Rightarrow> 0) + 1
      in (b\<lparr>bs_refs := (bs_refs b)(gid \<mapsto> n)\<rparr>, if n = 1 \<and> bs_started b then [CallSubscribe gid] else []))"

definition unwatch_counted :: "bus \<Rightarrow> string \<Rightarrow> bus \<times> bus_call list" where
  "unwatch_counted b gid =
     (case bs_refs b gid of
        None \<Rightarrow> (b, [])
      | Some n0 \<Rightarrow>
          let n = n0 - 1; last = (n \<le> 0)
          in (b\<lparr>bs_refs := (if last then (bs_refs b)(gid := None) else (bs_refs b)(gid \<mapsto> n))\<rparr>,
              if last \<and> bs_started b then [CallUnsubscribe gid] else []))"

text \<open>\<open>ok\<close> is whether Redis carries out the call; the error of one that it does not is logged and ignored.\<close>

definition client_call :: "bool \<Rightarrow> bus_call \<Rightarrow> bus \<Rightarrow> bus" where
  "client_call ok c b =
     (if \<not> ok then b
      else case c of CallSubscribe gid \<Rightarrow> b\<lparr>bs_channels := insert (game_channel gid) (bs_channels b)\<rparr>
           | CallUnsubscribe gid \<Rightarrow> b\<lparr>bs_channels := bs_channels b - {game_channel gid}\<rparr>)"

datatype bus_op = Watch string | Unwatch string

definition bus_count :: "bus_op \<Rightarrow> bus \<Rightarrow> bus \<times> bus_call list" where
  "bus_count op b = (case op of Watch gid \<Rightarrow> watch_counted b gid | Unwatch gid \<Rightarrow> unwatch_counted b gid)"

lemma client_call_frame [simp]:
  "bs_refs (client_call ok c b) = bs_refs b" "bs_started (client_call ok c b) = bs_started b"
  by (simp_all add: client_call_def split: bus_call.split)

lemma client_call_refs: "client_call ok c (b\<lparr>bs_refs := r\<rparr>) = (client_call ok c b)\<lparr>bs_refs := r\<rparr>"
  by (simp add: client_call_def split: bus_call.split)

interpretation bus_calls: two_phase bus_count "client_call ok" for ok
  by unfold_locales (auto simp: bus_count_def watch_counted_def unwatch_counted_def client_call_refs Let_def
      split: bus_op.split option.split)

text \<open>A single goroutine makes its call before anything else happens: the two operations as they are used elsewhere.\<close>

lemma bus_one_step:
  "one_step bus_count (client_call ok) op b = (case op of Watch gid \<Rightarrow> watch_game ok b gid | Unwatch gid \<Rightarrow> unwatch_game ok b gid)"
  by (auto simp: one_step_def bus_count_def watch_game_def unwatch_game_def watch_counted_def unwatch_counted_def client_call_def Let_def
      split: bus_op.split option.split)

section \<open>Calls in order\<close>

text \<open>C18: As long as Redis carries out every call and the calls are made in the order of the counts, a process that starts with positive
  counts and that has no call under way is subscribed to exactly the lobby,
  the matchmaking channel and the games it counts.\<close>

theorem calls_in_order_follow_counts:
  assumes "(two_phase_step bus_count (client_call True) in_order)\<^sup>*\<^sup>* (bus_start b0, []) (b, [])" "\<forall>g n. bs_refs b0 g = Some n \<longrightarrow> 0 < n"
  shows "bs_channels b = {lobbyChannel, matchmakeChannel} \<union> game_channel ` dom (bs_refs b)"
proof -
  have "subscribed_ok (bus_start b0)" using assms(2) by (simp add: subscribed_ok_def bus_start_def)
  then have "subscribed_ok (settled (client_call True) (b, []))"
    by (rule bus_calls.in_order_inv [OF assms(1), of subscribed_ok]) (simp add: bus_one_step subscribed_watch subscribed_unwatch split: bus_op.split)
  then show ?thesis by (simp add: settled_def subscribed_ok_def)
qed

theorem calls_in_order_follow_counts_witness:
  "bs_channels (client_call True (CallSubscribe ''g'') (fst (watch_counted (bus_start new_bus) ''g'')))
    = {lobbyChannel, matchmakeChannel, game_channel ''g''}"
proof -
  let ?b = "fst (watch_counted (bus_start new_bus) ''g'')" and ?step = "two_phase_step bus_count (client_call True) in_order"
  have "bus_count (Watch ''g'') (bus_start new_bus) = (?b, [CallSubscribe ''g''])"
    by (simp add: bus_count_def watch_counted_def new_bus_def bus_start_def)
  then have "?step (bus_start new_bus, []) (?b, [CallSubscribe ''g''])"
    using counts [of bus_count "Watch ''g''" "bus_start new_bus" ?b "[CallSubscribe ''g'']" "client_call True" in_order "[]"] by simp
  moreover have "?step (?b, [CallSubscribe ''g'']) (client_call True (CallSubscribe ''g'') ?b, [])"
    using takes_effect [of 0 "[CallSubscribe ''g'']" in_order bus_count "client_call True" ?b] by (simp add: in_order_def)
  ultimately have "?step\<^sup>*\<^sup>* (bus_start new_bus, []) (client_call True (CallSubscribe ''g'') ?b, [])"
    by (meson r_into_rtranclp rtranclp_trans)
  from calls_in_order_follow_counts [OF this] show ?thesis
    by (simp add: watch_counted_def new_bus_def bus_start_def insert_commute)
qed

section \<open>Calls out of order\<close>

definition bus_ops :: "(bool \<times> string) list \<Rightarrow> bus \<Rightarrow> bus" where
  "bus_ops ops b = foldl (\<lambda>b (w, gid). if w then watch_game True b gid else unwatch_game True b gid) b ops"

lemma still_deaf:
  assumes "bs_refs b gid = Some n" "0 < n" "game_channel gid \<notin> bs_channels b"
  shows "game_channel gid \<notin> bs_channels (watch_game True b g)" "game_channel gid \<notin> bs_channels (unwatch_game True b g)"
  using assms by (auto simp: watch_game_def unwatch_game_def Let_def game_channel_inj split: option.splits)

lemma counts_positive:
  assumes "\<forall>g n. bs_refs b g = Some n \<longrightarrow> 0 < n"
  shows "\<forall>g n. bs_refs (bus_ops ops b) g = Some n \<longrightarrow> 0 < n"
  using assms by (induction ops rule: rev_induct) (auto simp: bus_ops_def split: prod.splits intro: pos_watch pos_unwatch)

lemma stays_deaf:
  assumes "\<forall>g n. bs_refs b g = Some n \<longrightarrow> 0 < n" "game_channel gid \<notin> bs_channels b"
    "\<forall>k \<le> length ops. bs_refs (bus_ops (take k ops) b) gid \<noteq> None"
  shows "game_channel gid \<notin> bs_channels (bus_ops ops b)"
  using assms(3)
proof (induction ops rule: rev_induct)
  case Nil
  then show ?case using assms(2) by (simp add: bus_ops_def)
next
  case (snoc x ops)
  have counted: "bs_refs (bus_ops (take k ops) b) gid \<noteq> None" if "k \<le> length ops" for k
    using snoc.prems [rule_format, of k] that by simp
  then have deaf: "game_channel gid \<notin> bs_channels (bus_ops ops b)" by (intro snoc.IH) blast
  obtain n where "bs_refs (bus_ops ops b) gid = Some n" "0 < n"
    using counted [of "length ops"] counts_positive [OF assms(1), of ops] by auto
  then show ?case using still_deaf deaf by (cases x) (simp add: bus_ops_def)
qed

text \<open>C32: Otherwise a process can go deaf for a game: when its last watcher leaves while the next one arrives, the new subscription can be
  overtaken by the removal of the old one. Afterwards no call is under way and the game is counted, but its channel is not subscribed,
  and it stays so, whatever is watched and unwatched, for as long as somebody is interested in the game.\<close>

theorem overtaken_calls_deafen:
  assumes "bs_started b" "bs_refs b gid = Some 1" "\<forall>g n. bs_refs b g = Some n \<longrightarrow> 0 < n"
  shows "\<exists>b'. (two_phase_step bus_count (client_call True) any_order)\<^sup>*\<^sup>* (b, []) (b', []) \<and> bs_refs b' = bs_refs b
    \<and> (\<forall>ops. (\<forall>k \<le> length ops. bs_refs (bus_ops (take k ops) b') gid \<noteq> None) \<longrightarrow> game_channel gid \<notin> bs_channels (bus_ops ops b'))"
proof -
  let ?out = "b\<lparr>bs_refs := (bs_refs b)(gid := None)\<rparr>" and ?in = "b\<lparr>bs_refs := (bs_refs b)(gid := None, gid \<mapsto> 1)\<rparr>"
  let ?b' = "client_call True (CallUnsubscribe gid) (client_call True (CallSubscribe gid) ?in)"
  have "bus_count (Unwatch gid) b = (?out, [CallUnsubscribe gid])" "bus_count (Watch gid) ?out = (?in, [CallSubscribe gid])"
    using assms(1,2) by (simp_all add: bus_count_def unwatch_counted_def watch_counted_def)
  then have "(two_phase_step bus_count (client_call True) any_order)\<^sup>*\<^sup>* (b, []) (?b', [])"
    using two_phase_overtaking [of bus_count "Unwatch gid" b ?out "CallUnsubscribe gid" "Watch gid" ?in "[CallSubscribe gid]" "client_call True"] by simp
  moreover have refs: "bs_refs ?b' = bs_refs b" using assms(2) by auto
  moreover have "game_channel gid \<notin> bs_channels (bus_ops ops ?b')" if "\<forall>k \<le> length ops. bs_refs (bus_ops (take k ops) ?b') gid \<noteq> None" for ops
    using that assms(3) by (intro stays_deaf) (auto simp: refs, simp add: client_call_def)
  ultimately show ?thesis by blast
qed

theorem overtaken_calls_deafen_witness:
  "\<exists>b'. (two_phase_step bus_count (client_call True) any_order)\<^sup>*\<^sup>* (watch_game True (bus_start new_bus) ''g'', []) (b', [])
    \<and> bs_refs b' ''g'' = Some 1 \<and> game_channel ''g'' \<notin> bs_channels b'"
proof -
  let ?b = "watch_game True (bus_start new_bus) ''g''"
  have b: "bs_started ?b" "bs_refs ?b ''g'' = Some 1" "\<forall>g n. bs_refs ?b g = Some n \<longrightarrow> 0 < n"
    by (simp_all add: watch_game_def new_bus_def bus_start_def Let_def)
  obtain b' where b': "(two_phase_step bus_count (client_call True) any_order)\<^sup>*\<^sup>* (?b, []) (b', [])" "bs_refs b' = bs_refs ?b"
    "\<forall>ops. (\<forall>k \<le> length ops. bs_refs (bus_ops (take k ops) b') ''g'' \<noteq> None) \<longrightarrow> game_channel ''g'' \<notin> bs_channels (bus_ops ops b')"
    using overtaken_calls_deafen [OF b] by blast
  have "game_channel ''g'' \<notin> bs_channels b'" using b'(3) [rule_format, of "[]"] b'(2) b(2) by (simp add: bus_ops_def)
  then show ?thesis using b'(1,2) b(2) by auto
qed

end
