(* ===== verification/Records.thy ===== *)
theory Records
  imports Game_State Lease
begin

text \<open>
  The records the server keeps, \<open>internal/server/store.go\<close>: seats, rematch offers, the game record, and
  the errors its operations return. Tokens are compared by hash; the hash function (SHA-256) is
  the parameter \<open>hash\<close> wherever it is used, and an empty string stands for a nil hash.
\<close>

section \<open>Errors\<close>

datatype app_error =
  ErrGameNotFound | ErrSeatTaken | ErrNoFreeSeat | ErrBadToken | ErrNotPlaying | ErrNotFinished
| ErrBadVisibility | ErrDrawNotOffered | ErrCannotAcceptOwnDrawOffer | ErrDrawAlreadyOffered
| ErrDrawUnsupported | ErrBotsOnPublic | ErrSeatNotBot | ErrSeatReserved | ErrSeatNotInvited
| ErrAnonymousOnPublic | ErrBadSeatIndex | ErrPublicCannotStart | ErrTooFewToStart
| ErrNoRematchOffer | ErrNotInvitee | ErrNotHost | ErrSeatNotForUser
| ErrStaleLease | ErrEmptyMessage | ErrProfileNotFound
| ErrEngine game_error | EnginePanic | ErrDatabase

type_synonym 'a result = "app_error + 'a"

section \<open>Status and visibility\<close>

type_synonym status = string

definition StatusWaiting :: status where "StatusWaiting = ''waiting''"
definition StatusPlaying :: status where "StatusPlaying = ''playing''"
definition StatusFinished :: status where "StatusFinished = ''finished''"

definition VisibilityPrivate :: string where "VisibilityPrivate = ''private''"
definition VisibilityPublic :: string where "VisibilityPublic = ''public''"

lemmas status_defs = StatusWaiting_def StatusPlaying_def StatusFinished_def
lemmas visibility_defs = VisibilityPrivate_def VisibilityPublic_def

lemma status_distinct [simp]:
  "StatusWaiting \<noteq> StatusPlaying" "StatusPlaying \<noteq> StatusWaiting" "StatusWaiting \<noteq> StatusFinished"
  "StatusFinished \<noteq> StatusWaiting" "StatusPlaying \<noteq> StatusFinished" "StatusFinished \<noteq> StatusPlaying"
  by (simp_all add: status_defs)

section \<open>Seats and records\<close>

record seat =
  st_index :: int
  st_color :: color
  st_name :: string
  st_hash :: string
  st_user :: string
  st_occupied :: bool
  st_bot :: bool

record rematch_offer =
  ro_accepted :: "int set"
  ro_created :: gtime

record game_record =
  rc_id :: string
  rc_state :: game_state
  rc_seats :: "seat list"
  rc_status :: status
  rc_visibility :: string
  rc_rematch :: string
  rc_created :: gtime
  rc_draw_by :: int
  rc_offer :: "rematch_offer option"

definition empty_seat :: "int \<Rightarrow> color \<Rightarrow> seat" where
  "empty_seat i c = \<lparr>st_index = i, st_color = c, st_name = '''', st_hash = '''', st_user = '''',
                     st_occupied = False, st_bot = False\<rparr>"

definition seat_by_token :: "(string \<Rightarrow> string) \<Rightarrow> game_record \<Rightarrow> string \<Rightarrow> nat option" where
  "seat_by_token hash rc tok = find_index (\<lambda>s. st_hash s \<noteq> '''' \<and> st_hash s = hash tok) (rc_seats rc)"

definition all_seated :: "game_record \<Rightarrow> bool" where
  "all_seated rc \<longleftrightarrow> list_all st_occupied (rc_seats rc)"

definition first_free_seat :: "seat list \<Rightarrow> int" where
  "first_free_seat seats = (case find_index (\<lambda>s. \<not> st_occupied s) seats of Some i \<Rightarrow> int i | None \<Rightarrow> -1)"

definition pick_seat_for_user :: "seat list \<Rightarrow> string \<Rightarrow> int" where
  "pick_seat_for_user seats user =
     (case (if user \<noteq> '''' then find_index (\<lambda>s. \<not> st_occupied s \<and> st_user s = user) seats else None) of
        Some i \<Rightarrow> int i
      | None \<Rightarrow> (case find_index (\<lambda>s. \<not> st_occupied s \<and> st_user s = '''') seats of
                   Some i \<Rightarrow> int i | None \<Rightarrow> -1))"

definition bot_name :: "int \<Rightarrow> string" where
  "bot_name i =
     (if i = 0 then ''Bot Rouge'' else if i = 1 then ''Bot Bleu'' else if i = 2 then ''Bot Vert''
      else if i = 3 then ''Bot Jaune'' else if i = 4 then ''Bot Violet'' else ''Bot'')"

text \<open>The fresh colours and seats of a game for \<open>n\<close> players, as \<open>Create\<close> and \<open>Rematch\<close> make them.\<close>

definition fresh_colors :: "nat \<Rightarrow> color list" where
  "fresh_colors n = map (\<lambda>i. int i + 1) [0..<n]"

definition fresh_seats :: "nat \<Rightarrow> seat list" where
  "fresh_seats n = map (\<lambda>i. empty_seat (int i) (int i + 1)) [0..<n]"

section \<open>Facts\<close>

lemma seat_by_token_Some:
  assumes "seat_by_token hash rc tok = Some i"
  shows "i < length (rc_seats rc)" "st_hash (rc_seats rc ! i) = hash tok" "hash tok \<noteq> ''''"
  using find_index_Some [OF assms [unfolded seat_by_token_def]] by auto

lemma pick_seat_range:
  assumes "pick_seat_for_user seats user = i" "0 \<le> i"
  shows "nat i < length seats" "\<not> st_occupied (seats ! nat i)"
    "st_user (seats ! nat i) = '''' \<or> st_user (seats ! nat i) = user"
  using assms
  by (auto simp: pick_seat_for_user_def split: option.splits if_splits dest!: find_index_Some)

lemma pick_seat_none:
  "pick_seat_for_user seats user < 0 \<longleftrightarrow>
    (\<forall>s \<in> set seats. st_occupied s \<or> st_user s \<noteq> '''' \<and> st_user s \<noteq> user)"
  by (auto simp: pick_seat_for_user_def find_index_None split: option.splits if_splits
      dest!: find_index_Some intro: nth_mem)

end
