(* ===== verification/Repo.thy ===== *)
theory Repo
  imports Records
begin

text \<open>
  The Postgres repository, \<open>internal/server/repo_postgres.go\<close>, over its tables as lists of rows. One
  function per method; each is one transaction, so a database failure (\<open>bad\<close>) leaves the
  tables as they were. \<open>now\<close> is the database's \<open>NOW()\<close>. Where SQL leaves the order of equal
  keys open, the model keeps the order of insertion.
\<close>

section \<open>Tables\<close>

record game_row =
  gw_id :: string
  gw_status :: status
  gw_config :: config
  gw_winner :: color
  gw_kind :: win_kind
  gw_visibility :: string
  gw_rematch :: "string option"
  gw_offer :: "rematch_offer option"
  gw_draw_by :: int
  gw_event_seq :: int
  gw_rated_at :: "gtime option"
  gw_created :: gtime
  gw_updated :: gtime

record move_row =
  mw_game :: string
  mw_ordinal :: int
  mw_move :: move
  mw_played :: gtime

record event_row =
  ew_game :: string
  ew_seq :: int
  ew_type :: string
  ew_payload :: string
  ew_epoch :: int

record rating_row =
  rw_user :: string
  rw_mode :: string
  rw_rating :: int
  rw_games :: int
  rw_wins :: int
  rw_losses :: int
  rw_draws :: int
  rw_updated :: gtime

record history_row =
  hw_game :: string
  hw_user :: string
  hw_old :: int
  hw_new :: int
  hw_delta :: int
  hw_result :: char

record queue_row =
  qw_user :: string
  qw_players :: nat
  qw_mode :: string
  qw_rating :: int
  qw_enqueued :: gtime

record message_row =
  ms_game :: string
  ms_seat :: int
  ms_color :: color
  ms_name :: string
  ms_body :: string
  ms_sent :: gtime

record db =
  db_games :: "game_row list"
  db_seats :: "(string \<times> seat) list"
  db_moves :: "move_row list"
  db_events :: "event_row list"
  db_ratings :: "rating_row list"
  db_history :: "history_row list"
  db_profiles :: "(string \<times> string) list"
  db_queue :: "queue_row list"
  db_messages :: "message_row list"
  db_leases :: lease_table

definition empty_db :: db where
  "empty_db = \<lparr>db_games = [], db_seats = [], db_moves = [], db_events = [], db_ratings = [], db_history = [],
     db_profiles = [], db_queue = [], db_messages = [], db_leases = Map.empty\<rparr>"

definition game_of :: "db \<Rightarrow> string \<Rightarrow> game_row option" where
  "game_of d gid = find (\<lambda>r. gw_id r = gid) (db_games d)"

definition update_game :: "string \<Rightarrow> (game_row \<Rightarrow> game_row) \<Rightarrow> db \<Rightarrow> db" where
  "update_game gid f d = d\<lparr>db_games := map (\<lambda>r. if gw_id r = gid then f r else r) (db_games d)\<rparr>"

definition seats_of :: "db \<Rightarrow> string \<Rightarrow> seat list" where
  "seats_of d gid = sort_key st_index (map snd (filter (\<lambda>x. fst x = gid) (db_seats d)))"

definition moves_of :: "db \<Rightarrow> string \<Rightarrow> move_row list" where
  "moves_of d gid = sort_key mw_ordinal (filter (\<lambda>m. mw_game m = gid) (db_moves d))"

section \<open>Games\<close>

definition save_new_game :: "bool \<Rightarrow> gtime \<Rightarrow> db \<Rightarrow> game_record \<Rightarrow> db result" where
  "save_new_game bad now d rc =
     (if bad \<or> game_of d (rc_id rc) \<noteq> None \<or> \<not> distinct (map st_index (rc_seats rc)) then Inl ErrDatabase
      else Inr (d\<lparr>
        db_games := db_games d @
          [\<lparr>gw_id = rc_id rc, gw_status = rc_status rc, gw_config = gs_config (rc_state rc),
            gw_winner = Empty, gw_kind = WinNone,
            gw_visibility = (if rc_visibility rc = '''' then VisibilityPrivate else rc_visibility rc),
            gw_rematch = None, gw_offer = None, gw_draw_by = -1, gw_event_seq = 0, gw_rated_at = None,
            gw_created = now, gw_updated = now\<rparr>],
        db_seats := db_seats d @ map (\<lambda>s. (rc_id rc, s)) (rc_seats rc)\<rparr>))"

text \<open>One round of the replay loop: a turn start that is not set is taken from the move, then the move is
  played at the time it was recorded.\<close>

definition replay_step :: "game_state result \<Rightarrow> move_row \<Rightarrow> game_state result" where
  "replay_step st mw =
     (case st of
        Inl e \<Rightarrow> Inl e
      | Inr g \<Rightarrow>
          let g1 = (if is_zero_time (gs_started g) then g\<lparr>gs_started := mw_played mw\<rparr> else g)
          in case apply_move g1 (mw_move mw) (mw_played mw) of
               Done (g', _) \<Rightarrow> Inr g'
             | Fail e \<Rightarrow> Inl (ErrEngine e)
             | Panic \<Rightarrow> Inl EnginePanic)"

definition replay :: "game_state \<Rightarrow> move_row list \<Rightarrow> game_state result" where
  "replay g ms = foldl replay_step (Inr g) ms"

text \<open>Loading makes three queries, of the game, its seats and its moves, that need not see the tables in the same state.\<close>

definition load_game_reads :: "bool \<Rightarrow> gtime \<Rightarrow> db \<Rightarrow> db \<Rightarrow> db \<Rightarrow> string \<Rightarrow> game_record option result" where
  "load_game_reads bad now dg ds dm gid =
     (if bad then Inl ErrDatabase
      else case game_of dg gid of
        None \<Rightarrow> Inr None
      | Some r \<Rightarrow>
          let seats = seats_of ds gid; ms = moves_of dm gid
          in case replay (new_game (map st_color seats) (gw_config r)) ms of
               Inl e \<Rightarrow> Inl e
             | Inr g \<Rightarrow>
                 let lastPlayed = (if ms = [] then zero_time else mw_played (last ms));
                     g1 = (if gw_status r = StatusPlaying \<and> is_zero_time lastPlayed \<and> clock_enabled g
                           then g\<lparr>gs_started := now\<rparr> else g);
                     g2 = g1\<lparr>gs_winner := gw_winner r, gs_kind := gw_kind r\<rparr>
                 in Inr (Some \<lparr>rc_id = gid, rc_state = g2, rc_seats = seats, rc_status = gw_status r,
                      rc_visibility = gw_visibility r,
                      rc_rematch = (case gw_rematch r of Some x \<Rightarrow> x | None \<Rightarrow> ''''),
                      rc_created = gw_created r, rc_draw_by = gw_draw_by r, rc_offer = gw_offer r\<rparr>))"

text \<open>A load that no write comes between.\<close>

definition load_game :: "bool \<Rightarrow> gtime \<Rightarrow> db \<Rightarrow> string \<Rightarrow> game_record option result" where
  "load_game bad now d gid = load_game_reads bad now d d d gid"

definition update_seat :: "bool \<Rightarrow> gtime \<Rightarrow> db \<Rightarrow> string \<Rightarrow> seat \<Rightarrow> status \<Rightarrow> db result" where
  "update_seat bad now d gid s status =
     (if bad then Inl ErrDatabase
      else Inr (update_game gid (\<lambda>r. r\<lparr>gw_status := status, gw_updated := now\<rparr>)
        (d\<lparr>db_seats := map (\<lambda>(g, s'). if g = gid \<and> st_index s' = st_index s
             then (g, s'\<lparr>st_name := st_name s, st_hash := st_hash s, st_user := st_user s,
                        st_occupied := st_occupied s, st_bot := st_bot s\<rparr>)
             else (g, s')) (db_seats d)\<rparr>)))"

text \<open>The fenced write of an outcome. No row matched and a non-zero epoch means a stale lease, if the
  game still exists.\<close>

definition update_outcome :: "bool \<Rightarrow> gtime \<Rightarrow> db \<Rightarrow> string \<Rightarrow> status \<Rightarrow> color \<Rightarrow> win_kind \<Rightarrow> int \<Rightarrow> db result" where
  "update_outcome bad now d gid status winner kind epoch =
     (if bad then Inl ErrDatabase
      else if game_of d gid \<noteq> None \<and> fence_passes (db_leases d) gid epoch
      then Inr (update_game gid (\<lambda>r. r\<lparr>gw_status := status, gw_winner := winner, gw_kind := kind,
                                      gw_updated := now\<rparr>) d)
      else if epoch \<noteq> 0 \<and> game_of d gid \<noteq> None then Inl ErrStaleLease
      else Inr d)"

definition orphan_playing_games :: "bool \<Rightarrow> gtime \<Rightarrow> db \<Rightarrow> nat \<Rightarrow> string list result" where
  "orphan_playing_games bad now d limit =
     (if bad then Inl ErrDatabase
      else Inr (take limit (map gw_id (sort_key (\<lambda>r. - gw_updated r)
        (filter (\<lambda>r. gw_status r = StatusPlaying
           \<and> \<not> (case db_leases d (gw_id r) of Some l \<Rightarrow> now \<le> lr_expires l | None \<Rightarrow> False))
          (db_games d))))))"

definition append_move :: "bool \<Rightarrow> gtime \<Rightarrow> db \<Rightarrow> string \<Rightarrow> int \<Rightarrow> move \<Rightarrow> color \<Rightarrow> win_kind \<Rightarrow> status \<Rightarrow> db result" where
  "append_move bad now d gid ordinal m winner kind status =
     (if bad \<or> game_of d gid = None
         \<or> (\<exists>mw \<in> set (db_moves d). mw_game mw = gid \<and> mw_ordinal mw = ordinal)
      then Inl ErrDatabase
      else Inr (update_game gid (\<lambda>r. r\<lparr>gw_status := status, gw_winner := winner, gw_kind := kind,
                                     gw_updated := now\<rparr>)
        (d\<lparr>db_moves := db_moves d @ [\<lparr>mw_game = gid, mw_ordinal = ordinal, mw_move = m, mw_played = now\<rparr>]\<rparr>)))"

definition finalize_start :: "bool \<Rightarrow> gtime \<Rightarrow> db \<Rightarrow> string \<Rightarrow> status \<Rightarrow> config \<Rightarrow> db result" where
  "finalize_start bad now d gid status cfg =
     (if bad then Inl ErrDatabase
      else Inr (update_game gid (\<lambda>r. r\<lparr>gw_status := status,
            gw_config := (gw_config r)\<lparr>cf_pairs := cf_pairs cfg, cf_align4 := cf_align4 cfg,
                                       cf_align5 := cf_align5 cfg\<rparr>, gw_updated := now\<rparr>)
        (d\<lparr>db_seats := filter (\<lambda>(g, s). \<not> (g = gid \<and> \<not> st_occupied s)) (db_seats d)\<rparr>)))"

text \<open>Deleting games with what the schema does to the rows that refer to them: \<open>ON DELETE CASCADE\<close> for
  seats, moves, events, history, messages and leases, \<open>SET NULL\<close> for a rematch link.\<close>

definition unlink_rematch :: "string list \<Rightarrow> game_row \<Rightarrow> game_row" where
  "unlink_rematch gone r = r\<lparr>gw_rematch :=
     (case gw_rematch r of Some x \<Rightarrow> if x \<in> set gone then None else Some x | None \<Rightarrow> None)\<rparr>"

definition delete_games :: "string list \<Rightarrow> db \<Rightarrow> db" where
  "delete_games gone d =
     d\<lparr>db_games := map (unlink_rematch gone) (filter (\<lambda>r. gw_id r \<notin> set gone) (db_games d)),
       db_seats := filter (\<lambda>x. fst x \<notin> set gone) (db_seats d),
       db_moves := filter (\<lambda>m. mw_game m \<notin> set gone) (db_moves d),
       db_events := filter (\<lambda>e. ew_game e \<notin> set gone) (db_events d),
       db_history := filter (\<lambda>h. hw_game h \<notin> set gone) (db_history d),
       db_messages := filter (\<lambda>m. ms_game m \<notin> set gone) (db_messages d),
       db_leases := (\<lambda>gid. if gid \<in> set gone then None else db_leases d gid)\<rparr>"

definition delete_stale_waiting :: "bool \<Rightarrow> gtime \<Rightarrow> db \<Rightarrow> duration \<Rightarrow> (db \<times> nat) result" where
  "delete_stale_waiting bad now d older =
     (if bad then Inl ErrDatabase
      else let gone = map gw_id (filter (\<lambda>r. gw_status r = StatusWaiting \<and> gw_updated r < now - older) (db_games d))
           in Inr (delete_games gone d, length gone))"

section \<open>Offers and links\<close>

definition save_rematch_offer :: "bool \<Rightarrow> db \<Rightarrow> string \<Rightarrow> rematch_offer option \<Rightarrow> db result" where
  "save_rematch_offer bad d gid offer =
     (if bad then Inl ErrDatabase
      else if game_of d gid = None then Inl ErrGameNotFound
      else Inr (update_game gid (\<lambda>r. r\<lparr>gw_offer := offer\<rparr>) d))"

definition merge_rematch_acceptance :: "bool \<Rightarrow> gtime \<Rightarrow> db \<Rightarrow> string \<Rightarrow> int \<Rightarrow> int list
    \<Rightarrow> (db \<times> rematch_offer) result" where
  "merge_rematch_acceptance bad now d gid seatIdx botSeats =
     (if bad then Inl ErrDatabase
      else case game_of d gid of
        None \<Rightarrow> Inl ErrGameNotFound
      | Some r \<Rightarrow>
          let offer = (case gw_offer r of Some ro \<Rightarrow> ro
                       | None \<Rightarrow> \<lparr>ro_accepted = set botSeats, ro_created = now\<rparr>);
              offer' = offer\<lparr>ro_accepted := insert seatIdx (ro_accepted offer)\<rparr>
          in Inr (update_game gid (\<lambda>r. r\<lparr>gw_offer := Some offer'\<rparr>) d, offer'))"

definition save_draw_offer :: "bool \<Rightarrow> db \<Rightarrow> string \<Rightarrow> int \<Rightarrow> db result" where
  "save_draw_offer bad d gid offerBy =
     (if bad then Inl ErrDatabase
      else if game_of d gid = None then Inl ErrGameNotFound
      else Inr (update_game gid (\<lambda>r. r\<lparr>gw_draw_by := offerBy\<rparr>) d))"

definition set_rematch_link :: "bool \<Rightarrow> db \<Rightarrow> string \<Rightarrow> string \<Rightarrow> (db \<times> string) result" where
  "set_rematch_link bad d originalID newID =
     (if bad then Inl ErrDatabase
      else case game_of d originalID of
        None \<Rightarrow> Inl ErrGameNotFound
      | Some r \<Rightarrow>
          if gw_rematch r = None \<and> game_of d newID = None then Inl ErrDatabase
          else let got = (case gw_rematch r of Some x \<Rightarrow> x | None \<Rightarrow> newID)
               in Inr (update_game originalID (\<lambda>r. r\<lparr>gw_rematch := Some got\<rparr>) d,
                       if got = '''' then newID else got))"

section \<open>Events\<close>

definition append_event :: "bool \<Rightarrow> db \<Rightarrow> string \<Rightarrow> string \<Rightarrow> string \<Rightarrow> int \<Rightarrow> (db \<times> int) result" where
  "append_event bad d gid ty payload epoch =
     (if bad then Inl ErrDatabase
      else case game_of d gid of
        None \<Rightarrow> Inl ErrGameNotFound
      | Some r \<Rightarrow>
          if fence_passes (db_leases d) gid epoch
          then let seq = gw_event_seq r + 1
               in Inr ((update_game gid (\<lambda>r. r\<lparr>gw_event_seq := seq\<rparr>) d)
                    \<lparr>db_events := db_events d @ [\<lparr>ew_game = gid, ew_seq = seq, ew_type = ty,
                                                 ew_payload = payload, ew_epoch = epoch\<rparr>]\<rparr>, seq)
          else Inl ErrStaleLease)"

definition load_event :: "bool \<Rightarrow> db \<Rightarrow> string \<Rightarrow> int \<Rightarrow> event_row option result" where
  "load_event bad d gid seq =
     (if bad then Inl ErrDatabase
      else Inr (find (\<lambda>e. ew_game e = gid \<and> ew_seq e = seq) (db_events d)))"

definition events_since :: "bool \<Rightarrow> db \<Rightarrow> string \<Rightarrow> int \<Rightarrow> nat \<Rightarrow> event_row list result" where
  "events_since bad d gid since limit =
     (if bad then Inl ErrDatabase
      else Inr (take limit (sort_key ew_seq (filter (\<lambda>e. ew_game e = gid \<and> ew_seq e > since) (db_events d)))))"

definition current_event_seq :: "bool \<Rightarrow> db \<Rightarrow> string \<Rightarrow> int result" where
  "current_event_seq bad d gid =
     (if bad then Inl ErrDatabase
      else case game_of d gid of None \<Rightarrow> Inl ErrGameNotFound | Some r \<Rightarrow> Inr (gw_event_seq r))"

section \<open>Ratings and profiles\<close>

definition RatingMode1v1 :: string where "RatingMode1v1 = ''1v1''"
definition RatingModeMulti :: string where "RatingModeMulti = ''multi''"

definition zero_rating :: "string \<Rightarrow> string \<Rightarrow> rating_row" where
  "zero_rating user mode = \<lparr>rw_user = user, rw_mode = mode, rw_rating = 0, rw_games = 0, rw_wins = 0,
     rw_losses = 0, rw_draws = 0, rw_updated = zero_time\<rparr>"

definition rating_for :: "db \<Rightarrow> string \<Rightarrow> string \<Rightarrow> rating_row" where
  "rating_for d user mode =
     (case find (\<lambda>r. rw_user r = user \<and> rw_mode r = mode) (db_ratings d) of
        Some r \<Rightarrow> r | None \<Rightarrow> zero_rating user mode)"

definition ratings_for :: "bool \<Rightarrow> db \<Rightarrow> string list \<Rightarrow> string \<Rightarrow> rating_row list result" where
  "ratings_for bad d users mode =
     (if bad then Inl ErrDatabase else Inr (map (\<lambda>u. rating_for d u mode) users))"

record rating_update =
  ru_user :: string
  ru_old :: int
  ru_new :: int
  ru_result :: char

definition upsert_rating :: "gtime \<Rightarrow> string \<Rightarrow> rating_update \<Rightarrow> db \<Rightarrow> db" where
  "upsert_rating now mode u d =
     (let win = (if ru_result u = CHR ''W'' then 1 else 0);
          loss = (if ru_result u = CHR ''L'' then 1 else 0);
          draw = (if ru_result u = CHR ''D'' then 1 else 0)
      in if \<exists>r \<in> set (db_ratings d). rw_user r = ru_user u \<and> rw_mode r = mode
         then d\<lparr>db_ratings := map (\<lambda>r. if rw_user r = ru_user u \<and> rw_mode r = mode
                then r\<lparr>rw_rating := ru_new u, rw_games := rw_games r + 1, rw_wins := rw_wins r + win,
                       rw_losses := rw_losses r + loss, rw_draws := rw_draws r + draw, rw_updated := now\<rparr>
                else r) (db_ratings d)\<rparr>
         else d\<lparr>db_ratings := db_ratings d @ [\<lparr>rw_user = ru_user u, rw_mode = mode, rw_rating = ru_new u,
                rw_games = 1, rw_wins = win, rw_losses = loss, rw_draws = draw, rw_updated = now\<rparr>]\<rparr>)"

text \<open>One round of the transaction's loop; a second history row for the same user aborts it.\<close>

definition apply_rating_update :: "gtime \<Rightarrow> string \<Rightarrow> string \<Rightarrow> db option \<Rightarrow> rating_update \<Rightarrow> db option" where
  "apply_rating_update now gid mode od u =
     (case od of
        None \<Rightarrow> None
      | Some d \<Rightarrow>
          if \<exists>h \<in> set (db_history d). hw_game h = gid \<and> hw_user h = ru_user u then None
          else Some ((upsert_rating now mode u d)\<lparr>db_history := db_history d @
                 [\<lparr>hw_game = gid, hw_user = ru_user u, hw_old = ru_old u, hw_new = ru_new u,
                   hw_delta = ru_new u - ru_old u, hw_result = ru_result u\<rparr>]\<rparr>))"

definition apply_rated_game :: "bool \<Rightarrow> gtime \<Rightarrow> db \<Rightarrow> string \<Rightarrow> string \<Rightarrow> rating_update list \<Rightarrow> (db \<times> bool) result" where
  "apply_rated_game bad now d gid mode updates =
     (if bad then Inl ErrDatabase
      else case game_of d gid of
        None \<Rightarrow> Inr (d, False)
      | Some r \<Rightarrow>
          if gw_rated_at r \<noteq> None then Inr (d, False)
          else case foldl (apply_rating_update now gid mode)
                 (Some (update_game gid (\<lambda>r. r\<lparr>gw_rated_at := Some now\<rparr>) d)) updates of
                 None \<Rightarrow> Inl ErrDatabase
               | Some d' \<Rightarrow> Inr (d', True))"

definition upsert_profile :: "bool \<Rightarrow> db \<Rightarrow> string \<Rightarrow> string \<Rightarrow> db result" where
  "upsert_profile bad d user name =
     (if bad then Inl ErrDatabase
      else if user \<in> fst ` set (db_profiles d)
      then Inr (d\<lparr>db_profiles := map (\<lambda>(u, n). if u = user then (u, name) else (u, n)) (db_profiles d)\<rparr>)
      else Inr (d\<lparr>db_profiles := db_profiles d @ [(user, name)]\<rparr>))"

definition ensure_profile :: "bool \<Rightarrow> db \<Rightarrow> string \<Rightarrow> string \<Rightarrow> db result" where
  "ensure_profile bad d user fallback =
     (if bad then Inl ErrDatabase
      else if user \<in> fst ` set (db_profiles d) then Inr d
      else Inr (d\<lparr>db_profiles := db_profiles d @ [(user, fallback)]\<rparr>))"

definition profile_of :: "bool \<Rightarrow> db \<Rightarrow> string \<Rightarrow> string option result" where
  "profile_of bad d user = (if bad then Inl ErrDatabase else Inr (map_of (db_profiles d) user))"

record leaderboard_entry =
  le_user :: string
  le_name :: string
  le_rating :: int
  le_games :: int
  le_wins :: int
  le_losses :: int
  le_draws :: int

definition leaderboard :: "bool \<Rightarrow> db \<Rightarrow> string \<Rightarrow> nat \<Rightarrow> leaderboard_entry list result" where
  "leaderboard bad d mode limit =
     (if bad then Inl ErrDatabase
      else Inr (take limit (concat (map
        (\<lambda>r. case map_of (db_profiles d) (rw_user r) of
               Some name \<Rightarrow> [\<lparr>le_user = rw_user r, le_name = name, le_rating = rw_rating r, le_games = rw_games r,
                              le_wins = rw_wins r, le_losses = rw_losses r, le_draws = rw_draws r\<rparr>]
             | None \<Rightarrow> [])
        (sort_key (\<lambda>r. - rw_rating r) (sort_key (\<lambda>r. - rw_updated r)
          (filter (\<lambda>r. rw_mode r = mode) (db_ratings d))))))))"

definition derive_outcome :: "status \<Rightarrow> color \<Rightarrow> color \<Rightarrow> string" where
  "derive_outcome status mine winner =
     (if status \<noteq> StatusFinished then ''ongoing''
      else if winner = Empty then ''draw''
      else if winner = mine then ''won'' else ''lost'')"

text \<open>The history of a user: a row per seat of theirs in a finished game, freshest first.\<close>

record user_game =
  ug_game :: string
  ug_status :: status
  ug_index :: int
  ug_color :: color
  ug_winner :: color
  ug_outcome :: string
  ug_moves :: nat

definition user_seats :: "db \<Rightarrow> string \<Rightarrow> (game_row \<times> seat) list" where
  "user_seats d user = concat (map (\<lambda>(gid, s).
     if st_user s = user \<and> user \<noteq> '''' then (case game_of d gid of Some r \<Rightarrow> [(r, s)] | None \<Rightarrow> []) else [])
     (db_seats d))"

definition games_for_user :: "bool \<Rightarrow> db \<Rightarrow> string \<Rightarrow> nat \<Rightarrow> user_game list result" where
  "games_for_user bad d user limit =
     (if bad then Inl ErrDatabase
      else Inr (take limit (map (\<lambda>(r, s). \<lparr>ug_game = gw_id r, ug_status = gw_status r, ug_index = st_index s,
             ug_color = st_color s, ug_winner = gw_winner r,
             ug_outcome = derive_outcome (gw_status r) (st_color s) (gw_winner r),
             ug_moves = length (filter (\<lambda>m. mw_game m = gw_id r) (db_moves d))\<rparr>)
           (sort_key (\<lambda>x. - gw_updated (fst x))
             (filter (\<lambda>x. gw_status (fst x) = StatusFinished) (user_seats d user))))))"

record user_stats =
  us_total :: int
  us_won :: int
  us_lost :: int
  us_ongoing :: int
  us_rating_1v1 :: int
  us_rating_multi :: int

text \<open>The rating a query reports: the row's, or the default that is written into the SQL.\<close>

definition rating_or_1200 :: "db \<Rightarrow> string \<Rightarrow> string \<Rightarrow> int" where
  "rating_or_1200 d user mode =
     (case find (\<lambda>r. rw_user r = user \<and> rw_mode r = mode) (db_ratings d) of
        Some r \<Rightarrow> rw_rating r | None \<Rightarrow> 1200)"

definition stats_for_user :: "bool \<Rightarrow> db \<Rightarrow> string \<Rightarrow> user_stats result" where
  "stats_for_user bad d user =
     (if bad then Inl ErrDatabase
      else Inr \<lparr>us_total = int (length (user_seats d user)),
        us_won = count_if (\<lambda>(r, s). gw_status r = StatusFinished \<and> gw_winner r = st_color s) (user_seats d user),
        us_lost = count_if (\<lambda>(r, s). gw_status r = StatusFinished \<and> gw_winner r \<noteq> st_color s \<and> gw_winner r \<noteq> 0)
          (user_seats d user),
        us_ongoing = count_if (\<lambda>(r, s). gw_status r \<noteq> StatusFinished) (user_seats d user),
        us_rating_1v1 = rating_or_1200 d user RatingMode1v1,
        us_rating_multi = rating_or_1200 d user RatingModeMulti\<rparr>)"

record public_profile =
  pp_user :: string
  pp_name :: string
  pp_won :: int
  pp_lost :: int
  pp_draws :: int
  pp_rating_1v1 :: int
  pp_games_1v1 :: int
  pp_rating_multi :: int
  pp_games_multi :: int

definition public_profile_of :: "bool \<Rightarrow> db \<Rightarrow> string \<Rightarrow> public_profile result" where
  "public_profile_of bad d user =
     (if bad then Inl ErrDatabase
      else case map_of (db_profiles d) user of
        None \<Rightarrow> Inl ErrProfileNotFound
      | Some name \<Rightarrow> Inr \<lparr>pp_user = user, pp_name = name,
          pp_won = count_if (\<lambda>(r, s). gw_status r = StatusFinished \<and> gw_winner r = st_color s) (user_seats d user),
          pp_lost = count_if (\<lambda>(r, s). gw_status r = StatusFinished \<and> gw_winner r \<noteq> st_color s \<and> gw_winner r \<noteq> 0)
            (user_seats d user),
          pp_draws = count_if (\<lambda>(r, s). gw_status r = StatusFinished \<and> gw_winner r = 0) (user_seats d user),
          pp_rating_1v1 = rating_or_1200 d user RatingMode1v1,
          pp_games_1v1 = rw_games (rating_for d user RatingMode1v1),
          pp_rating_multi = rating_or_1200 d user RatingModeMulti,
          pp_games_multi = rw_games (rating_for d user RatingModeMulti)\<rparr>)"

text \<open>The rating snapshot of one game. The join takes the seat's current rating and its history row.\<close>

record seat_rating =
  sr_index :: int
  sr_user :: string
  sr_current :: int
  sr_old :: int
  sr_new :: int
  sr_delta :: int
  sr_result :: string

record game_ratings =
  gr_mode :: string
  gr_rated :: bool
  gr_applied :: bool
  gr_seats :: "seat_rating list"

definition ratings_for_game :: "bool \<Rightarrow> db \<Rightarrow> string \<Rightarrow> game_ratings result" where
  "ratings_for_game bad d gid =
     (if bad then Inl ErrDatabase
      else case game_of d gid of
        None \<Rightarrow> Inl ErrGameNotFound
      | Some r \<Rightarrow>
          let seats = seats_of d gid;
              mode = (if length seats = 2 then RatingMode1v1 else RatingModeMulti);
              unrated = \<lparr>gr_mode = mode, gr_rated = False, gr_applied = False, gr_seats = []\<rparr>;
              applied = (gw_rated_at r \<noteq> None)
          in if gw_visibility r \<noteq> VisibilityPublic then Inr unrated
             else if list_ex (\<lambda>s. st_bot s \<or> st_user s = '''' \<or> \<not> st_occupied s) seats then Inr unrated
             else Inr \<lparr>gr_mode = mode, gr_rated = True, gr_applied = applied,
               gr_seats = map (\<lambda>s.
                 let base = \<lparr>sr_index = st_index s, sr_user = st_user s,
                             sr_current = rating_or_1200 d (st_user s) mode,
                             sr_old = 0, sr_new = 0, sr_delta = 0, sr_result = ''''\<rparr>
                 in if applied
                    then (case find (\<lambda>h. hw_game h = gid \<and> hw_user h = st_user s) (db_history d) of
                            Some h \<Rightarrow> base\<lparr>sr_old := hw_old h, sr_new := hw_new h, sr_delta := hw_delta h,
                                           sr_result := [hw_result h]\<rparr>
                          | None \<Rightarrow> base)
                    else base) seats\<rparr>)"

section \<open>Messages and lists\<close>

definition append_message :: "bool \<Rightarrow> gtime \<Rightarrow> db \<Rightarrow> message_row \<Rightarrow> (db \<times> message_row) result" where
  "append_message bad now d m =
     (if bad \<or> game_of d (ms_game m) = None then Inl ErrDatabase
      else let m' = m\<lparr>ms_sent := now\<rparr> in Inr (d\<lparr>db_messages := db_messages d @ [m']\<rparr>, m'))"

definition messages_for_game :: "bool \<Rightarrow> db \<Rightarrow> string \<Rightarrow> nat \<Rightarrow> message_row list result" where
  "messages_for_game bad d gid limit =
     (if bad then Inl ErrDatabase
      else Inr (rev (take limit (sort_key (\<lambda>m. - ms_sent m) (filter (\<lambda>m. ms_game m = gid) (db_messages d))))))"

record lobby_entry =
  lo_game :: string
  lo_players :: nat
  lo_seated :: nat
  lo_created :: gtime

definition lobby_games :: "bool \<Rightarrow> db \<Rightarrow> nat \<Rightarrow> lobby_entry list result" where
  "lobby_games bad d limit =
     (if bad then Inl ErrDatabase
      else Inr (take limit (map (\<lambda>r. \<lparr>lo_game = gw_id r,
             lo_players = length (seats_of d (gw_id r)),
             lo_seated = length (filter st_occupied (seats_of d (gw_id r))), lo_created = gw_created r\<rparr>)
           (sort_key (\<lambda>r. - gw_created r)
             (filter (\<lambda>r. gw_status r = StatusWaiting \<and> gw_visibility r = VisibilityPublic) (db_games d))))))"

end
