(* ===== verification/Matcher.thy ===== *)
theory Matcher
  imports Repo Complex_Main
begin

text \<open>
  Matchmaking: the rating bands of \<open>internal/server/matchmaking.go\<close>, the pairing rules and the tick of
  \<open>internal/server/matcher.go\<close>, and the queue transactions of \<open>repo_postgres.go\<close>. The code's \<open>float64\<close>
  bands are modelled as exact reals. \<open>new_id\<close> is the source of fresh game ids (random hex in the code),
  and \<open>locked\<close> are the users whose queue rows another transaction holds, which \<open>SKIP LOCKED\<close> leaves out.
\<close>

section \<open>Bands and pairing\<close>

record queued_user =
  qu_user :: string
  qu_rating :: int
  qu_enqueued :: gtime
  qu_name :: string

definition matchBandBase :: real where "matchBandBase = 100"
definition matchBandGrowthPS :: real where "matchBandGrowthPS = 10"
definition matchBandMax :: real where "matchBandMax = 1000"

definition dur_seconds :: "duration \<Rightarrow> real" where
  "dur_seconds d = of_int d / 1000000000"

definition score_band_for :: "duration \<Rightarrow> real" where
  "score_band_for age =
     (let band = matchBandBase + dur_seconds age * matchBandGrowthPS
      in if band > matchBandMax then matchBandMax else band)"

text \<open>The inner loop over the candidates \<open>j\<close>: the best partner so far and its distance.\<close>

definition best_step :: "queued_user list \<Rightarrow> gtime \<Rightarrow> bool list \<Rightarrow> nat \<Rightarrow> (nat \<times> real) option \<Rightarrow> nat
    \<Rightarrow> (nat \<times> real) option" where
  "best_step qs now matched i best j =
     (if matched ! j then best
      else let bandI = score_band_for (time_sub now (qu_enqueued (qs ! i)));
               bandJ = score_band_for (time_sub now (qu_enqueued (qs ! j)));
               band = (if bandJ > bandI then bandJ else bandI);
               delta = of_int \<bar>qu_rating (qs ! i) - qu_rating (qs ! j)\<bar>
           in if delta > band then best
              else case best of
                     None \<Rightarrow> Some (j, delta)
                   | Some (_, bestDelta) \<Rightarrow> if delta < bestDelta then Some (j, delta) else best)"

definition pair_step :: "queued_user list \<Rightarrow> gtime \<Rightarrow> bool list \<times> queued_user list list \<Rightarrow> nat
    \<Rightarrow> bool list \<times> queued_user list list" where
  "pair_step qs now st i =
     (let (matched, out) = st
      in if matched ! i then st
         else case foldl (best_step qs now matched i) None [i + 1..<length qs] of
                None \<Rightarrow> st
              | Some (j, _) \<Rightarrow> (matched[i := True, j := True], out @ [[qs ! i, qs ! j]]))"

definition pair1v1 :: "queued_user list \<Rightarrow> gtime \<Rightarrow> queued_user list list" where
  "pair1v1 qs now =
     (if length qs < 2 then []
      else snd (foldl (pair_step qs now) (replicate (length qs) False, []) [0..<length qs]))"

definition minMultiSeats :: nat where "minMultiSeats = 3"

definition second :: duration where "second = 1000000000"

definition multi_wait_threshold :: "nat \<Rightarrow> duration" where
  "multi_wait_threshold occupied =
     (if occupied \<ge> 6 then 0
      else if occupied = 5 then 5 * second
      else if occupied = 4 then 10 * second
      else if occupied = 3 then 20 * second
      else 24 * 3600 * second)"

definition pair_multi :: "queued_user list \<Rightarrow> nat \<Rightarrow> gtime \<Rightarrow> queued_user list list" where
  "pair_multi qs players now =
     (if length qs < minMultiSeats then []
      else if length qs \<ge> players then [take players qs]
      else if time_sub now (qu_enqueued (hd qs)) < multi_wait_threshold (length qs) then []
      else [qs])"

section \<open>The queue\<close>

definition enqueue_matchmake :: "bool \<Rightarrow> gtime \<Rightarrow> db \<Rightarrow> string \<Rightarrow> nat \<Rightarrow> string \<Rightarrow> int \<Rightarrow> db result" where
  "enqueue_matchmake bad now d user players mode rating =
     (if bad then Inl ErrDatabase
      else let row = \<lparr>qw_user = user, qw_players = players, qw_mode = mode, qw_rating = rating, qw_enqueued = now\<rparr>
           in Inr (if user \<in> qw_user ` set (db_queue d)
                   then d\<lparr>db_queue := map (\<lambda>q. if qw_user q = user then row else q) (db_queue d)\<rparr>
                   else d\<lparr>db_queue := db_queue d @ [row]\<rparr>))"

definition cancel_matchmake :: "bool \<Rightarrow> db \<Rightarrow> string \<Rightarrow> db result" where
  "cancel_matchmake bad d user =
     (if bad then Inl ErrDatabase
      else Inr (d\<lparr>db_queue := filter (\<lambda>q. qw_user q \<noteq> user) (db_queue d)\<rparr>))"

definition queued :: "db \<Rightarrow> queue_row \<Rightarrow> queued_user" where
  "queued d q = \<lparr>qu_user = qw_user q, qu_rating = qw_rating q, qu_enqueued = qw_enqueued q,
     qu_name = (case map_of (db_profiles d) (qw_user q) of Some n \<Rightarrow> n | None \<Rightarrow> '''')\<rparr>"

definition bucket :: "db \<Rightarrow> nat \<Rightarrow> string \<Rightarrow> queued_user list" where
  "bucket d players mode = map (queued d)
     (sort_key qw_enqueued (filter (\<lambda>q. qw_players q = players \<and> qw_mode q = mode) (db_queue d)))"

definition queue_snapshot :: "bool \<Rightarrow> db \<Rightarrow> nat \<Rightarrow> string \<Rightarrow> queued_user list result" where
  "queue_snapshot bad d players mode = (if bad then Inl ErrDatabase else Inr (bucket d players mode))"

definition matchmakeBatchSize :: nat where "matchmakeBatchSize = 100"

record matched_seat =
  mt_user :: string
  mt_game :: string

definition matched_seat_row :: "nat \<Rightarrow> queued_user \<Rightarrow> seat" where
  "matched_seat_row i u = \<lparr>st_index = int i, st_color = int i + 1,
     st_name = (if qu_name u = '''' then ''Joueur'' else qu_name u), st_hash = '''', st_user = qu_user u,
     st_occupied = True, st_bot = False\<rparr>"

text \<open>One round of the transaction's loop over the groups; a game id that exists aborts it.\<close>

definition matched_game :: "gtime \<Rightarrow> nat \<Rightarrow> (db \<times> matched_seat list) option \<Rightarrow> queued_user list \<times> string
    \<Rightarrow> (db \<times> matched_seat list) option" where
  "matched_game now players st gi =
     (case st of
        None \<Rightarrow> None
      | Some (d, seats) \<Rightarrow>
          let (g, gameID) = gi
          in if length g < 2 \<or> length g > players then Some (d, seats)
             else if game_of d gameID \<noteq> None then None
             else Some (d\<lparr>
               db_games := db_games d @
                 [\<lparr>gw_id = gameID, gw_status = StatusPlaying, gw_config = default_config (int (length g)),
                   gw_winner = Empty, gw_kind = WinNone, gw_visibility = VisibilityPublic, gw_rematch = None,
                   gw_offer = None, gw_draw_by = -1, gw_event_seq = 0, gw_rated_at = None,
                   gw_created = now, gw_updated = now\<rparr>],
               db_seats := db_seats d @ map (\<lambda>i. (gameID, matched_seat_row i (g ! i))) [0..<length g],
               db_queue := filter (\<lambda>q. qw_user q \<notin> qu_user ` set g) (db_queue d)\<rparr>,
               seats @ map (\<lambda>u. \<lparr>mt_user = qu_user u, mt_game = gameID\<rparr>) g))"

definition matchmake_tick :: "bool \<Rightarrow> gtime \<Rightarrow> string set \<Rightarrow> (nat \<Rightarrow> string) \<Rightarrow> db \<Rightarrow> nat \<Rightarrow> string
    \<Rightarrow> (queued_user list \<Rightarrow> queued_user list list) \<Rightarrow> (db \<times> matched_seat list) result" where
  "matchmake_tick bad now locked new_id d players mode pairFn =
     (if bad then Inl ErrDatabase
      else let rows = take matchmakeBatchSize (filter (\<lambda>u. qu_user u \<notin> locked) (bucket d players mode));
               groups = pairFn rows
           in case foldl (matched_game now players) (Some (d, [])) (zip groups (map new_id [0..<length groups])) of
                None \<Rightarrow> Inl ErrDatabase
              | Some r \<Rightarrow> Inr r)"

definition current_matchmade_game :: "bool \<Rightarrow> db \<Rightarrow> string \<Rightarrow> string result" where
  "current_matchmade_game bad d user =
     (if bad then Inl ErrDatabase
      else Inr (case sort_key (\<lambda>r. - gw_created r) (map fst (filter (\<lambda>(r, s). st_occupied s
                     \<and> gw_visibility r = VisibilityPublic \<and> gw_status r \<noteq> StatusFinished) (user_seats d user))) of
                  [] \<Rightarrow> '''' | r # _ \<Rightarrow> gw_id r))"

section \<open>The matcher's tick\<close>

record queue_update =
  uu_user :: string
  uu_players :: nat
  uu_mode :: string
  uu_count :: nat
  uu_eta :: "int option"

definition build_queue_updates :: "queued_user list \<Rightarrow> nat \<Rightarrow> string \<Rightarrow> gtime \<Rightarrow> queue_update list" where
  "build_queue_updates snap players mode now =
     (if snap = [] then []
      else let eta = (if mode = RatingModeMulti \<and> length snap \<ge> minMultiSeats
                      then let remaining = multi_wait_threshold (length snap) - time_sub now (qu_enqueued (hd snap))
                           in Some ((if remaining < 0 then 0 else remaining) sdiv second)
                      else None)
           in map (\<lambda>u. \<lparr>uu_user = qu_user u, uu_players = players, uu_mode = mode, uu_count = length snap,
                        uu_eta = eta\<rparr>) snap)"

definition matcherPlayerCounts :: "nat list" where "matcherPlayerCounts = [2, 3, 4, 5, 6]"

definition pairing :: "nat \<Rightarrow> gtime \<Rightarrow> queued_user list \<Rightarrow> queued_user list list" where
  "pairing players now qs = (if players = 2 then pair1v1 qs now else pair_multi qs players now)"

text \<open>One player count of the tick: the database, the seats handed to \<open>onMatched\<close> and the updates handed
  to \<open>onQueueUpdate\<close>. \<open>fail p 0\<close> and \<open>fail p 1\<close> are failures of the tick and of the snapshot.\<close>

definition tick_count :: "(nat \<Rightarrow> nat \<Rightarrow> bool) \<Rightarrow> gtime \<Rightarrow> string set \<Rightarrow> (nat \<Rightarrow> nat \<Rightarrow> string)
    \<Rightarrow> db \<times> matched_seat list list \<times> queue_update list list \<Rightarrow> nat
    \<Rightarrow> db \<times> matched_seat list list \<times> queue_update list list" where
  "tick_count fail now locked new_id st p =
     (let (d, ms, us) = st; mode = (if p = 2 then RatingMode1v1 else RatingModeMulti)
      in case matchmake_tick (fail p 0) now locked (new_id p) d p mode (pairing p now) of
           Inl _ \<Rightarrow> st
         | Inr (d', seats) \<Rightarrow>
             let ms' = (if seats \<noteq> [] then ms @ [seats] else ms)
             in case queue_snapshot (fail p 1) d' p mode of
                  Inl _ \<Rightarrow> (d', ms', us)
                | Inr snap \<Rightarrow>
                    let upd = build_queue_updates snap p mode now
                    in (d', ms', if upd \<noteq> [] then us @ [upd] else us))"

definition matcher_tick :: "(nat \<Rightarrow> nat \<Rightarrow> bool) \<Rightarrow> gtime \<Rightarrow> string set \<Rightarrow> (nat \<Rightarrow> nat \<Rightarrow> string) \<Rightarrow> db
    \<Rightarrow> db \<times> matched_seat list list \<times> queue_update list list" where
  "matcher_tick fail now locked new_id d = foldl (tick_count fail now locked new_id) (d, [], []) matcherPlayerCounts"

end
