(* ===== verification/Store.thy ===== *)
theory Store
  imports Matcher Timers Fanout
begin

text \<open>
  The game store of one process, \<open>internal/server/store.go\<close>: the cache of game records, the timers, the
  connection counts, the lease manager and the bus, over the repository. Records are shared by
  pointer in the code (a bot's goroutine keeps its record when the cache drops it), so they live
  in an explicit store \<open>so_heap\<close> and the cache maps ids to references. Every critical section with
  the repository calls it makes is one step; goroutines that are started become entries of \<open>so_tasks\<close>
  and run later; listener calls are logged in \<open>so_notes\<close>.
\<close>

section \<open>State\<close>

datatype task =
  Adopt string | ScheduleBot nat | BotTurn nat | AfterEnd string nat
| Rate1v1 string "seat list" color | RateMulti string "seat list" color

datatype notice =
  OnState string | OnPresence string int bool | OnDrawOffer string int | OnMove string move_result
| OnRated string

record store =
  so_heap :: "nat \<Rightarrow> game_record"
  so_next :: nat
  so_games :: "string \<Rightarrow> nat option"
  so_clocks :: "string timers"
  so_presence :: "(string \<times> int) timers"
  so_refs :: "string \<Rightarrow> (int \<Rightarrow> int) option"
  so_grace :: duration
  so_leases :: "manager option"
  so_forward :: bool
  so_bus :: "bus option"
  so_db :: db
  so_tasks :: "task list"
  so_notes :: "notice list"

text \<open>
  What a step takes from outside: the process's clock and the database's, fresh tokens and ids, the hash
  function (SHA-256), which repository calls fail, the outcome of the lease statement and of the
  bus call, and the random choice of the bot.
\<close>

record env =
  ev_now :: gtime
  ev_dbnow :: gtime
  ev_tokens :: "nat \<Rightarrow> string"
  ev_id :: string
  ev_hash :: "string \<Rightarrow> string"
  ev_fail :: "string \<Rightarrow> bool"
  ev_lease :: db_event
  ev_bus :: bool
  ev_intn :: "nat \<Rightarrow> nat"

definition new_store :: "game_record \<Rightarrow> manager option \<Rightarrow> bool \<Rightarrow> bus option \<Rightarrow> db \<Rightarrow> store" where
  "new_store blank leases forward bus db =
     \<lparr>so_heap = (\<lambda>_. blank), so_next = 0, so_games = Map.empty, so_clocks = new_timers,
      so_presence = new_timers, so_refs = Map.empty, so_grace = DisconnectGracePeriod,
      so_leases = leases, so_forward = forward, so_bus = bus, so_db = db, so_tasks = [], so_notes = []\<rparr>"

definition rec_of :: "store \<Rightarrow> nat \<Rightarrow> game_record" where
  "rec_of st r = so_heap st r"

definition set_rec :: "nat \<Rightarrow> game_record \<Rightarrow> store \<Rightarrow> store" where
  "set_rec r rc st = st\<lparr>so_heap := (so_heap st)(r := rc)\<rparr>"

definition spawn :: "task \<Rightarrow> store \<Rightarrow> store" where
  "spawn t st = st\<lparr>so_tasks := so_tasks st @ [t]\<rparr>"

definition notify :: "notice \<Rightarrow> store \<Rightarrow> store" where
  "notify n st = st\<lparr>so_notes := so_notes st @ [n]\<rparr>"

text \<open>A repository write whose error is only logged.\<close>

definition swallow :: "(db \<Rightarrow> db result) \<Rightarrow> store \<Rightarrow> store" where
  "swallow f st = (case f (so_db st) of Inl _ \<Rightarrow> st | Inr d \<Rightarrow> st\<lparr>so_db := d\<rparr>)"

section \<open>Leases and interest\<close>

definition watch :: "env \<Rightarrow> string \<Rightarrow> store \<Rightarrow> store" where
  "watch env gid st = st\<lparr>so_bus := map_option (\<lambda>b. watch_game (ev_bus env) b gid) (so_bus st)\<rparr>"

definition unwatch :: "env \<Rightarrow> string \<Rightarrow> store \<Rightarrow> store" where
  "unwatch env gid st = st\<lparr>so_bus := map_option (\<lambda>b. unwatch_game (ev_bus env) b gid) (so_bus st)\<rparr>"

definition lease_epoch :: "store \<Rightarrow> string \<Rightarrow> int" where
  "lease_epoch st gid =
     (case so_leases st of
        None \<Rightarrow> 0
      | Some m \<Rightarrow> (case held m gid of Some e \<Rightarrow> e | None \<Rightarrow> 0))"

definition ensure_lease :: "env \<Rightarrow> string \<Rightarrow> store \<Rightarrow> store" where
  "ensure_lease env gid st =
     (case so_leases st of
        None \<Rightarrow> st
      | Some m \<Rightarrow> (case ensure_held (ev_lease env) (ev_dbnow env) (db_leases (so_db st)) m gid of
                     (t, m') \<Rightarrow> st\<lparr>so_leases := Some m', so_db := (so_db st)\<lparr>db_leases := t\<rparr>\<rparr>))"

definition owns_game :: "store \<Rightarrow> string \<Rightarrow> bool" where
  "owns_game st gid =
     (if so_forward st then False
      else case so_leases st of None \<Rightarrow> True | Some m \<Rightarrow> held m gid \<noteq> None)"

text \<open>Dropping a game from the cache, as \<open>Invalidate\<close> and the lease-lost callback do.\<close>

definition drop_cached :: "env \<Rightarrow> string \<Rightarrow> store \<Rightarrow> store" where
  "drop_cached env gid st =
     (let existed = (so_games st gid \<noteq> None); st1 = st\<lparr>so_games := (so_games st)(gid := None)\<rparr>
      in if existed then unwatch env gid st1 else st1)"

definition invalidate :: "env \<Rightarrow> string \<Rightarrow> store \<Rightarrow> store" where
  "invalidate env gid st =
     (let st1 = drop_cached env gid st in if owns_game st1 gid then spawn (Adopt gid) st1 else st1)"

definition on_lost :: "env \<Rightarrow> string \<Rightarrow> store \<Rightarrow> store" where
  "on_lost env gid st =
     drop_cached env gid (st\<lparr>so_clocks := clock_cancel gid (so_clocks st),
                            so_presence := presence_cancel_game gid (so_presence st)\<rparr>)"

section \<open>Owner duties\<close>

definition Millisecond :: duration where "Millisecond = 1000000"

text \<open>
  \<open>armClock\<close> asks the lease manager and the record what the clock has to do, and then calls the clock manager. The two take their locks one after
  the other, so a lease can be lost between the question and the call.
\<close>

datatype clock_call = CancelClock string | ScheduleClock string duration gtime

definition clock_wanted :: "env \<Rightarrow> nat \<Rightarrow> store \<Rightarrow> clock_call" where
  "clock_wanted env r st =
     (let rc = rec_of st r; gid = rc_id rc
      in if \<not> owns_game st gid then CancelClock gid
         else if \<not> clock_enabled (rc_state rc) \<or> rc_status rc \<noteq> StatusPlaying \<or> is_over (rc_state rc) then CancelClock gid
         else ScheduleClock gid (remaining_for_active (rc_state rc) (ev_now env) * Millisecond) (ev_now env))"

definition call_clock :: "clock_call \<Rightarrow> store \<Rightarrow> store" where
  "call_clock c st =
     (case c of
        CancelClock gid \<Rightarrow> st\<lparr>so_clocks := clock_cancel gid (so_clocks st)\<rparr>
      | ScheduleClock gid d now \<Rightarrow> st\<lparr>so_clocks := clock_schedule gid d now (so_clocks st)\<rparr>)"

lemma call_clock_frame [simp]:
  "so_heap (call_clock c st) = so_heap st" "so_next (call_clock c st) = so_next st" "so_games (call_clock c st) = so_games st"
  "so_presence (call_clock c st) = so_presence st" "so_refs (call_clock c st) = so_refs st" "so_grace (call_clock c st) = so_grace st"
  "so_leases (call_clock c st) = so_leases st" "so_forward (call_clock c st) = so_forward st" "so_bus (call_clock c st) = so_bus st"
  "so_db (call_clock c st) = so_db st" "so_tasks (call_clock c st) = so_tasks st" "so_notes (call_clock c st) = so_notes st"
  by (simp_all add: call_clock_def split: clock_call.split)

definition arm_clock :: "env \<Rightarrow> nat \<Rightarrow> store \<Rightarrow> store" where
  "arm_clock env r st = call_clock (clock_wanted env r st) st"

definition maybe_schedule_bot :: "nat \<Rightarrow> store \<Rightarrow> store" where
  "maybe_schedule_bot r st = (if \<not> owns_game st (rc_id (rec_of st r)) then st else spawn (BotTurn r) st)"

definition game_ended :: "string \<Rightarrow> store \<Rightarrow> store" where
  "game_ended gid st =
     st\<lparr>so_presence := presence_cancel_game gid (so_presence st), so_clocks := clock_cancel gid (so_clocks st),
        so_refs := (so_refs st)(gid := None)\<rparr>"

section \<open>The cache\<close>

definition alloc :: "game_record \<Rightarrow> store \<Rightarrow> store" where
  "alloc rc st = st\<lparr>so_heap := (so_heap st)(so_next st := rc), so_next := so_next st + 1\<rparr>"

text \<open>Loading fills the cache, watches the game, claims it, and only then arms its clock and its bot.\<close>

definition get_game :: "env \<Rightarrow> string \<Rightarrow> store \<Rightarrow> store \<times> nat option result" where
  "get_game env gid st =
     (case so_games st gid of
        Some r \<Rightarrow> (st, Inr (Some r))
      | None \<Rightarrow>
          (case load_game (ev_fail env ''LoadGame'') (ev_now env) (so_db st) gid of
             Inl e \<Rightarrow> (st, Inl e)
           | Inr None \<Rightarrow> (st, Inr None)
           | Inr (Some rc) \<Rightarrow>
               let r = so_next st;
                   st1 = (alloc rc st)\<lparr>so_games := (so_games st)(gid \<mapsto> r)\<rparr>
               in (maybe_schedule_bot r (arm_clock env r (ensure_lease env gid (watch env gid st1))),
                   Inr (Some r))))"

definition get_or_not_found :: "env \<Rightarrow> string \<Rightarrow> store \<Rightarrow> store \<times> nat result" where
  "get_or_not_found env gid st =
     (case get_game env gid st of
        (st1, Inl e) \<Rightarrow> (st1, Inl e)
      | (st1, Inr None) \<Rightarrow> (st1, Inl ErrGameNotFound)
      | (st1, Inr (Some r)) \<Rightarrow> (st1, Inr r))"

definition with_game :: "env \<Rightarrow> string \<Rightarrow> store \<Rightarrow> (nat \<Rightarrow> store \<Rightarrow> store \<times> 'a result) \<Rightarrow> store \<times> 'a result" where
  "with_game env gid st k =
     (case get_or_not_found env gid st of (st1, Inl e) \<Rightarrow> (st1, Inl e) | (st1, Inr r) \<Rightarrow> k r st1)"

definition adopt_game :: "env \<Rightarrow> string \<Rightarrow> store \<Rightarrow> store" where
  "adopt_game env gid st =
     (case get_game env gid st of
        (st1, Inr (Some r)) \<Rightarrow> maybe_schedule_bot r (arm_clock env r st1)
      | (st1, _) \<Rightarrow> st1)"

definition create :: "env \<Rightarrow> nat \<Rightarrow> string \<Rightarrow> store \<Rightarrow> store \<times> nat result" where
  "create env numPlayers visibility st =
     (let vis = (if visibility = '''' then VisibilityPrivate else visibility)
      in if vis \<noteq> VisibilityPrivate \<and> vis \<noteq> VisibilityPublic then (st, Inl ErrBadVisibility)
         else let rc = \<lparr>rc_id = ev_id env,
                rc_state = new_game (fresh_colors numPlayers) (default_config (int numPlayers)),
                rc_seats = fresh_seats numPlayers, rc_status = StatusWaiting, rc_visibility = vis,
                rc_rematch = '''', rc_created = ev_now env, rc_draw_by = -1, rc_offer = None\<rparr>
              in case save_new_game (ev_fail env ''SaveNewGame'') (ev_dbnow env) (so_db st) rc of
                   Inl e \<Rightarrow> (st, Inl e)
                 | Inr d \<Rightarrow>
                     let r = so_next st;
                         st1 = (alloc rc st)\<lparr>so_db := d, so_games := (so_games st)(rc_id rc \<mapsto> r)\<rparr>
                     in (ensure_lease env (rc_id rc) (watch env (rc_id rc) st1), Inr r))"

text \<open>One tick of the orphan sweeper and of the cleaner of stale games.\<close>

definition orphanSweepBatch :: nat where "orphanSweepBatch = 20"

definition sweep_orphans :: "env \<Rightarrow> store \<Rightarrow> store" where
  "sweep_orphans env st =
     (if so_leases st = None then st
      else case orphan_playing_games (ev_fail env ''OrphanPlayingGames'') (ev_dbnow env) (so_db st) orphanSweepBatch of
             Inl _ \<Rightarrow> st
           | Inr ids \<Rightarrow> foldl (\<lambda>st gid. adopt_game env gid st) st ids)"

definition StaleWaitingTTL :: duration where "StaleWaitingTTL = 7 * 24 * 3600 * 1000000000"

definition run_stale_cleaner :: "env \<Rightarrow> store \<Rightarrow> store" where
  "run_stale_cleaner env st =
     (case delete_stale_waiting (ev_fail env ''DeleteStaleWaitingGames'') (ev_now env) (so_db st) StaleWaitingTTL of
        Inl _ \<Rightarrow> st
      | Inr (d, _) \<Rightarrow> st\<lparr>so_db := d\<rparr>)"

definition close_store :: "store \<Rightarrow> store" where
  "close_store st = st\<lparr>so_clocks := clock_cancel_all (so_clocks st), so_presence := presence_cancel_all (so_presence st)\<rparr>"

text \<open>
  The heartbeat of the lease manager. Under the manager's lock it forgets the leases that were lost; when it has released the lock, it
  calls back for each of them, in the order in which the map was traversed. In between, other goroutines run: they
  find the leases forgotten, and the clocks and the cache still as they were.
\<close>

definition forget_lost :: "env \<Rightarrow> store \<Rightarrow> store \<times> string set" where
  "forget_lost env st =
     (case so_leases st of
        None \<Rightarrow> (st, {})
      | Some m \<Rightarrow>
          (case renew (ev_lease env) (ev_dbnow env) (db_leases (so_db st)) m of
             (t, m', lost) \<Rightarrow> (st\<lparr>so_leases := Some m', so_db := (so_db st)\<lparr>db_leases := t\<rparr>\<rparr>, lost)))"

definition heartbeat :: "env \<Rightarrow> string list \<Rightarrow> store \<Rightarrow> store" where
  "heartbeat env order st =
     (case forget_lost env st of
        (st', lost) \<Rightarrow> foldl (\<lambda>st gid. on_lost env gid st) st' (filter (\<lambda>gid. gid \<in> lost) order))"

end
