(* ===== verification/Utf8.thy ===== *)
theory Utf8
  imports Prelude
begin

text \<open>
  Text as Go's standard library reads it. A string is a list of bytes; ranging over one yields its characters, \<open>runes\<close>, each given here
  by its bytes, with a replacement character for every byte that is not part of well-formed UTF-8. \<open>strings.TrimSpace\<close>
  works on the characters as they are in the string, \<open>chunks\<close>.
\<close>

definition byte :: "char \<Rightarrow> nat" where
  "byte c = of_char c"

definition byte_in :: "nat \<Rightarrow> nat \<Rightarrow> char \<Rightarrow> bool" where
  "byte_in lo hi c \<longleftrightarrow> lo \<le> byte c \<and> byte c \<le> hi"

text \<open>The length of the character at the front, zero if the first byte does not start one (\<open>unicode/utf8\<close>).\<close>

definition front_len :: "string \<Rightarrow> nat" where
  "front_len s =
     (case s of
        [] \<Rightarrow> 0
      | c # s1 \<Rightarrow>
          if byte_in 0 0x7F c then 1
          else if byte_in 0xC2 0xDF c then (case s1 of c1 # _ \<Rightarrow> if byte_in 0x80 0xBF c1 then 2 else 0 | _ \<Rightarrow> 0)
          else if byte_in 0xE0 0xEF c then
            (case s1 of
               c1 # c2 # _ \<Rightarrow>
                 if byte_in (if byte c = 0xE0 then 0xA0 else 0x80) (if byte c = 0xED then 0x9F else 0xBF) c1 \<and> byte_in 0x80 0xBF c2
                 then 3 else 0
             | _ \<Rightarrow> 0)
          else if byte_in 0xF0 0xF4 c then
            (case s1 of
               c1 # c2 # c3 # _ \<Rightarrow>
                 if byte_in (if byte c = 0xF0 then 0x90 else 0x80) (if byte c = 0xF4 then 0x8F else 0xBF) c1
                   \<and> byte_in 0x80 0xBF c2 \<and> byte_in 0x80 0xBF c3
                 then 4 else 0
             | _ \<Rightarrow> 0)
          else 0)"

text \<open>The characters as they are in the string; a stray byte is one of its own.\<close>

function chunks :: "string \<Rightarrow> string list" where
  "chunks [] = []"
| "chunks (c # s) = (let n = front_len (c # s) - 1 in (c # take n s) # chunks (drop n s))"
  by pat_completeness auto
termination by (relation "measure length") auto

definition stray :: "string \<Rightarrow> bool" where
  "stray ch \<longleftrightarrow> (case ch of [c] \<Rightarrow> 0x80 \<le> byte c | _ \<Rightarrow> False)"

definition RuneError :: string where
  "RuneError = [CHR 0xEF, CHR 0xBF, CHR 0xBD]"

definition runes :: "string \<Rightarrow> string list" where
  "runes s = map (\<lambda>ch. if stray ch then RuneError else ch) (chunks s)"

text \<open>What is left of a text that was read character by character: JSON does this to the strings it writes.\<close>

definition to_valid :: "string \<Rightarrow> string" where
  "to_valid s = concat (runes s)"

function utf8_valid :: "string \<Rightarrow> bool" where
  "utf8_valid [] = True"
| "utf8_valid (c # s) = (let n = front_len (c # s) in n \<noteq> 0 \<and> utf8_valid (drop (n - 1) s))"
  by pat_completeness auto
termination by (relation "measure length") auto

section \<open>White space\<close>

definition between :: "('a \<Rightarrow> bool) \<Rightarrow> 'a list \<Rightarrow> 'a list" where
  "between blank xs = rev (dropWhile blank (rev (dropWhile blank xs)))"

definition unicode_spaces :: "string list" where
  "unicode_spaces =
     [[CHR 0x09], [CHR 0x0A], [CHR 0x0B], [CHR 0x0C], [CHR 0x0D], [CHR 0x20], [CHR 0xC2, CHR 0x85], [CHR 0xC2, CHR 0xA0],
      [CHR 0xE1, CHR 0x9A, CHR 0x80]]
     @ map (\<lambda>n. [CHR 0xE2, CHR 0x80, char_of n]) ([0x80 ..< 0x8B] @ [0xA8, 0xA9, 0xAF])
     @ [[CHR 0xE2, CHR 0x81, CHR 0x9F], [CHR 0xE3, CHR 0x80, CHR 0x80]]"

definition trim_space :: "string \<Rightarrow> string" where
  "trim_space s = concat (between (\<lambda>ch. ch \<in> set unicode_spaces) (chunks s))"

section \<open>Facts\<close>

lemma length_chunks: "length (chunks s) \<le> length s"
  by (induction s rule: chunks.induct) (auto simp: Let_def)

lemma concat_chunks [simp]: "concat (chunks s) = s"
  by (induction s rule: chunks.induct) (simp_all add: Let_def)

lemma chunks_not_empty: "ch \<in> set (chunks s) \<Longrightarrow> ch \<noteq> []"
  by (induction s rule: chunks.induct) (auto simp: Let_def)

lemma front_len_ascii: "byte c < 0x80 \<Longrightarrow> front_len (c # s) = 1"
  by (simp add: front_len_def byte_in_def)

lemma chunks_ascii: "list_all (\<lambda>c. byte c < 0x80) s \<Longrightarrow> chunks s = map (\<lambda>c. [c]) s"
  by (induction s) (simp_all add: front_len_ascii)

lemma runes_ascii: "list_all (\<lambda>c. byte c < 0x80) s \<Longrightarrow> runes s = map (\<lambda>c. [c]) s"
  by (auto simp: runes_def chunks_ascii stray_def list_all_iff)

lemma to_valid_ascii: "list_all (\<lambda>c. byte c < 0x80) s \<Longrightarrow> to_valid s = s"
  by (simp add: to_valid_def runes_ascii)

lemma front_len_stray: "front_len (c # s) = 0 \<Longrightarrow> 0x80 \<le> byte c"
  using front_len_ascii [of c s] by (cases "byte c < 0x80") auto

lemma front_len_one: "front_len (c # s) = Suc 0 \<Longrightarrow> byte c < 0x80"
  by (auto simp: front_len_def byte_in_def split: if_splits list.splits)

lemma front_len_bound: "front_len s \<le> length s"
  by (auto simp: front_len_def split: list.split)

text \<open>Well-formed text is read back as it is.\<close>

lemma stray_front: "front_len (c # s) \<noteq> 0 \<Longrightarrow> \<not> stray (c # take (front_len (c # s) - 1) s)"
  using front_len_bound [of "c # s"] front_len_one [of c s]
  by (cases "front_len (c # s)") (auto simp: stray_def split: list.split)

lemma to_valid_id: "utf8_valid s \<Longrightarrow> to_valid s = s"
proof (induction s rule: utf8_valid.induct)
  case (2 c s)
  then show ?case using stray_front [of c s] by (simp add: to_valid_def runes_def Let_def)
qed (simp add: to_valid_def runes_def)

lemma between_none: "list_all (\<lambda>x. \<not> blank x) xs \<Longrightarrow> between blank xs = xs"
proof -
  have "dropWhile blank ys = ys" if "list_all (\<lambda>x. \<not> blank x) ys" for ys using that by (cases ys) simp_all
  then show "list_all (\<lambda>x. \<not> blank x) xs \<Longrightarrow> between blank xs = xs" by (simp add: between_def)
qed

text \<open>A text of printing ASCII characters is left as it is.\<close>

lemma not_space: "0x20 < byte c \<Longrightarrow> [c] \<notin> set unicode_spaces"
  by (auto simp: unicode_spaces_def byte_def)

lemma trim_space_print: "list_all (\<lambda>c. 0x20 < byte c \<and> byte c < 0x80) s \<Longrightarrow> trim_space s = s"
  by (subst concat_chunks [of s, symmetric], simp only: trim_space_def, rule arg_cong [where f = concat], rule between_none)
    (auto simp: chunks_ascii list_all_iff not_space)

lemma trim_space_Nil [simp]: "trim_space '''' = ''''"
  by (simp add: trim_space_def between_def)

end
