(* ===== verification/Room.thy ===== *)
theory Room
  imports Store Utf8
begin

text \<open>
  The waiting room of a game, \<open>internal/server/store.go\<close>: seats are claimed, given to bots, reserved for
  invited users and freed, and the game starts. As in the code the record is changed first and
  persisted after, so a failed write returns an error with the change already in memory.
\<close>

section \<open>Shared pieces\<close>

definition seat_at :: "game_record \<Rightarrow> int \<Rightarrow> seat" where
  "seat_at rc i = rc_seats rc ! nat i"

definition put_seat :: "game_record \<Rightarrow> int \<Rightarrow> seat \<Rightarrow> game_record" where
  "put_seat rc i s = rc\<lparr>rc_seats := (rc_seats rc)[nat i := s]\<rparr>"

definition vacate :: "seat \<Rightarrow> seat" where
  "vacate s = s\<lparr>st_name := '''', st_user := '''', st_hash := '''', st_occupied := False, st_bot := False\<rparr>"

text \<open>The last seat taken starts the game.\<close>

definition start_if_full :: "env \<Rightarrow> game_record \<Rightarrow> game_record \<times> bool" where
  "start_if_full env rc =
     (if all_seated rc
      then (rc\<lparr>rc_status := StatusPlaying, rc_state := start_clock (rc_state rc) (ev_now env)\<rparr>, True)
      else (rc, False))"

definition persist_seat :: "env \<Rightarrow> nat \<Rightarrow> int \<Rightarrow> store \<Rightarrow> store \<times> unit result" where
  "persist_seat env r i st =
     (let rc = rec_of st r
      in case update_seat (ev_fail env ''UpdateSeat'') (ev_dbnow env) (so_db st) (rc_id rc) (seat_at rc i) (rc_status rc) of
           Inl e \<Rightarrow> (st, Inl e)
         | Inr d \<Rightarrow> (st\<lparr>so_db := d\<rparr>, Inr ()))"

text \<open>The guards of the five operations on the seats of a private waiting game.\<close>

definition private_seat_guard :: "game_record \<Rightarrow> int \<Rightarrow> app_error option" where
  "private_seat_guard rc i =
     (if rc_status rc \<noteq> StatusWaiting then Some ErrNotPlaying
      else if rc_visibility rc \<noteq> VisibilityPrivate then Some ErrBotsOnPublic
      else if i < 0 \<or> i \<ge> int (length (rc_seats rc)) then Some ErrBadSeatIndex
      else None)"

section \<open>Joining and resolving\<close>

definition join_seat :: "game_record \<Rightarrow> string \<Rightarrow> int \<Rightarrow> app_error + int" where
  "join_seat rc user seatIdx =
     (if rc_status rc \<noteq> StatusWaiting then Inl ErrNotPlaying
      else if rc_visibility rc = VisibilityPublic \<and> user = '''' then Inl ErrAnonymousOnPublic
      else if seatIdx < 0
      then let idx = pick_seat_for_user (rc_seats rc) user in if idx < 0 then Inl ErrNoFreeSeat else Inr idx
      else if seatIdx \<ge> int (length (rc_seats rc)) then Inl ErrNoFreeSeat
      else if st_occupied (seat_at rc seatIdx) then Inl ErrSeatTaken
      else if st_user (seat_at rc seatIdx) \<noteq> '''' \<and> st_user (seat_at rc seatIdx) \<noteq> user then Inl ErrSeatReserved
      else Inr seatIdx)"

definition join :: "env \<Rightarrow> string \<Rightarrow> string \<Rightarrow> string \<Rightarrow> int \<Rightarrow> store \<Rightarrow> store \<times> (seat \<times> string) result" where
  "join env gid name user seatIdx st =
     with_game env gid st (\<lambda>r st.
       let rc = rec_of st r
       in case join_seat rc user seatIdx of
            Inl e \<Rightarrow> (st, Inl e)
          | Inr idx \<Rightarrow>
              let token = ev_tokens env 0;
                  s = (seat_at rc idx)\<lparr>st_name := name, st_hash := ev_hash env token, st_user := user,
                                      st_occupied := True\<rparr>;
                  (rc', started) = start_if_full env (put_seat rc idx s);
                  st1 = set_rec r rc' st
              in case persist_seat env r idx st1 of
                   (st2, Inl e) \<Rightarrow> (st2, Inl e)
                 | (st2, Inr _) \<Rightarrow>
                     (if started then spawn (ScheduleBot r) (arm_clock env r st2) else st2, Inr (s, token)))"

definition resolve_seat :: "env \<Rightarrow> string \<Rightarrow> string \<Rightarrow> store \<Rightarrow> store \<times> (seat \<times> string) result" where
  "resolve_seat env gid user st =
     (if user = '''' then (st, Inl ErrSeatNotForUser)
      else with_game env gid st (\<lambda>r st.
        let rc = rec_of st r
        in case find_index (\<lambda>s. st_occupied s \<and> \<not> st_bot s \<and> st_user s = user) (rc_seats rc) of
             None \<Rightarrow> (st, Inl ErrSeatNotForUser)
           | Some i \<Rightarrow>
               let token = ev_tokens env 0;
                   s = (seat_at rc (int i))\<lparr>st_hash := ev_hash env token\<rparr>
               in case persist_seat env r (int i) (set_rec r (put_seat rc (int i) s) st) of
                    (st2, Inl e) \<Rightarrow> (st2, Inl e)
                  | (st2, Inr _) \<Rightarrow> (st2, Inr (s, token))))"

section \<open>Bots and invitations\<close>

definition add_bot :: "env \<Rightarrow> string \<Rightarrow> int \<Rightarrow> store \<Rightarrow> store \<times> nat result" where
  "add_bot env gid i st =
     with_game env gid st (\<lambda>r st.
       let rc = rec_of st r
       in case private_seat_guard rc i of
            Some e \<Rightarrow> (st, Inl e)
          | None \<Rightarrow>
              if st_occupied (seat_at rc i) then (st, Inl ErrSeatTaken)
              else let s = (seat_at rc i)\<lparr>st_name := bot_name i, st_hash := ev_hash env (ev_tokens env 0),
                                         st_occupied := True, st_bot := True\<rparr>;
                       (rc', started) = start_if_full env (put_seat rc i s);
                       st1 = set_rec r rc' st
                   in case persist_seat env r i st1 of
                        (st2, Inl e) \<Rightarrow> (st2, Inl e)
                      | (st2, Inr _) \<Rightarrow>
                          (if started then maybe_schedule_bot r (arm_clock env r st2) else st2, Inr r))"

text \<open>A guarded change of one seat, persisted.\<close>

definition change_seat :: "env \<Rightarrow> nat \<Rightarrow> int \<Rightarrow> (seat \<Rightarrow> app_error + seat) \<Rightarrow> store \<Rightarrow> store \<times> nat result" where
  "change_seat env r i f st =
     (let rc = rec_of st r
      in case private_seat_guard rc i of
           Some e \<Rightarrow> (st, Inl e)
         | None \<Rightarrow>
             (case f (seat_at rc i) of
                Inl e \<Rightarrow> (st, Inl e)
              | Inr s \<Rightarrow>
                  (case persist_seat env r i (set_rec r (put_seat rc i s) st) of
                     (st2, Inl e) \<Rightarrow> (st2, Inl e)
                   | (st2, Inr _) \<Rightarrow> (st2, Inr r))))"

definition remove_bot :: "env \<Rightarrow> string \<Rightarrow> int \<Rightarrow> store \<Rightarrow> store \<times> nat result" where
  "remove_bot env gid i st =
     with_game env gid st (\<lambda>r. change_seat env r i (\<lambda>s.
       if \<not> st_occupied s \<or> \<not> st_bot s then Inl ErrSeatNotBot
       else Inr (s\<lparr>st_name := '''', st_hash := '''', st_occupied := False, st_bot := False\<rparr>)))"

definition invite_seat :: "env \<Rightarrow> string \<Rightarrow> int \<Rightarrow> string \<Rightarrow> string \<Rightarrow> store \<Rightarrow> store \<times> nat result" where
  "invite_seat env gid i inviteeID inviteeName st =
     (if inviteeID = '''' \<or> inviteeName = '''' then (st, Inl ErrBadSeatIndex)
      else with_game env gid st (\<lambda>r. change_seat env r i (\<lambda>s.
        if st_occupied s then Inl ErrSeatTaken
        else Inr (s\<lparr>st_name := inviteeName, st_user := inviteeID, st_hash := '''', st_occupied := False,
                   st_bot := False\<rparr>))))"

definition cancel_seat_invite :: "env \<Rightarrow> string \<Rightarrow> int \<Rightarrow> store \<Rightarrow> store \<times> nat result" where
  "cancel_seat_invite env gid i st =
     with_game env gid st (\<lambda>r. change_seat env r i (\<lambda>s.
       if st_occupied s \<or> st_bot s \<or> st_user s = '''' then Inl ErrSeatNotInvited else Inr (vacate s)))"

definition decline_seat_invite :: "env \<Rightarrow> string \<Rightarrow> int \<Rightarrow> string \<Rightarrow> store \<Rightarrow> store \<times> nat result" where
  "decline_seat_invite env gid i callerID st =
     (if callerID = '''' then (st, Inl ErrNotInvitee)
      else with_game env gid st (\<lambda>r. change_seat env r i (\<lambda>s.
        if st_occupied s \<or> st_bot s \<or> st_user s = '''' then Inl ErrSeatNotInvited
        else if st_user s \<noteq> callerID then Inl ErrNotInvitee else Inr (vacate s))))"

text \<open>The seat is addressed by the index it carries, not by its place in the slice; an index outside the
  slice would be a panic.\<close>

definition leave_seat :: "env \<Rightarrow> string \<Rightarrow> string \<Rightarrow> store \<Rightarrow> store \<times> nat result" where
  "leave_seat env gid token st =
     with_game env gid st (\<lambda>r st.
       let rc = rec_of st r
       in case seat_by_token (ev_hash env) rc token of
            None \<Rightarrow> (st, Inl ErrBadToken)
          | Some k \<Rightarrow>
              if rc_status rc \<noteq> StatusWaiting then (st, Inl ErrNotPlaying)
              else let s = rc_seats rc ! k; i = st_index s
                   in if i < 0 \<or> i \<ge> int (length (rc_seats rc)) then (st, Inl EnginePanic)
                      else case persist_seat env r i (set_rec r (put_seat rc i (empty_seat i (st_color s))) st) of
                             (st2, Inl e) \<Rightarrow> (st2, Inl e)
                           | (st2, Inr _) \<Rightarrow> (st2, Inr r))"

section \<open>Starting\<close>

definition renumber :: "seat list \<Rightarrow> seat list" where
  "renumber ss = map (\<lambda>(i, s). s\<lparr>st_index := int i\<rparr>) (zip [0..<length ss] ss)"

definition start_internal :: "env \<Rightarrow> nat \<Rightarrow> store \<Rightarrow> store \<times> nat result" where
  "start_internal env r st =
     (let rc = rec_of st r; occupied = filter st_occupied (rc_seats rc)
      in if rc_status rc \<noteq> StatusWaiting then (st, Inl ErrNotPlaying)
         else if length occupied < 2 then (st, Inl ErrTooFewToStart)
         else let seats = renumber occupied;
                  cfg = config_for (int (length occupied)) (gs_config (rc_state rc));
                  rc' = rc\<lparr>rc_seats := seats, rc_status := StatusPlaying,
                           rc_state := start_clock (new_game (map st_color seats) cfg) (ev_now env)\<rparr>;
                  st1 = arm_clock env r (set_rec r rc' st);
                  st2 = swallow (\<lambda>d. finalize_start (ev_fail env ''FinalizeStart'') (ev_dbnow env) d (rc_id rc)
                                      StatusPlaying cfg) st1
              in (maybe_schedule_bot r (notify (OnState (rc_id rc)) st2), Inr r))"

definition start :: "env \<Rightarrow> string \<Rightarrow> string \<Rightarrow> store \<Rightarrow> store \<times> nat result" where
  "start env gid token st =
     with_game env gid st (\<lambda>r st.
       let rc = rec_of st r
       in if rc_visibility rc \<noteq> VisibilityPrivate then (st, Inl ErrPublicCannotStart)
          else if rc_status rc \<noteq> StatusWaiting then (st, Inl ErrNotPlaying)
          else case seat_by_token (ev_hash env) rc token of
                 None \<Rightarrow> (st, Inl ErrBadToken)
               | Some k \<Rightarrow> if st_index (rc_seats rc ! k) \<noteq> 0 then (st, Inl ErrNotHost)
                           else start_internal env r st)"

section \<open>Chat\<close>

definition MaxMessageLength :: nat where "MaxMessageLength = 500"

definition trim_message :: "string \<Rightarrow> string" where
  "trim_message body =
     (let blank = (\<lambda>r. r = '' '' \<or> r = [CHR 0x0A] \<or> r = [CHR 0x0D]);
          out = map (\<lambda>r. if r = [CHR 0x09] then '' '' else r) (runes body)
      in concat (take MaxMessageLength (between blank out)))"

definition post_message :: "env \<Rightarrow> string \<Rightarrow> string \<Rightarrow> string \<Rightarrow> store \<Rightarrow> store \<times> message_row result" where
  "post_message env gid token body0 st =
     (let body = trim_message body0
      in if body = '''' then (st, Inl ErrEmptyMessage)
         else with_game env gid st (\<lambda>r st.
           let rc = rec_of st r
           in case seat_by_token (ev_hash env) rc token of
                None \<Rightarrow> (st, Inl ErrBadToken)
              | Some k \<Rightarrow>
                  let s = rc_seats rc ! k
                  in case append_message (ev_fail env ''AppendMessage'') (ev_dbnow env) (so_db st)
                            \<lparr>ms_game = gid, ms_seat = st_index s, ms_color = st_color s, ms_name = st_name s,
                             ms_body = body, ms_sent = 0\<rparr> of
                       Inl e \<Rightarrow> (st, Inl e)
                     | Inr (d, m) \<Rightarrow> (st\<lparr>so_db := d\<rparr>, Inr m)))"

end
