(* ===== verification/Play.thy ===== *)
theory Play
  imports Room Elo Ai
begin

text \<open>
  A game being played, \<open>internal/server/store.go\<close>, \<open>bot.go\<close>, \<open>draw.go\<close>: moves, the bot's turn,
  resignation, draws, connections, the two timeouts, and the rating of a finished game.
\<close>

section \<open>Rating a finished game\<close>

definition rating_or_default :: "rating_row \<Rightarrow> int" where
  "rating_or_default r = (if rw_games r = 0 then DefaultRating else rw_rating r)"

definition maybe_apply_rating :: "nat \<Rightarrow> store \<Rightarrow> store" where
  "maybe_apply_rating r st =
     (let rc = rec_of st r; seats = rc_seats rc; winner = gs_winner (rc_state rc)
      in if rc_status rc \<noteq> StatusFinished then st
         else if rc_visibility rc \<noteq> VisibilityPublic \<or> length seats < 2 then st
         else if list_ex (\<lambda>s. st_bot s \<or> st_user s = '''') seats then st
         else if length seats = 2 then spawn (Rate1v1 (rc_id rc) seats winner) st
         else if winner \<noteq> Empty then spawn (RateMulti (rc_id rc) seats winner) st
         else st)"

text \<open>The common end of both ratings: profiles for everybody, then the rating transaction.\<close>

definition store_ratings :: "env \<Rightarrow> string \<Rightarrow> string \<Rightarrow> seat list \<Rightarrow> rating_update list \<Rightarrow> store \<Rightarrow> store" where
  "store_ratings env gid mode seats updates st =
     (let st1 = foldl (\<lambda>st s. swallow (\<lambda>d. ensure_profile (ev_fail env ''EnsureProfile'') d (st_user s) (st_name s)) st)
                  st seats
      in case apply_rated_game (ev_fail env ''ApplyRatedGame'') (ev_dbnow env) (so_db st1) gid mode updates of
           Inl _ \<Rightarrow> st1
         | Inr (d, applied) \<Rightarrow>
             (if applied then notify (OnRated gid) (st1\<lparr>so_db := d\<rparr>) else st1\<lparr>so_db := d\<rparr>))"

definition updates_1v1 :: "seat \<Rightarrow> seat \<Rightarrow> int \<Rightarrow> int \<Rightarrow> color \<Rightarrow> rating_update list" where
  "updates_1v1 a b rA rB winner =
     (let (oa, ob, ca, cb) =
            (if winner = st_color a then (Win, Loss, CHR ''W'', CHR ''L'')
             else if winner = st_color b then (Loss, Win, CHR ''L'', CHR ''W'')
             else (Draw, Draw, CHR ''D'', CHR ''D''))
      in [\<lparr>ru_user = st_user a, ru_old = rA, ru_new = Elo.update rA rB oa, ru_result = ca\<rparr>,
          \<lparr>ru_user = st_user b, ru_old = rB, ru_new = Elo.update rB rA ob, ru_result = cb\<rparr>])"

definition apply_rating_1v1 :: "env \<Rightarrow> string \<Rightarrow> seat list \<Rightarrow> color \<Rightarrow> store \<Rightarrow> store" where
  "apply_rating_1v1 env gid seats winner st =
     (let a = seats ! 0; b = seats ! 1
      in case ratings_for (ev_fail env ''RatingsFor'') (so_db st) [st_user a, st_user b] RatingMode1v1 of
           Inl _ \<Rightarrow> st
         | Inr rs \<Rightarrow>
             if length rs \<noteq> 2 then st
             else store_ratings env gid RatingMode1v1 [a, b]
                    (updates_1v1 a b (rating_or_default (rs ! 0)) (rating_or_default (rs ! 1)) winner) st)"

text \<open>The loop that splits the seats into the winner and the others, in seat order.\<close>

definition split_winner :: "color \<Rightarrow> (seat \<times> int) list \<Rightarrow> (seat \<times> int) option \<times> (seat \<times> int) list" where
  "split_winner winner srs =
     foldl (\<lambda>(w, opps) (s, r). if st_color s = winner then (Some (s, r), opps) else (w, opps @ [(s, r)]))
       (None, []) srs"

definition updates_multi :: "seat list \<Rightarrow> int list \<Rightarrow> seat \<times> int \<Rightarrow> (seat \<times> int) list \<Rightarrow> rating_update list" where
  "updates_multi seats olds w opps =
     (let oldByID = foldl (\<lambda>m (s, r). m(st_user s \<mapsto> r)) Map.empty (zip seats olds)
      in map (\<lambda>res. \<lparr>ru_user = mres_user res,
                ru_old = (case oldByID (mres_user res) of Some r \<Rightarrow> r | None \<Rightarrow> 0),
                ru_new = mres_rating res, ru_result = mres_result res\<rparr>)
           (update_multi (st_user (fst w)) (snd w) (map (st_user \<circ> fst) opps) (map snd opps)))"

definition apply_rating_multi :: "env \<Rightarrow> string \<Rightarrow> seat list \<Rightarrow> color \<Rightarrow> store \<Rightarrow> store" where
  "apply_rating_multi env gid seats winner st =
     (case ratings_for (ev_fail env ''RatingsFor'') (so_db st) (map st_user seats) RatingModeMulti of
        Inl _ \<Rightarrow> st
      | Inr rs \<Rightarrow>
          if length rs \<noteq> length seats then st
          else let olds = map rating_or_default rs
               in case split_winner winner (zip seats olds) of
                    (None, _) \<Rightarrow> st
                  | (Some w, opps) \<Rightarrow>
                      if st_user (fst w) = '''' then st
                      else store_ratings env gid RatingModeMulti seats (updates_multi seats olds w opps) st)"

definition leaderboard_of :: "env \<Rightarrow> string \<Rightarrow> int \<Rightarrow> store \<Rightarrow> leaderboard_entry list result" where
  "leaderboard_of env mode limit st =
     (let limit' = (if limit \<le> 0 \<or> limit > 100 then 50 else limit);
          mode' = (if mode \<noteq> RatingMode1v1 \<and> mode \<noteq> RatingModeMulti then RatingMode1v1 else mode)
      in leaderboard (ev_fail env ''Leaderboard'') (so_db st) mode' (nat limit'))"

section \<open>Moves\<close>

text \<open>The record after an accepted move: a decided game is finished, and any draw offer is gone.\<close>

definition after_move :: "game_record \<Rightarrow> game_state \<Rightarrow> game_record" where
  "after_move rc g = rc\<lparr>rc_state := g, rc_status := (if is_over g then StatusFinished else rc_status rc),
                        rc_draw_by := -1\<rparr>"

definition play_move :: "env \<Rightarrow> string \<Rightarrow> string \<Rightarrow> int \<Rightarrow> int \<Rightarrow> store \<Rightarrow> store \<times> (nat \<times> move_result) result" where
  "play_move env gid token q r0 st =
     with_game env gid st (\<lambda>r st.
       let rc = rec_of st r
       in case seat_by_token (ev_hash env) rc token of
            None \<Rightarrow> (st, Inl ErrBadToken)
          | Some k \<Rightarrow>
              if rc_status rc \<noteq> StatusPlaying then (st, Inl ErrNotPlaying)
              else let m = \<lparr>mv_player = st_color (rc_seats rc ! k), mv_pos = Position q r0\<rparr>
                   in case apply_move (rc_state rc) m (ev_now env) of
                        Fail e \<Rightarrow> (st, Inl (ErrEngine e))
                      | Panic \<Rightarrow> (st, Inl EnginePanic)
                      | Done (g, res) \<Rightarrow>
                          let rc' = after_move rc g; st1 = set_rec r rc' st
                          in case append_move (ev_fail env ''AppendMove'') (ev_dbnow env) (so_db st1) gid
                                    (int (length (gs_history (rc_state rc)))) m (gs_winner g) (gs_kind g) (rc_status rc') of
                               Inl e \<Rightarrow> (st1, Inl e)
                             | Inr d \<Rightarrow>
                                 (case (if rc_draw_by rc \<ge> 0 then save_draw_offer (ev_fail env ''SaveDrawOffer'') d gid (-1)
                                        else Inr d) of
                                    Inl e \<Rightarrow> (st1\<lparr>so_db := d\<rparr>, Inl e)
                                  | Inr d2 \<Rightarrow>
                                      let st2 = arm_clock env r (st1\<lparr>so_db := d2\<rparr>);
                                          st3 = (if is_over g then spawn (AfterEnd gid r) st2 else st2)
                                      in (maybe_schedule_bot r st3, Inr (r, res))))"

text \<open>The bot's turn, on the record its goroutine holds. A rejected move, or a panic, which would end the
  process, changes nothing here; the engine never proposes one.\<close>

definition play_bot_turn :: "env \<Rightarrow> nat \<Rightarrow> store \<Rightarrow> store" where
  "play_bot_turn env r st =
     (let rc = rec_of st r; g0 = rc_state rc; gid = rc_id rc
      in if rc_status rc \<noteq> StatusPlaying \<or> is_over g0 then st
         else if gs_turn g0 \<ge> length (rc_seats rc) then st
         else let s = rc_seats rc ! gs_turn g0
              in if \<not> st_bot s then st
                 else case best_move (ev_intn env) g0 (st_color s) of
                        None \<Rightarrow> st
                      | Some pos \<Rightarrow>
                          let m = \<lparr>mv_player = st_color s, mv_pos = pos\<rparr>
                          in case apply_move g0 m (ev_now env) of
                               Done (g, res) \<Rightarrow>
                                 let rc' = after_move rc g;
                                     st1 = arm_clock env r (set_rec r rc' st);
                                     st2 = swallow (\<lambda>d. append_move (ev_fail env ''AppendMove'') (ev_dbnow env) d gid
                                             (int (length (gs_history g0))) m (gs_winner g) (gs_kind g) (rc_status rc')) st1;
                                     st3 = (if rc_draw_by rc \<ge> 0
                                            then swallow (\<lambda>d. save_draw_offer (ev_fail env ''SaveDrawOffer'') d gid (-1)) st2
                                            else st2)
                                 in maybe_schedule_bot r (notify (OnMove gid res) st3)
                             | _ \<Rightarrow> st)"

section \<open>Draws\<close>

definition publish_draw_offer :: "env \<Rightarrow> string \<Rightarrow> int \<Rightarrow> store \<Rightarrow> store \<times> unit result" where
  "publish_draw_offer env gid by_seat st =
     (case save_draw_offer (ev_fail env ''SaveDrawOffer'') (so_db st) gid by_seat of
        Inl e \<Rightarrow> (st, Inl e)
      | Inr d \<Rightarrow> (notify (OnDrawOffer gid by_seat) (st\<lparr>so_db := d\<rparr>), Inr ()))"

definition offer_draw :: "env \<Rightarrow> string \<Rightarrow> string \<Rightarrow> store \<Rightarrow> store \<times> nat result" where
  "offer_draw env gid token st =
     with_game env gid st (\<lambda>r st.
       let rc = rec_of st r
       in if length (rc_seats rc) \<noteq> 2 then (st, Inl ErrDrawUnsupported)
          else case seat_by_token (ev_hash env) rc token of
                 None \<Rightarrow> (st, Inl ErrBadToken)
               | Some k \<Rightarrow>
                   let i = st_index (rc_seats rc ! k)
                   in if rc_status rc \<noteq> StatusPlaying then (st, Inl ErrNotPlaying)
                      else if rc_draw_by rc \<ge> 0
                      then (if rc_draw_by rc = i then (st, Inr r) else (st, Inl ErrDrawAlreadyOffered))
                      else case publish_draw_offer env gid i (set_rec r (rc\<lparr>rc_draw_by := i\<rparr>) st) of
                             (st2, Inl e) \<Rightarrow> (st2, Inl e)
                           | (st2, Inr _) \<Rightarrow> (st2, Inr r))"

definition record_outcome :: "env \<Rightarrow> string \<Rightarrow> nat \<Rightarrow> store \<Rightarrow> db result" where
  "record_outcome env gid r st =
     update_outcome (ev_fail env ''UpdateOutcome'') (ev_dbnow env) (so_db st) gid StatusFinished
       (gs_winner (rc_state (rec_of st r))) (gs_kind (rc_state (rec_of st r))) (lease_epoch st gid)"

definition accept_draw :: "env \<Rightarrow> string \<Rightarrow> string \<Rightarrow> store \<Rightarrow> store \<times> nat result" where
  "accept_draw env gid token st =
     with_game env gid st (\<lambda>r st.
       let rc = rec_of st r
       in case seat_by_token (ev_hash env) rc token of
            None \<Rightarrow> (st, Inl ErrBadToken)
          | Some k \<Rightarrow>
              if rc_status rc \<noteq> StatusPlaying then (st, Inl ErrNotPlaying)
              else if rc_draw_by rc < 0 then (st, Inl ErrDrawNotOffered)
              else if rc_draw_by rc = st_index (rc_seats rc ! k) then (st, Inl ErrCannotAcceptOwnDrawOffer)
              else let rc' = rc\<lparr>rc_state := agree_draw (rc_state rc), rc_status := StatusFinished, rc_draw_by := -1\<rparr>;
                       st1 = game_ended gid (set_rec r rc' st);
                       st2 = (case record_outcome env gid r st1 of Inl _ \<Rightarrow> st1 | Inr d \<Rightarrow> st1\<lparr>so_db := d\<rparr>);
                       st3 = fst (publish_draw_offer env gid (-1) st2)
                   in (notify (OnState gid) (maybe_apply_rating r st3), Inr r))"

definition decline_draw :: "env \<Rightarrow> string \<Rightarrow> string \<Rightarrow> store \<Rightarrow> store \<times> nat result" where
  "decline_draw env gid token st =
     with_game env gid st (\<lambda>r st.
       let rc = rec_of st r
       in case seat_by_token (ev_hash env) rc token of
            None \<Rightarrow> (st, Inl ErrBadToken)
          | Some _ \<Rightarrow>
              if rc_status rc \<noteq> StatusPlaying then (st, Inl ErrNotPlaying)
              else if rc_draw_by rc < 0 then (st, Inl ErrDrawNotOffered)
              else case publish_draw_offer env gid (-1) (set_rec r (rc\<lparr>rc_draw_by := -1\<rparr>) st) of
                     (st2, Inl e) \<Rightarrow> (st2, Inl e)
                   | (st2, Inr _) \<Rightarrow> (st2, Inr r))"

section \<open>Resignation\<close>

definition resign_game :: "env \<Rightarrow> string \<Rightarrow> string \<Rightarrow> store \<Rightarrow> store \<times> nat result" where
  "resign_game env gid token st =
     with_game env gid st (\<lambda>r st.
       let rc = rec_of st r
       in case seat_by_token (ev_hash env) rc token of
            None \<Rightarrow> (st, Inl ErrBadToken)
          | Some k \<Rightarrow>
              if rc_status rc \<noteq> StatusPlaying then (st, Inl ErrNotPlaying)
              else let rc' = rc\<lparr>rc_state := resign (rc_state rc) (st_color (rc_seats rc ! k)),
                                rc_status := StatusFinished, rc_draw_by := -1\<rparr>;
                       st1 = game_ended gid (set_rec r rc' st);
                       st2 = (case record_outcome env gid r st1 of Inl _ \<Rightarrow> st1 | Inr d \<Rightarrow> st1\<lparr>so_db := d\<rparr>);
                       st3 = (if rc_draw_by rc \<ge> 0 then fst (publish_draw_offer env gid (-1) st2) else st2)
                   in (notify (OnState gid) (maybe_apply_rating r st3), Inr r))"

section \<open>Timeouts\<close>

text \<open>What both timeout handlers do once the loser is known. A write that is fenced off means the game has
  another owner: the cached record is dropped and nothing is announced.\<close>

definition forfeit_seat :: "env \<Rightarrow> string \<Rightarrow> nat \<Rightarrow> color \<Rightarrow> store \<Rightarrow> store" where
  "forfeit_seat env gid r loser st =
     (let rc = rec_of st r;
          rc' = rc\<lparr>rc_state := forfeit (rc_state rc) loser, rc_status := StatusFinished\<rparr>;
          st1 = game_ended gid (set_rec r rc' st)
      in case record_outcome env gid r st1 of
           Inl ErrStaleLease \<Rightarrow> invalidate env gid st1
         | Inl _ \<Rightarrow> notify (OnState gid) (maybe_apply_rating r st1)
         | Inr d \<Rightarrow> notify (OnState gid) (maybe_apply_rating r (st1\<lparr>so_db := d\<rparr>)))"

definition handle_flag :: "env \<Rightarrow> string \<Rightarrow> store \<Rightarrow> store" where
  "handle_flag env gid st =
     (case so_games st gid of
        None \<Rightarrow> st
      | Some r \<Rightarrow>
          let rc = rec_of st r
          in if is_over (rc_state rc) \<or> rc_status rc \<noteq> StatusPlaying then st
             else if remaining_for_active (rc_state rc) (ev_now env) > 0 then st
             else forfeit_seat env gid r (pl_color (current_player (rc_state rc))) st)"

definition handle_disconnect_timeout :: "env \<Rightarrow> string \<Rightarrow> int \<Rightarrow> store \<Rightarrow> store" where
  "handle_disconnect_timeout env gid seatIndex st =
     (case so_games st gid of
        None \<Rightarrow> st
      | Some r \<Rightarrow>
          let rc = rec_of st r
          in if is_over (rc_state rc) \<or> rc_status rc \<noteq> StatusPlaying then st
             else if seatIndex < 0 \<or> seatIndex \<ge> int (length (rc_seats rc)) then st
             else forfeit_seat env gid r (st_color (seat_at rc seatIndex)) st)"

section \<open>Connections\<close>

definition conns :: "store \<Rightarrow> string \<Rightarrow> int \<Rightarrow> int" where
  "conns st gid i = (case so_refs st gid of Some m \<Rightarrow> m i | None \<Rightarrow> 0)"

definition set_conns :: "string \<Rightarrow> int \<Rightarrow> int \<Rightarrow> store \<Rightarrow> store" where
  "set_conns gid i n st =
     st\<lparr>so_refs := (so_refs st)(gid \<mapsto> (case so_refs st gid of Some m \<Rightarrow> m | None \<Rightarrow> (\<lambda>_. 0))(i := n))\<rparr>"

definition seat_connected :: "string \<Rightarrow> int \<Rightarrow> store \<Rightarrow> store" where
  "seat_connected gid i st =
     (let prev = conns st gid i; st1 = set_conns gid i (prev + 1) st
      in if prev = 0
         then notify (OnPresence gid i True) (st1\<lparr>so_presence := presence_cancel gid i (so_presence st1)\<rparr>)
         else st1)"

definition seat_disconnected :: "env \<Rightarrow> string \<Rightarrow> int \<Rightarrow> store \<Rightarrow> store" where
  "seat_disconnected env gid i st =
     (let prev = conns st gid i
      in if so_refs st gid = None \<or> prev \<le> 0 then st
         else let st1 = set_conns gid i (prev - 1) st
              in if prev - 1 \<noteq> 0 then st1
                 else notify (OnPresence gid i False)
                        (st1\<lparr>so_presence := presence_schedule gid i (so_grace st1) (ev_now env) (so_presence st1)\<rparr>))"

definition seat_online :: "store \<Rightarrow> string \<Rightarrow> int \<Rightarrow> bool" where
  "seat_online st gid i = (case so_refs st gid of Some m \<Rightarrow> m i > 0 | None \<Rightarrow> False)"

section \<open>Goroutines\<close>

definition run_task :: "env \<Rightarrow> task \<Rightarrow> store \<Rightarrow> store" where
  "run_task env t st =
     (case t of
        Adopt gid \<Rightarrow> adopt_game env gid st
      | ScheduleBot r \<Rightarrow> maybe_schedule_bot r st
      | BotTurn r \<Rightarrow> play_bot_turn env r st
      | AfterEnd gid r \<Rightarrow> maybe_apply_rating r (game_ended gid st)
      | Rate1v1 gid seats w \<Rightarrow> apply_rating_1v1 env gid seats w st
      | RateMulti gid seats w \<Rightarrow> apply_rating_multi env gid seats w st)"

end
