(* ===== verification/Rematch.thy ===== *)
theory Rematch
  imports Play
begin

text \<open>
  The rematch flow, \<open>internal/server/rematch.go\<close>: acceptances are merged in the database, and once
  every human seat has accepted a follow-up game is created and linked to the original.
\<close>

section \<open>The offer\<close>

definition seat_positions :: "(seat \<Rightarrow> bool) \<Rightarrow> game_record \<Rightarrow> int list" where
  "seat_positions P rc = map fst (filter (\<lambda>(i, s). P s) (zip (map int [0..<length (rc_seats rc)]) (rc_seats rc)))"

definition needed_rematch_seats :: "game_record \<Rightarrow> int list" where
  "needed_rematch_seats rc = seat_positions (\<lambda>s. st_occupied s \<and> \<not> st_bot s) rc"

definition bot_seats :: "game_record \<Rightarrow> int list" where
  "bot_seats rc = seat_positions (\<lambda>s. st_occupied s \<and> st_bot s) rc"

definition new_rematch_offer :: "env \<Rightarrow> game_record \<Rightarrow> rematch_offer" where
  "new_rematch_offer env rc = \<lparr>ro_accepted = set (bot_seats rc), ro_created = ev_now env\<rparr>"

definition rematch_offer_complete :: "game_record \<Rightarrow> bool" where
  "rematch_offer_complete rc =
     (case rc_offer rc of
        None \<Rightarrow> False
      | Some ro \<Rightarrow> list_all (\<lambda>i. i \<in> ro_accepted ro) (needed_rematch_seats rc))"

section \<open>The follow-up game\<close>

definition rematch_seat :: "env \<Rightarrow> nat \<Rightarrow> seat \<Rightarrow> seat" where
  "rematch_seat env i prior =
     (let s = empty_seat (int i) (int i + 1)
      in if \<not> st_occupied prior then s
         else if st_bot prior
         then s\<lparr>st_name := bot_name (int i), st_hash := ev_hash env (ev_tokens env i), st_occupied := True, st_bot := True\<rparr>
         else if st_user prior \<noteq> ''''
         then s\<lparr>st_name := st_name prior, st_user := st_user prior, st_occupied := True\<rparr>
         else s)"

definition rematch_record :: "env \<Rightarrow> game_record \<Rightarrow> game_record" where
  "rematch_record env orig =
     (let n = length (rc_seats orig);
          seats = map (\<lambda>i. rematch_seat env i (rc_seats orig ! i)) [0..<n];
          status = (if list_all st_occupied seats then StatusPlaying else StatusWaiting);
          g = new_game (fresh_colors n) (config_for (int n) (gs_config (rc_state orig)))
      in \<lparr>rc_id = ev_id env, rc_state = (if status = StatusPlaying then start_clock g (ev_now env) else g),
          rc_seats = seats, rc_status = status, rc_visibility = rc_visibility orig, rc_rematch = '''',
          rc_created = ev_now env, rc_draw_by = -1, rc_offer = None\<rparr>)"

definition link_rematch :: "nat \<Rightarrow> string \<Rightarrow> store \<Rightarrow> store" where
  "link_rematch r new_id st = set_rec r ((rec_of st r)\<lparr>rc_rematch := new_id\<rparr>) st"

text \<open>The part of \<open>Rematch\<close> after the early returns: the record is saved, the link is written, and whoever
  wrote it first wins. The record that is returned may be missing when the winner cannot be loaded.\<close>

definition rematch_create :: "env \<Rightarrow> string \<Rightarrow> nat \<Rightarrow> store \<Rightarrow> store \<times> nat option result" where
  "rematch_create env originalID r st =
     (let rc = rematch_record env (rec_of st r)
      in case save_new_game (ev_fail env ''SaveNewGame'') (ev_dbnow env) (so_db st) rc of
           Inl e \<Rightarrow> (st, Inl e)
         | Inr d1 \<Rightarrow>
             (case set_rematch_link (ev_fail env ''SetRematchLink'') d1 originalID (rc_id rc) of
                Inl e \<Rightarrow> (st\<lparr>so_db := d1\<rparr>, Inl e)
              | Inr (d2, winnerID) \<Rightarrow>
                  let st1 = st\<lparr>so_db := d2\<rparr>
                  in if winnerID \<noteq> rc_id rc
                     then (case so_games st1 winnerID of
                             Some r' \<Rightarrow> (link_rematch r winnerID st1, Inr (Some r'))
                           | None \<Rightarrow> get_game env winnerID (link_rematch r winnerID st1))
                     else let n = so_next st1;
                              st2 = link_rematch r winnerID
                                      ((alloc rc st1)\<lparr>so_games := (so_games st1)(rc_id rc \<mapsto> n)\<rparr>)
                          in (if rc_status rc = StatusPlaying then spawn (ScheduleBot n) (arm_clock env n st2) else st2,
                              Inr (Some n))))"

definition rematch :: "env \<Rightarrow> string \<Rightarrow> store \<Rightarrow> store \<times> nat option result" where
  "rematch env originalID st =
     with_game env originalID st (\<lambda>r st.
       let orig = rec_of st r
       in if rc_status orig \<noteq> StatusFinished then (st, Inl ErrNotFinished)
          else if rc_rematch orig = '''' then rematch_create env originalID r st
          else case get_game env (rc_rematch orig) st of
                 (st1, Inl e) \<Rightarrow> (st1, Inl e)
               | (st1, Inr (Some r')) \<Rightarrow> (st1, Inr (Some r'))
               | (st1, Inr None) \<Rightarrow> rematch_create env originalID r st1)"

section \<open>Accepting and declining\<close>

definition clear_offer :: "env \<Rightarrow> string \<Rightarrow> store \<Rightarrow> store" where
  "clear_offer env gid st = swallow (\<lambda>d. save_rematch_offer (ev_fail env ''SaveRematchOffer'') d gid None) st"

definition finish_offer :: "env \<Rightarrow> string \<Rightarrow> nat \<Rightarrow> nat option \<Rightarrow> store \<Rightarrow> store" where
  "finish_offer env gid r new st =
     (let rc = rec_of st r;
          rc' = (case new of Some n \<Rightarrow> rc\<lparr>rc_rematch := rc_id (rec_of st n)\<rparr> | None \<Rightarrow> rc)\<lparr>rc_offer := None\<rparr>
      in clear_offer env gid (set_rec r rc' st))"

definition offer_rematch :: "env \<Rightarrow> string \<Rightarrow> string \<Rightarrow> store \<Rightarrow> store \<times> nat result" where
  "offer_rematch env gid token st =
     with_game env gid st (\<lambda>r st.
       let rc = rec_of st r
       in if rc_status rc \<noteq> StatusFinished then (st, Inl ErrNotFinished)
          else if rc_rematch rc \<noteq> '''' then (st, Inr r)
          else case seat_by_token (ev_hash env) rc token of
                 None \<Rightarrow> (st, Inl ErrBadToken)
               | Some k \<Rightarrow>
                   (case merge_rematch_acceptance (ev_fail env ''MergeRematchAcceptance'') (ev_now env) (so_db st) gid
                           (st_index (rc_seats rc ! k)) (bot_seats rc) of
                      Inl e \<Rightarrow> (st, Inl e)
                    | Inr (d, merged) \<Rightarrow>
                        let rc1 = rc\<lparr>rc_offer := Some merged\<rparr>; st1 = set_rec r rc1 (st\<lparr>so_db := d\<rparr>)
                        in if \<not> rematch_offer_complete rc1 then (st1, Inr r)
                           else case rematch env gid st1 of
                                  (st2, Inl e) \<Rightarrow> (st2, Inl e)
                                | (st2, Inr new) \<Rightarrow> (finish_offer env gid r new st2, Inr r)))"

definition decline_rematch :: "env \<Rightarrow> string \<Rightarrow> string \<Rightarrow> store \<Rightarrow> store \<times> nat result" where
  "decline_rematch env gid token st =
     with_game env gid st (\<lambda>r st.
       let rc = rec_of st r
       in if rc_status rc \<noteq> StatusFinished then (st, Inl ErrNotFinished)
          else if seat_by_token (ev_hash env) rc token = None then (st, Inl ErrBadToken)
          else if rc_offer rc = None then (st, Inl ErrNoRematchOffer)
          else (clear_offer env gid (set_rec r (rc\<lparr>rc_offer := None\<rparr>) st), Inr r))"

end
