(* ===== verification/Store_Props.thy ===== *)
theory Store_Props
  imports Rematch
begin

text \<open>
  The store as a state machine: every request, timer, goroutine, heartbeat and every change another
  process makes to the database. Records only move forward, the cache stays coherent, and the clocks
  that run belong to games this process owns.
\<close>

section \<open>Progress of a record\<close>

definition rank :: "status \<Rightarrow> nat" where
  "rank s = (if s = StatusFinished then 2 else if s = StatusPlaying then 1 else 0)"

text \<open>A record keeps its id, its status only moves forward, a finished game keeps its state, and a game
  being played keeps its configuration and extends its history.\<close>

definition evolves :: "game_record \<Rightarrow> game_record \<Rightarrow> bool" where
  "evolves rc rc' \<longleftrightarrow> rc_id rc' = rc_id rc \<and> rank (rc_status rc) \<le> rank (rc_status rc')
     \<and> (rc_status rc = StatusFinished \<longrightarrow> rc_state rc' = rc_state rc)
     \<and> (rc_status rc = StatusPlaying \<longrightarrow> gs_config (rc_state rc') = gs_config (rc_state rc)
          \<and> (\<exists>ms. gs_history (rc_state rc') = gs_history (rc_state rc) @ ms))"

lemma rank_simps [simp]: "rank StatusFinished = 2" "rank StatusPlaying = 1" "rank StatusWaiting = 0"
  by (simp_all add: rank_def)

lemma rank_finished: "rank (rc_status rc) = 2 \<longleftrightarrow> rc_status rc = StatusFinished"
  by (simp add: rank_def)

lemma evolves_refl [simp]: "evolves rc rc"
  by (simp add: evolves_def)

lemma evolves_trans: "evolves a b \<Longrightarrow> evolves b c \<Longrightarrow> evolves a c"
proof -
  assume ab: "evolves a b" and bc: "evolves b c"
  have fin: "rc_status b = StatusFinished" if "rc_status a = StatusFinished"
  proof -
    have "2 \<le> rank (rc_status b)" using ab that by (simp add: evolves_def)
    then show ?thesis by (simp add: rank_def split: if_splits)
  qed
  have play: "rc_status b = StatusPlaying \<or> rc_status b = StatusFinished" if "rc_status a = StatusPlaying"
  proof -
    have "1 \<le> rank (rc_status b)" using ab that by (simp add: evolves_def)
    then show ?thesis by (simp add: rank_def split: if_splits)
  qed
  show ?thesis
    unfolding evolves_def
  proof (intro conjI impI)
    show "rc_id c = rc_id a" "rank (rc_status a) \<le> rank (rc_status c)" using ab bc by (simp_all add: evolves_def)
    show "rc_state c = rc_state a" if "rc_status a = StatusFinished"
      using ab bc that fin by (simp add: evolves_def)
    assume p: "rc_status a = StatusPlaying"
    have "gs_config (rc_state c) = gs_config (rc_state b) \<and> (\<exists>ms. gs_history (rc_state c) = gs_history (rc_state b) @ ms)"
      using bc play [OF p] by (auto simp: evolves_def)
    then show "gs_config (rc_state c) = gs_config (rc_state a)"
      "\<exists>ms. gs_history (rc_state c) = gs_history (rc_state a) @ ms"
      using ab p by (auto simp: evolves_def)
  qed
qed

text \<open>Changing anything but the id, the status and the state.\<close>

lemma evolves_frame: "rc_id rc' = rc_id rc \<Longrightarrow> rc_status rc' = rc_status rc \<Longrightarrow> rc_state rc' = rc_state rc
    \<Longrightarrow> evolves rc rc'"
  by (simp add: evolves_def)

section \<open>Good changes of the store\<close>

definition progress :: "store \<Rightarrow> store \<Rightarrow> bool" where
  "progress st st' \<longleftrightarrow> so_next st \<le> so_next st' \<and> (\<forall>r < so_next st. evolves (rec_of st r) (rec_of st' r))"

definition cache_ok :: "store \<Rightarrow> bool" where
  "cache_ok st \<longleftrightarrow> (\<forall>gid r. so_games st gid = Some r \<longrightarrow> r < so_next st \<and> rc_id (rec_of st r) = gid)"

definition clocks_owned :: "store \<Rightarrow> bool" where
  "clocks_owned st \<longleftrightarrow> (\<forall>gid. tm_cancels (so_clocks st) gid \<noteq> None \<longrightarrow> owns_game st gid)"

text \<open>
  What any change keeps, and what an operation that runs from beginning to end with no other in between keeps besides: that a
  clock only runs for a game the process owns.
\<close>

definition forward_only :: "store \<Rightarrow> store \<Rightarrow> bool" where
  "forward_only st st' \<longleftrightarrow> progress st st' \<and> (cache_ok st \<longrightarrow> cache_ok st')"

definition good :: "store \<Rightarrow> store \<Rightarrow> bool" where
  "good st st' \<longleftrightarrow> forward_only st st' \<and> (clocks_owned st \<longrightarrow> clocks_owned st')"

lemma progress_trans: "progress a b \<Longrightarrow> progress b c \<Longrightarrow> progress a c"
  unfolding progress_def using evolves_trans by (meson order_trans less_le_trans)

lemma good_refl [simp]: "good st st"
  by (simp add: good_def forward_only_def progress_def)

lemma good_trans: "good a b \<Longrightarrow> good b c \<Longrightarrow> good a c"
  unfolding good_def forward_only_def using progress_trans by blast

text \<open>What the primitives leave unchanged.\<close>

lemma heap_frame [simp]:
  "rec_of (spawn t st) = rec_of st" "rec_of (notify n st) = rec_of st" "rec_of (swallow f st) = rec_of st"
  "rec_of (watch env g st) = rec_of st" "rec_of (unwatch env g st) = rec_of st"
  "rec_of (ensure_lease env g st) = rec_of st" "rec_of (drop_cached env g st) = rec_of st"
  "rec_of (invalidate env g st) = rec_of st" "rec_of (arm_clock env r st) = rec_of st"
  "rec_of (maybe_schedule_bot r st) = rec_of st" "rec_of (game_ended g st) = rec_of st"
  "rec_of (st\<lparr>so_db := d\<rparr>) = rec_of st" "rec_of (on_lost env g st) = rec_of st"
  by (auto simp: rec_of_def fun_eq_iff spawn_def notify_def swallow_def watch_def unwatch_def ensure_lease_def
      drop_cached_def invalidate_def arm_clock_def maybe_schedule_bot_def game_ended_def on_lost_def Let_def
      split: sum.splits option.splits prod.splits)

lemma rec_of_set_rec [simp]: "rec_of (set_rec r rc st) r' = (if r' = r then rc else rec_of st r')"
  by (simp add: rec_of_def set_rec_def)

text \<open>A change of the fields the invariant does not read.\<close>

lemma good_same:
  assumes "so_heap st' = so_heap st" "so_next st' = so_next st" "so_games st' = so_games st"
    "so_clocks st' = so_clocks st" "so_forward st' = so_forward st" "so_leases st' = so_leases st"
  shows "good st st'"
  using assms
  by (simp add: good_def forward_only_def progress_def rec_of_def cache_ok_def clocks_owned_def owns_game_def)

lemma good_db: "good st st' \<Longrightarrow> good st (st'\<lparr>so_db := d\<rparr>)"
  by (rule good_trans, assumption, rule good_same) simp_all

lemma good_spawn: "good st st' \<Longrightarrow> good st (spawn t st')"
  by (rule good_trans, assumption, rule good_same) (simp_all add: spawn_def)

lemma good_notify: "good st st' \<Longrightarrow> good st (notify n st')"
  by (rule good_trans, assumption, rule good_same) (simp_all add: notify_def)

lemma good_swallow: "good st st' \<Longrightarrow> good st (swallow f st')"
  by (rule good_trans, assumption, rule good_same) (simp_all add: swallow_def split: sum.split)

lemma good_watch: "good st st' \<Longrightarrow> good st (watch env g st')"
  by (rule good_trans, assumption, rule good_same) (simp_all add: watch_def)

lemma good_unwatch: "good st st' \<Longrightarrow> good st (unwatch env g st')"
  by (rule good_trans, assumption, rule good_same) (simp_all add: unwatch_def)

lemma good_bot: "good st st' \<Longrightarrow> good st (maybe_schedule_bot r st')"
  by (simp add: maybe_schedule_bot_def good_spawn)

lemma good_set_rec:
  assumes "good st st'" "evolves (rec_of st' r) rc"
  shows "good st (set_rec r rc st')"
proof (rule good_trans [OF assms(1)])
  show "good st' (set_rec r rc st')"
    using assms(2)
    by (auto simp: good_def forward_only_def progress_def cache_ok_def clocks_owned_def owns_game_def)
      (auto simp: set_rec_def evolves_def)
qed

lemma good_drop: "good st st' \<Longrightarrow> good st (drop_cached env g st')"
proof (rule good_trans, assumption)
  have "good st' (st'\<lparr>so_games := (so_games st')(g := None)\<rparr>)"
    by (auto simp: good_def forward_only_def progress_def rec_of_def cache_ok_def clocks_owned_def owns_game_def)
  then show "good st' (drop_cached env g st')" by (simp add: drop_cached_def Let_def good_unwatch)
qed

lemma good_invalidate: "good st st' \<Longrightarrow> good st (invalidate env g st')"
  by (simp add: invalidate_def Let_def good_spawn good_drop)

lemma clock_cancel_cancels [simp]: "tm_cancels (clock_cancel g tm) = (tm_cancels tm)(g := None)"
  by (simp add: clock_cancel_def frame_simps)

lemma clock_schedule_cancels [simp]: "\<exists>i. tm_cancels (clock_schedule g d now tm) = (tm_cancels tm)(g \<mapsto> i)"
  by (auto simp: clock_schedule_def timer_start_def Let_def frame_simps fun_eq_iff)

lemma good_cancel_clock: "good st st' \<Longrightarrow> good st (st'\<lparr>so_clocks := clock_cancel g (so_clocks st')\<rparr>)"
  by (rule good_trans, assumption)
    (auto simp: good_def forward_only_def progress_def rec_of_def cache_ok_def clocks_owned_def owns_game_def)

lemma good_arm: "good st st' \<Longrightarrow> good st (arm_clock env r st')"
proof (rule good_trans, assumption)
  have "good st' (st'\<lparr>so_clocks := clock_schedule g d now (so_clocks st')\<rparr>)" if "owns_game st' g" for g d now
  proof -
    obtain i where "tm_cancels (clock_schedule g d now (so_clocks st')) = (tm_cancels (so_clocks st'))(g \<mapsto> i)"
      using clock_schedule_cancels by blast
    then show ?thesis
      using that
      by (auto simp: good_def forward_only_def progress_def rec_of_def cache_ok_def clocks_owned_def owns_game_def
          split: if_splits)
  qed
  then show "good st' (arm_clock env r st')" by (simp add: arm_clock_def clock_wanted_def call_clock_def Let_def good_cancel_clock)
qed

lemma good_presence: "good st st' \<Longrightarrow> good st (st'\<lparr>so_presence := p\<rparr>)"
  by (rule good_trans, assumption, rule good_same) simp_all

lemma good_refs: "good st st' \<Longrightarrow> good st (st'\<lparr>so_refs := p\<rparr>)"
  by (rule good_trans, assumption, rule good_same) simp_all

lemma good_ended: "good st st' \<Longrightarrow> good st (game_ended g st')"
proof (rule good_trans, assumption)
  let ?s = "st'\<lparr>so_presence := presence_cancel_game g (so_presence st')\<rparr>"
  have "good st' ((?s\<lparr>so_clocks := clock_cancel g (so_clocks ?s)\<rparr>)\<lparr>so_refs := (so_refs st')(g := None)\<rparr>)"
    by (intro good_refs good_cancel_clock good_presence good_refl)
  then show "good st' (game_ended g st')" by (simp add: game_ended_def)
qed

lemma ensure_held_mono: "ensure_held ev now t m g = (t', m') \<Longrightarrow> held m x \<noteq> None \<Longrightarrow> held m' x \<noteq> None"
  by (auto simp: ensure_held_def held_def acquire_def acquire_sql_def no_grant_def
        split: option.splits db_event.splits prod.splits if_splits)

lemma good_ensure_lease: "good st st' \<Longrightarrow> good st (ensure_lease env g st')"
proof (rule good_trans, assumption)
  show "good st' (ensure_lease env g st')"
  proof (cases "so_leases st'")
    case (Some m)
    obtain t m' where e: "ensure_held (ev_lease env) (ev_dbnow env) (db_leases (so_db st')) m g = (t, m')"
      by (meson surj_pair)
    let ?st = "st'\<lparr>so_leases := Some m', so_db := (so_db st')\<lparr>db_leases := t\<rparr>\<rparr>"
    have "owns_game ?st x" if "owns_game st' x" for x
      using that ensure_held_mono [OF e, of x] Some by (simp add: owns_game_def split: if_splits)
    then have "good st' ?st"
      by (simp add: good_def forward_only_def progress_def rec_of_def cache_ok_def clocks_owned_def)
    then show ?thesis by (simp add: ensure_lease_def Some e)
  qed (simp add: ensure_lease_def)
qed

lemma good_alloc:
  assumes "good st st'" "rc_id rc = g"
  shows "good st ((alloc rc st')\<lparr>so_games := (so_games st')(g \<mapsto> so_next st')\<rparr>)"
  by (rule good_trans [OF assms(1)])
    (use assms(2) in \<open>auto simp: good_def forward_only_def progress_def alloc_def rec_of_def cache_ok_def clocks_owned_def
      owns_game_def\<close>, (use less_SucI in blast)+)

lemmas good_intros = good_refl good_db good_spawn good_notify good_swallow good_watch good_unwatch good_bot good_set_rec
  good_drop good_arm good_presence good_refs good_ended good_ensure_lease good_alloc

section \<open>The operations\<close>

lemma load_game_id: "load_game bad now d gid = Inr (Some rc) \<Longrightarrow> rc_id rc = gid"
  by (auto simp: load_game_def load_game_reads_def Let_def split: if_splits option.splits sum.splits)

lemma get_game_good: "good st st' \<Longrightarrow> good st (fst (get_game env gid st'))"
  by (rule good_trans, assumption)
    (auto simp: get_game_def Let_def dest!: load_game_id split: option.splits sum.splits intro!: good_intros)

lemma with_game_good:
  assumes "good st st'" "\<And>r st1. good st st1 \<Longrightarrow> good st (fst (k r st1))"
  shows "good st (fst (with_game env gid st' k))"
  using assms get_game_good [OF assms(1), of env gid]
  by (cases "get_game env gid st'") (auto simp: with_game_def get_or_not_found_def split: sum.splits option.splits)

lemma adopt_good: "good st st' \<Longrightarrow> good st (adopt_game env gid st')"
  using get_game_good [of st st' env gid]
  by (auto simp: adopt_game_def split: prod.splits sum.splits option.splits intro!: good_intros)

lemma evolves_waiting: "rc_status rc = StatusWaiting \<Longrightarrow> rc_id rc' = rc_id rc \<Longrightarrow> evolves rc rc'"
  by (simp add: evolves_def)

lemma evolves_playing:
  "rc_status rc = StatusPlaying \<Longrightarrow> rc_id rc' = rc_id rc \<Longrightarrow> 1 \<le> rank (rc_status rc')
     \<Longrightarrow> gs_config (rc_state rc') = gs_config (rc_state rc)
     \<Longrightarrow> \<exists>ms. gs_history (rc_state rc') = gs_history (rc_state rc) @ ms \<Longrightarrow> evolves rc rc'"
  by (simp add: evolves_def)

lemma put_seat_frame [simp]:
  "rc_id (put_seat rc i s) = rc_id rc" "rc_status (put_seat rc i s) = rc_status rc"
  "rc_state (put_seat rc i s) = rc_state rc"
  by (simp_all add: put_seat_def)

lemma start_if_full_id: "start_if_full env rc = (rc', b) \<Longrightarrow> rc_id rc' = rc_id rc"
  by (auto simp: start_if_full_def split: if_splits)

lemma persist_good: "good st st' \<Longrightarrow> persist_seat env r i st' = (st2, x) \<Longrightarrow> good st st2"
  by (auto simp: persist_seat_def Let_def split: sum.splits intro!: good_intros)

lemma persist_heap: "persist_seat env r i st' = (st2, x) \<Longrightarrow> rec_of st2 = rec_of st'"
  by (auto simp: persist_seat_def Let_def split: sum.splits)

lemma join_good:
  assumes "good st st'"
  shows "good st (fst (join env gid name user i st'))"
  unfolding join_def
proof (rule with_game_good [OF assms])
  fix r st1 assume g: "good st st1"
  let ?rc = "rec_of st1 r"
  show "good st (fst (let rc = rec_of st1 r
       in case join_seat rc user i of
            Inl e \<Rightarrow> (st1, Inl e)
          | Inr idx \<Rightarrow>
              let token = ev_tokens env 0;
                  s = (seat_at rc idx)\<lparr>st_name := name, st_hash := ev_hash env token, st_user := user,
                                      st_occupied := True\<rparr>;
                  (rc', started) = start_if_full env (put_seat rc idx s);
                  st1 = set_rec r rc' st1
              in case persist_seat env r idx st1 of
                   (st2, Inl e) \<Rightarrow> (st2, Inl e)
                 | (st2, Inr _) \<Rightarrow>
                     (if started then spawn (ScheduleBot r) (arm_clock env r st2) else st2, Inr (s, token))))"
  proof (cases "join_seat ?rc user i")
    case (Inr idx)
    then have w: "rc_status ?rc = StatusWaiting" by (auto simp: join_seat_def split: if_splits)
    then have "evolves ?rc rc'" if "start_if_full env (put_seat ?rc idx s) = (rc', b)" for s rc' b
      using start_if_full_id [OF that] by (intro evolves_waiting) simp_all
    then show ?thesis
      using g Inr by (auto simp: Let_def split: prod.splits sum.splits dest!: persist_good [rotated]
          intro!: good_intros)
  qed (use g in simp)
qed

lemmas result_splits = prod.splits sum.splits option.splits if_splits

lemma resolve_seat_good: "good st st' \<Longrightarrow> good st (fst (resolve_seat env gid user st'))"
  by (auto simp: resolve_seat_def Let_def evolves_frame split: result_splits dest!: persist_good [rotated]
      intro!: with_game_good good_intros)

lemma private_guard_waiting: "private_seat_guard rc i = None \<Longrightarrow> rc_status rc = StatusWaiting"
  by (auto simp: private_seat_guard_def split: if_splits)

lemma add_bot_good:
  assumes "good st st'"
  shows "good st (fst (add_bot env gid i st'))"
  unfolding add_bot_def
proof (rule with_game_good [OF assms], goal_cases)
  case (1 r st1)
  show ?case
  proof (cases "private_seat_guard (rec_of st1 r) i")
    case None
    then have "evolves (rec_of st1 r) rc'" if "start_if_full env (put_seat (rec_of st1 r) i s) = (rc', b)" for s rc' b
      using start_if_full_id [OF that] private_guard_waiting by (intro evolves_waiting) simp_all
    then show ?thesis
      using 1 None by (auto simp: Let_def split: result_splits dest!: persist_good [rotated] intro!: good_intros)
  qed (use 1 in simp)
qed

lemma change_seat_good: "good st st' \<Longrightarrow> good st (fst (change_seat env r i f st'))"
  by (auto simp: change_seat_def Let_def evolves_frame split: result_splits dest!: persist_good [rotated]
      intro!: good_intros)

lemma seat_ops_good:
  assumes "good st st'"
  shows "good st (fst (remove_bot env gid i st'))" "good st (fst (invite_seat env gid i u n st'))"
    "good st (fst (cancel_seat_invite env gid i st'))" "good st (fst (decline_seat_invite env gid i c st'))"
  using assms
  by (auto simp: remove_bot_def invite_seat_def cancel_seat_invite_def decline_seat_invite_def
      intro!: with_game_good change_seat_good)

lemma leave_seat_good: "good st st' \<Longrightarrow> good st (fst (leave_seat env gid token st'))"
  by (auto simp: leave_seat_def Let_def evolves_frame split: result_splits dest!: persist_good [rotated]
      intro!: with_game_good good_intros)

lemma start_internal_good: "good st st' \<Longrightarrow> good st (fst (start_internal env r st'))"
  by (auto simp: start_internal_def Let_def evolves_waiting intro!: good_intros)

lemma start_good: "good st st' \<Longrightarrow> good st (fst (start env gid token st'))"
  by (auto simp: start_def Let_def split: result_splits intro!: with_game_good start_internal_good)

lemma post_message_good: "good st st' \<Longrightarrow> good st (fst (post_message env gid token body st'))"
  by (auto simp: post_message_def Let_def split: result_splits intro!: with_game_good good_intros)

lemma good_alloc_db:
  "good st st' \<Longrightarrow> rc_id rc = g \<Longrightarrow> good st ((alloc rc st')\<lparr>so_db := d, so_games := (so_games st')(g \<mapsto> so_next st')\<rparr>)"
  using good_db [OF good_alloc, of st st' rc g d] by (cases "alloc rc st'") simp

lemma create_good: "good st st' \<Longrightarrow> good st (fst (create env n vis st'))"
  by (auto simp: create_def Let_def split: result_splits intro!: good_intros good_alloc_db)

text \<open>Endings change neither the configuration nor the history.\<close>

lemma ending_frame [simp]:
  "gs_config (resign g c) = gs_config g" "gs_history (resign g c) = gs_history g"
  "gs_config (forfeit g c) = gs_config g" "gs_history (forfeit g c) = gs_history g"
  "gs_config (agree_draw g) = gs_config g" "gs_history (agree_draw g) = gs_history g"
  by (auto simp: resign_def forfeit_def agree_draw_def Let_def split: option.splits)

lemma apply_move_frame:
  assumes "apply_move g m now = Done (g', res)"
  shows "gs_config g' = gs_config g" "gs_history g' = gs_history g @ [m]"
  using assms by (auto simp: apply_move_Done) (metis fst_conv place_frame(1), metis fst_conv place_frame(4))

lemma after_move_evolves:
  "rc_status rc = StatusPlaying \<Longrightarrow> apply_move (rc_state rc) m now = Done (g, res) \<Longrightarrow> evolves rc (after_move rc g)"
  using apply_move_frame [of "rc_state rc" m now g res]
  by (intro evolves_playing) (auto simp: after_move_def)

lemma ending_evolves:
  "rc_status rc = StatusPlaying \<Longrightarrow> gs_config g = gs_config (rc_state rc) \<Longrightarrow> gs_history g = gs_history (rc_state rc)
     \<Longrightarrow> evolves rc (rc\<lparr>rc_state := g, rc_status := StatusFinished, rc_draw_by := x\<rparr>)
       \<and> evolves rc (rc\<lparr>rc_state := g, rc_status := StatusFinished\<rparr>)"
  by (intro conjI evolves_playing) simp_all

lemma rating_good: "good st st' \<Longrightarrow> good st (maybe_apply_rating r st')"
  by (simp add: maybe_apply_rating_def Let_def good_spawn)

lemma play_move_good: "good st st' \<Longrightarrow> good st (fst (play_move env gid token q r st'))"
  by (auto simp: play_move_def Let_def split: result_splits outcome.splits
      intro!: with_game_good good_intros after_move_evolves)

lemma play_bot_turn_good: "good st st' \<Longrightarrow> good st (play_bot_turn env r st')"
  by (auto simp: play_bot_turn_def Let_def split: result_splits outcome.splits
      intro!: good_intros after_move_evolves)

lemma publish_draw_good: "good st st' \<Longrightarrow> good st (fst (publish_draw_offer env gid i st'))"
  by (auto simp: publish_draw_offer_def split: sum.splits intro!: good_intros)

lemma publish_draw_good2: "publish_draw_offer env gid i st' = (st2, x) \<Longrightarrow> good st st' \<Longrightarrow> good st st2"
  using publish_draw_good [of st st' env gid i] by simp

lemma draw_good:
  assumes "good st st'"
  shows "good st (fst (offer_draw env gid token st'))" "good st (fst (accept_draw env gid token st'))"
    "good st (fst (decline_draw env gid token st'))"
proof -
  show "good st (fst (offer_draw env gid token st'))"
    using assms by (auto simp: offer_draw_def Let_def evolves_frame split: result_splits
      dest!: publish_draw_good2 intro!: with_game_good good_intros)
  show "good st (fst (accept_draw env gid token st'))"
    using assms ending_evolves by (auto simp: accept_draw_def Let_def split: result_splits
      intro!: with_game_good good_intros rating_good publish_draw_good)
  show "good st (fst (decline_draw env gid token st'))"
    using assms by (auto simp: decline_draw_def Let_def evolves_frame split: result_splits
      dest!: publish_draw_good2 intro!: with_game_good good_intros)
qed

lemma resign_good: "good st st' \<Longrightarrow> good st (fst (resign_game env gid token st'))"
  using ending_evolves
  by (auto simp: resign_game_def Let_def split: result_splits
      intro!: with_game_good good_intros rating_good publish_draw_good)

lemma forfeit_seat_good:
  "good st st' \<Longrightarrow> rc_status (rec_of st' r) = StatusPlaying \<Longrightarrow> good st (forfeit_seat env gid r c st')"
  using ending_evolves [of "rec_of st' r" "forfeit (rc_state (rec_of st' r)) c"]
  by (auto simp: forfeit_seat_def Let_def split: sum.splits app_error.splits
      intro!: good_intros rating_good good_invalidate)

lemma timeout_good:
  assumes "good st st'"
  shows "good st (handle_flag env gid st')" "good st (handle_disconnect_timeout env gid i st')"
  using assms by (auto simp: handle_flag_def handle_disconnect_timeout_def Let_def split: option.splits
      intro!: forfeit_seat_good)

lemma set_conns_good: "good st st' \<Longrightarrow> good st (set_conns gid i n st')"
  by (simp add: set_conns_def good_refs)

lemma connection_good:
  assumes "good st st'"
  shows "good st (seat_connected gid i st')" "good st (seat_disconnected env gid i st')"
  using assms by (auto simp: seat_connected_def seat_disconnected_def Let_def intro!: good_intros set_conns_good)

lemma store_ratings_good: "good st st' \<Longrightarrow> good st (store_ratings env gid mode seats us st')"
proof -
  assume g: "good st st'"
  have "good st (foldl (\<lambda>st s. swallow (\<lambda>d. ensure_profile (ev_fail env ''EnsureProfile'') d (st_user s) (st_name s)) st) st' ss)"
    for ss :: "seat list"
    using g by (induction ss arbitrary: st') (simp_all add: good_swallow)
  then show ?thesis by (auto simp: store_ratings_def Let_def split: sum.splits intro!: good_intros)
qed

lemma run_task_good: "good st st' \<Longrightarrow> good st (run_task env t st')"
  by (cases t) (auto simp: run_task_def apply_rating_1v1_def apply_rating_multi_def Let_def split: result_splits
      intro!: good_intros adopt_good play_bot_turn_good rating_good store_ratings_good)

lemma link_good: "good st st' \<Longrightarrow> good st (link_rematch r x st')"
  by (simp add: link_rematch_def good_set_rec evolves_frame)

lemma good_alloc_after_db:
  "good st st' \<Longrightarrow> rc_id rc = g
     \<Longrightarrow> good st ((alloc rc (st'\<lparr>so_db := d\<rparr>))\<lparr>so_games := (so_games st')(g \<mapsto> so_next st')\<rparr>)"
  using good_alloc [OF good_db, of st st' rc g d] by simp

lemma rematch_create_good: "good st st' \<Longrightarrow> good st (fst (rematch_create env gid r st'))"
  by (auto simp: rematch_create_def Let_def split: result_splits
      intro!: good_intros link_good get_game_good good_alloc_after_db)

lemma rematch_good: "good st st' \<Longrightarrow> good st (fst (rematch env gid st'))"
proof -
  assume g: "good st st'"
  have get: "good st st2" if "get_game env x st1 = (st2, y)" "good st st1" for x st1 st2 y
    using get_game_good [OF that(2), of env x] that(1) by simp
  show ?thesis
    unfolding rematch_def
    by (rule with_game_good [OF g])
      (auto simp: Let_def split: result_splits intro!: rematch_create_good dest: get)
qed

lemma finish_offer_good: "good st st' \<Longrightarrow> good st (finish_offer env gid r new st')"
  by (auto simp: finish_offer_def clear_offer_def Let_def evolves_frame split: option.splits intro!: good_intros)

lemma offer_rematch_good: "good st st' \<Longrightarrow> good st (fst (offer_rematch env gid token st'))"
proof -
  assume g: "good st st'"
  have rem: "good st st2" if "rematch env gid st1 = (st2, y)" "good st st1" for st1 st2 y
    using rematch_good [OF that(2), of env gid] that(1) by simp
  show ?thesis
    unfolding offer_rematch_def
    by (rule with_game_good [OF g])
      (auto simp: Let_def evolves_frame split: result_splits intro!: finish_offer_good good_intros dest!: rem)
qed

lemma decline_rematch_good: "good st st' \<Longrightarrow> good st (fst (decline_rematch env gid token st'))"
  by (auto simp: decline_rematch_def clear_offer_def Let_def evolves_frame split: result_splits
      intro!: with_game_good good_intros)

text \<open>The background loops. A lost lease takes the clock and the cached game with it, which is what keeps the
  ownership of the running clocks.\<close>

lemma sweep_good: "good st st' \<Longrightarrow> good st (sweep_orphans env st')"
proof -
  assume g: "good st st'"
  have "good st (foldl (\<lambda>st gid. adopt_game env gid st) st' ids)" for ids
    using g by (induction ids arbitrary: st') (simp_all add: adopt_good)
  then show ?thesis using g by (auto simp: sweep_orphans_def split: sum.splits)
qed

lemma cleaner_good: "good st st' \<Longrightarrow> good st (run_stale_cleaner env st')"
  by (auto simp: run_stale_cleaner_def split: sum.splits prod.splits intro!: good_intros)

lemma on_lost_frame [simp]:
  "so_next (on_lost env g st) = so_next st" "so_heap (on_lost env g st) = so_heap st"
  "so_leases (on_lost env g st) = so_leases st" "so_forward (on_lost env g st) = so_forward st"
  "so_games (on_lost env g st) = (so_games st)(g := None)"
  "tm_cancels (so_clocks (on_lost env g st)) = (tm_cancels (so_clocks st))(g := None)"
  by (auto simp: on_lost_def drop_cached_def unwatch_def Let_def)

lemma on_lost_fold:
  "so_next (foldl (\<lambda>st g. on_lost env g st) st gs) = so_next st"
  "so_heap (foldl (\<lambda>st g. on_lost env g st) st gs) = so_heap st"
  "so_leases (foldl (\<lambda>st g. on_lost env g st) st gs) = so_leases st"
  "so_forward (foldl (\<lambda>st g. on_lost env g st) st gs) = so_forward st"
  "so_games (foldl (\<lambda>st g. on_lost env g st) st gs) = (\<lambda>g. if g \<in> set gs then None else so_games st g)"
  "tm_cancels (so_clocks (foldl (\<lambda>st g. on_lost env g st) st gs))
     = (\<lambda>g. if g \<in> set gs then None else tm_cancels (so_clocks st) g)"
  by (induction gs arbitrary: st) (auto simp: fun_eq_iff)

lemma heartbeat_good:
  assumes "snd (forget_lost env st) \<subseteq> set order"
  shows "good st (heartbeat env order st)"
proof (cases "so_leases st")
  case (Some m)
  obtain t m' lost where r: "renew (ev_lease env) (ev_dbnow env) (db_leases (so_db st)) m = (t, m', lost)"
    by (meson prod_cases3)
  have lost: "lost \<subseteq> set order" using assms by (simp add: forget_lost_def Some r)
  have held: "mg_held m' g \<noteq> None" if "mg_held m g \<noteq> None" "\<not> (g \<in> set order \<and> g \<in> lost)" for g
    using r that lost by (auto simp: renew_def Let_def split: if_splits)
  show ?thesis
    using held
    by (auto simp: heartbeat_def forget_lost_def Some r good_def forward_only_def progress_def rec_of_def cache_ok_def clocks_owned_def
        owns_game_def held_def on_lost_fold split: if_splits)
qed (simp add: heartbeat_def forget_lost_def)

text \<open>Its parts, and the calls of the clock manager, change no record whatever comes between them.\<close>

lemma good_forward: "good st st' \<Longrightarrow> forward_only st st'"
  by (simp add: good_def)

lemma split_steps_forward:
  "forward_only st (fst (forget_lost env st))" "forward_only st (on_lost env gid st)" "forward_only st (call_clock c st)"
  by (auto simp: forward_only_def progress_def cache_ok_def rec_of_def forget_lost_def call_clock_def
      split: option.splits prod.splits clock_call.splits)

section \<open>The machine\<close>

text \<open>
  The callbacks of a heartbeat and the calls of the clock manager are steps of their own, which can come at any time after the step
  that led to them, or at any other time.
\<close>

inductive store_step :: "store \<Rightarrow> store \<Rightarrow> bool" where
  "store_step st (fst (create env n vis st))"
| "store_step st (fst (get_game env gid st))"
| "store_step st (fst (join env gid name user i st))"
| "store_step st (fst (resolve_seat env gid user st))"
| "store_step st (fst (add_bot env gid i st))"
| "store_step st (fst (remove_bot env gid i st))"
| "store_step st (fst (invite_seat env gid i user name st))"
| "store_step st (fst (cancel_seat_invite env gid i st))"
| "store_step st (fst (decline_seat_invite env gid i user st))"
| "store_step st (fst (leave_seat env gid token st))"
| "store_step st (fst (start env gid token st))"
| "store_step st (fst (post_message env gid token body st))"
| "store_step st (fst (play_move env gid token q r st))"
| "store_step st (fst (offer_draw env gid token st))"
| "store_step st (fst (accept_draw env gid token st))"
| "store_step st (fst (decline_draw env gid token st))"
| "store_step st (fst (resign_game env gid token st))"
| "store_step st (fst (offer_rematch env gid token st))"
| "store_step st (fst (decline_rematch env gid token st))"
| "store_step st (seat_connected gid i st)"
| "store_step st (seat_disconnected env gid i st)"
| "p \<in> set (tm_pending (so_clocks st)) \<Longrightarrow> pt_now p \<or> pt_at p \<le> ev_now env \<Longrightarrow>
    store_step st (handle_flag env (pt_key p)
      (st\<lparr>so_clocks := (so_clocks st)\<lparr>tm_pending := remove1 p (tm_pending (so_clocks st))\<rparr>\<rparr>))"
| "p' \<in> set (tm_pending (so_presence st)) \<Longrightarrow> pt_at p' \<le> ev_now env \<Longrightarrow>
    store_step st (handle_disconnect_timeout env (fst (pt_key p')) (snd (pt_key p'))
      (st\<lparr>so_presence := (so_presence st)\<lparr>tm_pending := remove1 p' (tm_pending (so_presence st))\<rparr>\<rparr>))"
| "so_tasks st = ts @ t # ts' \<Longrightarrow> store_step st (run_task env t (st\<lparr>so_tasks := ts @ ts'\<rparr>))"
| "store_step st (sweep_orphans env st)"
| "store_step st (run_stale_cleaner env st)"
| "store_step st (fst (forget_lost env st))"
| "store_step st (on_lost env gid st)"
| "store_step st (call_clock c st)"
| "store_step st (invalidate env gid st)"
| "store_step st (st\<lparr>so_db := d\<rparr>)"

lemma store_step_forward: "store_step st st' \<Longrightarrow> forward_only st st'"
proof (induction rule: store_step.induct)
  case (22 p st env)
  have "good st (st\<lparr>so_clocks := (so_clocks st)\<lparr>tm_pending := remove1 p (tm_pending (so_clocks st))\<rparr>\<rparr>)"
    by (auto simp: good_def forward_only_def progress_def rec_of_def cache_ok_def clocks_owned_def owns_game_def)
  then show ?case by (intro good_forward timeout_good)
next
  case (24 st ts t ts' env)
  show ?case by (intro good_forward run_task_good good_same) simp_all
qed (auto intro!: split_steps_forward good_forward create_good get_game_good join_good resolve_seat_good add_bot_good seat_ops_good
    leave_seat_good start_good post_message_good play_move_good draw_good resign_good offer_rematch_good decline_rematch_good
    connection_good timeout_good sweep_good cleaner_good good_invalidate good_intros)

definition store_start :: "store \<Rightarrow> bool" where
  "store_start st \<longleftrightarrow> (\<exists>blank leases forward bus db. st = new_store blank leases forward bus db)"

interpretation node: machine store_start store_step cache_ok
proof unfold_locales
  show "cache_ok st" if "store_start st" for st
    using that by (auto simp: store_start_def new_store_def cache_ok_def)
  show "cache_ok st'" if "cache_ok st" "store_step st st'" for st st'
    using store_step_forward [OF that(2)] that(1) by (simp add: forward_only_def)
qed

lemma steps_progress: "store_step\<^sup>*\<^sup>* st st' \<Longrightarrow> progress st st'"
proof (induction rule: rtranclp_induct)
  case (step y z)
  then show ?case using store_step_forward [OF step(2)] progress_trans [OF step(3)] by (simp add: forward_only_def)
qed (simp add: progress_def)

section \<open>Properties\<close>

text \<open>A process without leases that creates a game for two and lets a player in.\<close>

definition sample_env :: env where
  "sample_env = \<lparr>ev_now = 10, ev_dbnow = 10, ev_tokens = (\<lambda>i. ''tok''), ev_id = ''g'', ev_hash = (\<lambda>t. CHR ''h'' # t),
     ev_fail = (\<lambda>_. False), ev_lease = DbFine, ev_bus = True, ev_intn = (\<lambda>_. 0)\<rparr>"

definition blank_record :: game_record where
  "blank_record = \<lparr>rc_id = '''', rc_state = new_game [1, 2] (default_config 2), rc_seats = [], rc_status = StatusWaiting,
     rc_visibility = '''', rc_rematch = '''', rc_created = 0, rc_draw_by = -1, rc_offer = None\<rparr>"

definition sample_store :: store where
  "sample_store = new_store blank_record None False None empty_db"

definition created_store :: store where
  "created_store = fst (create sample_env 2 '''' sample_store)"

definition joined_store :: store where
  "joined_store = fst (join sample_env ''g'' ''Ada'' '''' 0 created_store)"

lemma two_seats: "fresh_seats 2 = [empty_seat 0 1, empty_seat 1 2]"
  by (simp add: fresh_seats_def upt_rec)

lemma created_facts:
  "so_games created_store = [''g'' \<mapsto> 0]" "so_next created_store = 1" "so_leases created_store = None"
  "so_forward created_store = False" "rc_seats (rec_of created_store 0) = fresh_seats 2"
  "rc_status (rec_of created_store 0) = StatusWaiting" "rc_visibility (rec_of created_store 0) = VisibilityPrivate"
  "rc_state (rec_of created_store 0) = new_game (fresh_colors 2) (default_config 2)" "rc_id (rec_of created_store 0) = ''g''"
  by (simp_all add: created_store_def create_def sample_store_def new_store_def sample_env_def save_new_game_def
      empty_db_def game_of_def two_seats empty_seat_def visibility_defs alloc_def watch_def ensure_lease_def rec_of_def
      Let_def)

lemma joined_step: "store_step created_store joined_store"
  unfolding joined_store_def by (rule store_step.intros)

text \<open>C3: Whatever requests, timers, goroutines, lost leases and foreign database changes a process sees in whatever order, a game record it
  holds never goes back in its life cycle, a finished game keeps its board, history, winner and clocks
  for good, and a game being played keeps its rules and only extends its history.\<close>

theorem records_only_move_forward:
  assumes "store_step\<^sup>*\<^sup>* st st'" "r < so_next st"
  shows "rank (rc_status (rec_of st r)) \<le> rank (rc_status (rec_of st' r))
    \<and> (rc_status (rec_of st r) = StatusFinished \<longrightarrow>
         rc_status (rec_of st' r) = StatusFinished \<and> rc_state (rec_of st' r) = rc_state (rec_of st r))
    \<and> (rc_status (rec_of st r) = StatusPlaying \<longrightarrow>
         gs_config (rc_state (rec_of st' r)) = gs_config (rc_state (rec_of st r))
         \<and> (\<exists>ms. gs_history (rc_state (rec_of st' r)) = gs_history (rc_state (rec_of st r)) @ ms))"
proof -
  have e: "evolves (rec_of st r) (rec_of st' r)" using steps_progress [OF assms(1)] assms(2) by (simp add: progress_def)
  have "rc_status (rec_of st' r) = StatusFinished" if "rc_status (rec_of st r) = StatusFinished"
  proof -
    have "2 \<le> rank (rc_status (rec_of st' r))" using e that by (simp add: evolves_def)
    then show ?thesis by (simp add: rank_def split: if_splits)
  qed
  with e show ?thesis by (simp add: evolves_def)
qed

theorem records_only_move_forward_witness:
  "rank (rc_status (rec_of created_store 0)) \<le> rank (rc_status (rec_of joined_store 0))"
  using records_only_move_forward [OF r_into_rtranclp [of store_step, OF joined_step], of 0] created_facts(2) by simp

text \<open>In every state a process can reach, each cached game is the record of its id.\<close>

lemma cached_under_its_id:
  assumes "reach store_start store_step st" "so_games st gid = Some r"
  shows "r < so_next st \<and> rc_id (rec_of st r) = gid"
  using node.inv_reach [OF assms(1)] assms(2) by (simp add: cache_ok_def)

end
