(* ===== verification/Repo_Props.thy ===== *)
theory Repo_Props
  imports Matcher
begin

text \<open>
  The integrity of the tables: what every sequence of repository calls keeps (keys, references, a
  gapless event log, ratings applied once), and what the single calls promise.
\<close>

section \<open>The integrity invariant\<close>

definition game_ids :: "db \<Rightarrow> string list" where
  "game_ids d = map gw_id (db_games d)"

definition game_events :: "db \<Rightarrow> string \<Rightarrow> event_row list" where
  "game_events d gid = filter (\<lambda>e. ew_game e = gid) (db_events d)"

definition keys_ok :: "db \<Rightarrow> bool" where
  "keys_ok d \<longleftrightarrow> distinct (game_ids d)
     \<and> distinct (map (\<lambda>(g, s). (g, st_index s)) (db_seats d))
     \<and> distinct (map (\<lambda>m. (mw_game m, mw_ordinal m)) (db_moves d))
     \<and> distinct (map (\<lambda>r. (rw_user r, rw_mode r)) (db_ratings d))
     \<and> distinct (map (\<lambda>h. (hw_game h, hw_user h)) (db_history d))
     \<and> distinct (map qw_user (db_queue d))"

definition refs_ok :: "db \<Rightarrow> bool" where
  "refs_ok d \<longleftrightarrow> fst ` set (db_seats d) \<subseteq> set (game_ids d) \<and> mw_game ` set (db_moves d) \<subseteq> set (game_ids d)
     \<and> ew_game ` set (db_events d) \<subseteq> set (game_ids d) \<and> ms_game ` set (db_messages d) \<subseteq> set (game_ids d)"

definition log_ok :: "db \<Rightarrow> bool" where
  "log_ok d \<longleftrightarrow> (\<forall>r \<in> set (db_games d). 0 \<le> gw_event_seq r
     \<and> map ew_seq (game_events d (gw_id r)) = [1..gw_event_seq r])"

text \<open>The history of a game is only written when the game is marked as rated.\<close>

definition rated_ok :: "db \<Rightarrow> bool" where
  "rated_ok d \<longleftrightarrow> (\<forall>h \<in> set (db_history d). \<exists>r \<in> set (db_games d). gw_id r = hw_game h \<and> gw_rated_at r \<noteq> None)"

definition db_wf :: "db \<Rightarrow> bool" where
  "db_wf d \<longleftrightarrow> keys_ok d \<and> refs_ok d \<and> log_ok d \<and> rated_ok d"

lemmas db_wf_defs = db_wf_def keys_ok_def refs_ok_def log_ok_def rated_ok_def

lemma game_of_None: "game_of d gid = None \<longleftrightarrow> gid \<notin> set (game_ids d)"
  by (auto simp: game_of_def game_ids_def find_None_iff)

lemma game_of_Some:
  "game_of d gid = Some r \<Longrightarrow> r \<in> set (db_games d) \<and> gw_id r = gid"
  by (auto simp: game_of_def find_Some_iff)

lemma game_of_row:
  assumes "distinct (game_ids d)" "r \<in> set (db_games d)"
  shows "game_of d (gw_id r) = Some r"
proof (cases "game_of d (gw_id r)")
  case (Some r')
  with game_of_Some [OF Some] assms show ?thesis by (auto simp: game_ids_def distinct_map dest: inj_onD)
qed (use assms in \<open>auto simp: game_of_None game_ids_def\<close>)

section \<open>Updating a game's row\<close>

text \<open>Every update keeps the row's key.\<close>

lemma update_game_frame [simp]:
  "db_seats (update_game gid f d) = db_seats d" "db_moves (update_game gid f d) = db_moves d"
  "db_events (update_game gid f d) = db_events d" "db_ratings (update_game gid f d) = db_ratings d"
  "db_history (update_game gid f d) = db_history d" "db_queue (update_game gid f d) = db_queue d"
  "db_messages (update_game gid f d) = db_messages d" "db_leases (update_game gid f d) = db_leases d"
  "db_profiles (update_game gid f d) = db_profiles d"
  by (simp_all add: update_game_def)

lemma update_game_ids [simp]:
  "(\<And>r. gw_id (f r) = gw_id r) \<Longrightarrow> game_ids (update_game gid f d) = game_ids d"
  by (auto simp: game_ids_def update_game_def)

lemma find_map_key:
  "(\<And>r. k (f r) = k r) \<Longrightarrow> find (\<lambda>r. k r = x) (map (\<lambda>r. if k r = gid then f r else r) rs)
     = map_option (\<lambda>r. if k r = gid then f r else r) (find (\<lambda>r. k r = x) rs)"
  by (induction rs) auto

lemma game_of_update:
  assumes "\<And>r. gw_id (f r) = gw_id r"
  shows "game_of (update_game gid f d) x = map_option (\<lambda>r. if x = gid then f r else r) (game_of d x)"
proof -
  have "game_of (update_game gid f d) x = map_option (\<lambda>r. if gw_id r = gid then f r else r) (game_of d x)"
    using find_map_key [of gw_id f x gid "db_games d"] assms by (simp add: game_of_def update_game_def)
  then show ?thesis using game_of_Some [of d x] by (cases "game_of d x") auto
qed

lemma update_game_rows:
  "set (db_games (update_game gid f d)) = (\<lambda>r. if gw_id r = gid then f r else r) ` set (db_games d)"
  by (simp add: update_game_def)

lemma update_game_rated_ok:
  assumes "rated_ok d" "\<And>r. gw_id (f r) = gw_id r" "\<And>r. gw_rated_at r \<noteq> None \<Longrightarrow> gw_rated_at (f r) \<noteq> None"
  shows "rated_ok (update_game gid f d)"
  unfolding rated_ok_def
proof
  fix h assume "h \<in> set (db_history (update_game gid f d))"
  then obtain r where r: "r \<in> set (db_games d)" "gw_id r = hw_game h" "gw_rated_at r \<noteq> None"
    using assms(1) by (auto simp: rated_ok_def)
  let ?r = "if gw_id r = gid then f r else r"
  have "?r \<in> set (db_games (update_game gid f d))" unfolding update_game_rows using r(1) by (rule imageI)
  moreover have "gw_id ?r = hw_game h \<and> gw_rated_at ?r \<noteq> None" using r assms(2,3) by simp
  ultimately show "\<exists>r' \<in> set (db_games (update_game gid f d)). gw_id r' = hw_game h \<and> gw_rated_at r' \<noteq> None" ..
qed

lemma update_game_wf:
  assumes "db_wf d" "\<And>r. gw_id (f r) = gw_id r" "\<And>r. gw_event_seq (f r) = gw_event_seq r"
    "\<And>r. gw_rated_at r \<noteq> None \<Longrightarrow> gw_rated_at (f r) \<noteq> None"
  shows "db_wf (update_game gid f d)"
  unfolding db_wf_def
proof (intro conjI)
  show "keys_ok (update_game gid f d)" "refs_ok (update_game gid f d)"
    using assms by (simp_all add: db_wf_def keys_ok_def refs_ok_def)
  show "log_ok (update_game gid f d)"
    using assms by (auto simp: db_wf_def log_ok_def update_game_rows game_events_def)
  show "rated_ok (update_game gid f d)"
    using assms by (intro update_game_rated_ok) (simp_all add: db_wf_def)
qed

section \<open>Every call keeps the invariant\<close>

lemma game_ids_simps [simp]:
  "game_ids (d\<lparr>db_seats := a\<rparr>) = game_ids d" "game_ids (d\<lparr>db_moves := b\<rparr>) = game_ids d"
  "game_ids (d\<lparr>db_events := c\<rparr>) = game_ids d" "game_ids (d\<lparr>db_ratings := e\<rparr>) = game_ids d"
  "game_ids (d\<lparr>db_history := f\<rparr>) = game_ids d" "game_ids (d\<lparr>db_queue := g\<rparr>) = game_ids d"
  "game_ids (d\<lparr>db_messages := h\<rparr>) = game_ids d" "game_ids (d\<lparr>db_games := i\<rparr>) = map gw_id i"
  by (simp_all add: game_ids_def)

text \<open>A table without references or events changes under the rest.\<close>

lemma seats_wf:
  assumes "db_wf d" "distinct (map (\<lambda>(g, s). (g, st_index s)) ss)" "fst ` set ss \<subseteq> set (game_ids d)"
  shows "db_wf (d\<lparr>db_seats := ss\<rparr>)"
  using assms by (simp add: db_wf_defs game_events_def)

lemma queue_wf: "db_wf d \<Longrightarrow> distinct (map qw_user qs) \<Longrightarrow> db_wf (d\<lparr>db_queue := qs\<rparr>)"
  by (simp add: db_wf_defs game_events_def)

lemma moves_wf:
  assumes "db_wf d" "distinct (map (\<lambda>m. (mw_game m, mw_ordinal m)) ms)" "mw_game ` set ms \<subseteq> set (game_ids d)"
  shows "db_wf (d\<lparr>db_moves := ms\<rparr>)"
  using assms by (simp add: db_wf_defs game_events_def)

lemma update_seat_wf: "db_wf d \<Longrightarrow> update_seat bad now d gid s st = Inr d' \<Longrightarrow> db_wf d'"
proof -
  assume d: "db_wf d" and upd: "update_seat bad now d gid s st = Inr d'"
  let ?ss = "map (\<lambda>(g, s'). if g = gid \<and> st_index s' = st_index s
             then (g, s'\<lparr>st_name := st_name s, st_hash := st_hash s, st_user := st_user s,
                        st_occupied := st_occupied s, st_bot := st_bot s\<rparr>)
             else (g, s')) (db_seats d)"
  have d': "d' = update_game gid (\<lambda>r. r\<lparr>gw_status := st, gw_updated := now\<rparr>) (d\<lparr>db_seats := ?ss\<rparr>)"
    using upd by (simp add: update_seat_def split: if_splits)
  have "map (\<lambda>(g, s). (g, st_index s)) ?ss = map (\<lambda>(g, s). (g, st_index s)) (db_seats d)" by auto
  moreover have "fst ` set ?ss = fst ` set (db_seats d)" by (force simp: image_iff split: prod.splits if_splits)
  ultimately have "db_wf (d\<lparr>db_seats := ?ss\<rparr>)"
    using d by (intro seats_wf d) (simp_all only: db_wf_defs)
  then show ?thesis unfolding d' by (intro update_game_wf) simp_all
qed

lemma finalize_start_wf: "db_wf d \<Longrightarrow> finalize_start bad now d gid st cfg = Inr d' \<Longrightarrow> db_wf d'"
  by (auto simp: finalize_start_def split: if_splits intro!: update_game_wf seats_wf)
    (auto simp: db_wf_defs distinct_map inj_on_def)

lemma update_outcome_wf: "db_wf d \<Longrightarrow> update_outcome bad now d gid st w k ep = Inr d' \<Longrightarrow> db_wf d'"
  by (auto simp: update_outcome_def split: if_splits intro!: update_game_wf)

lemma append_move_wf: "db_wf d \<Longrightarrow> append_move bad now d gid n m w k st = Inr d' \<Longrightarrow> db_wf d'"
  by (auto simp: append_move_def game_of_None split: if_splits intro!: update_game_wf moves_wf)
    (auto simp: db_wf_defs)

lemma save_rematch_offer_wf: "db_wf d \<Longrightarrow> save_rematch_offer bad d gid offer = Inr d' \<Longrightarrow> db_wf d'"
  by (auto simp: save_rematch_offer_def split: if_splits intro!: update_game_wf)

lemma merge_rematch_acceptance_wf:
  "db_wf d \<Longrightarrow> merge_rematch_acceptance bad now d gid i bots = Inr (d', o') \<Longrightarrow> db_wf d'"
  by (auto simp: merge_rematch_acceptance_def Let_def split: if_splits option.splits intro!: update_game_wf)

lemma save_draw_offer_wf: "db_wf d \<Longrightarrow> save_draw_offer bad d gid i = Inr d' \<Longrightarrow> db_wf d'"
  by (auto simp: save_draw_offer_def split: if_splits intro!: update_game_wf)

lemma set_rematch_link_wf: "db_wf d \<Longrightarrow> set_rematch_link bad d gid x = Inr (d', y) \<Longrightarrow> db_wf d'"
  by (auto simp: set_rematch_link_def Let_def split: if_splits option.splits intro!: update_game_wf)

lemma profiles_wf: "db_wf d \<Longrightarrow> db_wf (d\<lparr>db_profiles := ps\<rparr>)"
  by (simp add: db_wf_defs game_events_def game_ids_def)

lemma leases_wf: "db_wf d \<Longrightarrow> db_wf (d\<lparr>db_leases := t\<rparr>)"
  by (simp add: db_wf_defs game_events_def game_ids_def)

lemma messages_wf: "db_wf d \<Longrightarrow> ms_game ` set ms \<subseteq> set (game_ids d) \<Longrightarrow> db_wf (d\<lparr>db_messages := ms\<rparr>)"
  by (simp add: db_wf_defs game_events_def)

lemma append_message_wf: "db_wf d \<Longrightarrow> append_message bad now d m = Inr (d', m') \<Longrightarrow> db_wf d'"
  by (auto simp: append_message_def game_of_None Let_def split: if_splits intro!: messages_wf)
    (auto simp: db_wf_defs)

lemma enqueue_wf: "db_wf d \<Longrightarrow> enqueue_matchmake bad now d u n mode rt = Inr d' \<Longrightarrow> db_wf d'"
  by (auto simp: enqueue_matchmake_def Let_def split: if_splits intro!: queue_wf)
    (auto simp: db_wf_defs comp_def if_distrib [of qw_user] cong: if_cong)

lemma cancel_wf: "db_wf d \<Longrightarrow> cancel_matchmake bad d u = Inr d' \<Longrightarrow> db_wf d'"
  by (auto simp: cancel_matchmake_def split: if_splits intro!: queue_wf)
    (auto simp: db_wf_defs distinct_map inj_on_def)

text \<open>New games: fresh rows at the end of the tables.\<close>

lemma fresh_game_wf:
  assumes d: "db_wf d" and r: "game_of d (gw_id r) = None" "gw_event_seq r = 0"
    and ss: "distinct (map st_index ss)"
  shows "db_wf (d\<lparr>db_games := db_games d @ [r], db_seats := db_seats d @ map (Pair (gw_id r)) ss\<rparr>)"
proof -
  have new: "gw_id r \<notin> set (game_ids d)" using r(1) by (simp add: game_of_None)
  let ?d = "d\<lparr>db_games := db_games d @ [r], db_seats := db_seats d @ map (Pair (gw_id r)) ss\<rparr>"
  have ids: "game_ids ?d = game_ids d @ [gw_id r]" by (simp add: game_ids_def)
  have "keys_ok ?d"
    using d new ss unfolding keys_ok_def ids
    by (auto simp: db_wf_def keys_ok_def refs_ok_def comp_def distinct_map inj_on_def)
  moreover have "refs_ok ?d" using d unfolding refs_ok_def ids by (auto simp: db_wf_def refs_ok_def)
  moreover have "log_ok ?d"
  proof -
    have "ew_game e \<noteq> gw_id r" if "e \<in> set (db_events d)" for e
      using that d new by (auto simp: db_wf_def refs_ok_def)
    then have "filter (\<lambda>e. ew_game e = gw_id r) (db_events d) = []" by (simp add: filter_empty_conv)
    then show ?thesis using d r(2) by (auto simp: db_wf_def log_ok_def game_events_def)
  qed
  moreover have "rated_ok ?d" using d by (auto simp: db_wf_def rated_ok_def)
  ultimately show ?thesis by (simp add: db_wf_def)
qed

lemma save_new_game_wf: "db_wf d \<Longrightarrow> save_new_game bad now d rc = Inr d' \<Longrightarrow> db_wf d'"
  using fresh_game_wf [of d "\<lparr>gw_id = rc_id rc, gw_status = rc_status rc, gw_config = gs_config (rc_state rc),
            gw_winner = Empty, gw_kind = WinNone,
            gw_visibility = (if rc_visibility rc = '''' then VisibilityPrivate else rc_visibility rc),
            gw_rematch = None, gw_offer = None, gw_draw_by = -1, gw_event_seq = 0, gw_rated_at = None,
            gw_created = now, gw_updated = now\<rparr>" "rc_seats rc"]
  by (auto simp: save_new_game_def split: if_splits)

lemma matched_game_wf:
  assumes "db_wf d" "matched_game now players (Some (d, seats)) (g, gid) = Some (d', seats')"
  shows "db_wf d'"
proof (cases "length g < 2 \<or> length g > players")
  case False
  let ?r = "\<lparr>gw_id = gid, gw_status = StatusPlaying, gw_config = default_config (int (length g)),
                   gw_winner = Empty, gw_kind = WinNone, gw_visibility = VisibilityPublic, gw_rematch = None,
                   gw_offer = None, gw_draw_by = -1, gw_event_seq = 0, gw_rated_at = None,
                   gw_created = now, gw_updated = now\<rparr>"
  let ?ss = "map (\<lambda>i. matched_seat_row i (g ! i)) [0..<length g]"
  let ?d = "d\<lparr>db_games := db_games d @ [?r], db_seats := db_seats d @ map (Pair gid) ?ss\<rparr>"
  have "game_of d gid = None" using assms(2) False by (auto simp: matched_game_def split: if_splits)
  then have "db_wf ?d"
    using fresh_game_wf [OF assms(1), of ?r ?ss]
    by (simp add: comp_def matched_seat_row_def distinct_map inj_on_def)
  moreover have "d' = ?d\<lparr>db_queue := filter (\<lambda>q. qw_user q \<notin> qu_user ` set g) (db_queue d)\<rparr>"
    using assms(2) False by (auto simp: matched_game_def comp_def split: if_splits)
  moreover have "distinct (map qw_user (filter P (db_queue d)))" for P
    using assms(1) by (simp add: db_wf_defs distinct_map_filter)
  ultimately show ?thesis by (simp add: queue_wf)
qed (use assms in \<open>simp add: matched_game_def\<close>)

lemma matched_fold_wf:
  assumes "db_wf (fst st)" "foldl (matched_game now players) (Some st) gis = Some st'"
  shows "db_wf (fst st')"
  using assms
proof (induction gis arbitrary: st)
  case (Cons x gis)
  have none: "foldl (matched_game now players) None gis = None" for gis :: "(queued_user list \<times> string) list"
    by (induction gis) (simp_all add: matched_game_def)
  obtain g gid d seats where x: "x = (g, gid)" "st = (d, seats)" by (cases x; cases st)
  with Cons.prems none obtain d1 seats1 where st1: "matched_game now players (Some (d, seats)) (g, gid) = Some (d1, seats1)"
    by (cases "matched_game now players (Some (d, seats)) (g, gid)") auto
  have "db_wf d1" using matched_game_wf [OF _ st1] Cons.prems(1) by (simp add: x)
  with Cons.IH [of "(d1, seats1)"] Cons.prems st1 show ?case by (simp add: x)
qed simp

lemma matchmake_tick_wf:
  "db_wf d \<Longrightarrow> matchmake_tick bad now locked new_id d players mode pairFn = Inr (d', seats) \<Longrightarrow> db_wf d'"
  using matched_fold_wf [of "(d, [])" now players]
  by (fastforce simp: matchmake_tick_def Let_def split: if_splits option.splits)

text \<open>Appending an event bumps the counter of the game and of no other.\<close>

lemma append_event_Inr:
  assumes "append_event bad d gid ty payload ep = Inr (d', seq)"
  obtains r where "game_of d gid = Some r" "seq = gw_event_seq r + 1" "fence_passes (db_leases d) gid ep"
    "d' = (update_game gid (\<lambda>r. r\<lparr>gw_event_seq := seq\<rparr>) d)\<lparr>db_events := db_events d @
        [\<lparr>ew_game = gid, ew_seq = seq, ew_type = ty, ew_payload = payload, ew_epoch = ep\<rparr>]\<rparr>"
  using assms by (auto simp: append_event_def Let_def split: if_splits option.splits)

lemma append_event_wf:
  assumes d: "db_wf d" and app: "append_event bad d gid ty payload ep = Inr (d', seq)"
  shows "db_wf d'"
proof -
  obtain r where r: "game_of d gid = Some r" "seq = gw_event_seq r + 1"
    "d' = (update_game gid (\<lambda>r. r\<lparr>gw_event_seq := seq\<rparr>) d)\<lparr>db_events := db_events d @
        [\<lparr>ew_game = gid, ew_seq = seq, ew_type = ty, ew_payload = payload, ew_epoch = ep\<rparr>]\<rparr>"
    using append_event_Inr [OF app] by metis
  have row: "r \<in> set (db_games d)" "gw_id r = gid" using game_of_Some [OF r(1)] by simp_all
  have only: "r' = r" if "r' \<in> set (db_games d)" "gw_id r' = gid" for r'
    using that row d by (auto simp: db_wf_def keys_ok_def game_ids_def distinct_map dest: inj_onD)
  have "keys_ok d'" using d unfolding r(3) by (simp add: db_wf_def keys_ok_def)
  moreover have "gid \<in> set (game_ids d)" using row by (auto simp: game_ids_def)
  then have "refs_ok d'" using d unfolding r(3) by (simp add: db_wf_def refs_ok_def)
  moreover have "log_ok d'"
    unfolding log_ok_def
  proof
    fix r' assume "r' \<in> set (db_games d')"
    then obtain x where x: "x \<in> set (db_games d)" "r' = (if gw_id x = gid then x\<lparr>gw_event_seq := seq\<rparr> else x)"
      unfolding r(3) by (auto simp: update_game_def)
    have log: "0 \<le> gw_event_seq x" "map ew_seq (game_events d (gw_id x)) = [1..gw_event_seq x]"
      using d x(1) by (simp_all add: db_wf_def log_ok_def)
    have ev: "game_events d' (gw_id x) = game_events d (gw_id x) @
        (if gw_id x = gid then [\<lparr>ew_game = gid, ew_seq = seq, ew_type = ty, ew_payload = payload, ew_epoch = ep\<rparr>] else [])"
      by (simp add: r(3) game_events_def)
    show "0 \<le> gw_event_seq r' \<and> map ew_seq (game_events d' (gw_id r')) = [1..gw_event_seq r']"
    proof (cases "gw_id x = gid")
      case True
      then have "seq = gw_event_seq x + 1" using only [OF x(1)] r(2) by simp
      then show ?thesis using True log ev by (simp add: x(2) upto_rec2)
    next
      case False
      then show ?thesis using log ev by (simp add: x(2))
    qed
  qed
  moreover have "rated_ok d'"
    using update_game_rated_ok [of d "\<lambda>r. r\<lparr>gw_event_seq := seq\<rparr>" gid] d unfolding r(3)
    by (simp add: db_wf_def rated_ok_def)
  ultimately show ?thesis by (simp add: db_wf_def)
qed

text \<open>Deleting games takes every row that refers to them along.\<close>

lemma unlink_rematch_frame [simp]:
  "gw_id (unlink_rematch gone r) = gw_id r" "gw_event_seq (unlink_rematch gone r) = gw_event_seq r"
  "gw_rated_at (unlink_rematch gone r) = gw_rated_at r"
  by (simp_all add: unlink_rematch_def)

lemma delete_games_wf:
  assumes d: "db_wf d"
  shows "db_wf (delete_games gone d)"
proof -
  let ?d = "delete_games gone d"
  have ids: "game_ids ?d = filter (\<lambda>g. g \<notin> set gone) (game_ids d)"
    by (simp add: delete_games_def game_ids_def comp_def filter_map)
  have "keys_ok ?d"
    using d unfolding keys_ok_def ids by (simp add: delete_games_def db_wf_def keys_ok_def distinct_map_filter)
  moreover have "refs_ok ?d" using d unfolding refs_ok_def ids by (auto simp: delete_games_def db_wf_def refs_ok_def)
  moreover have "log_ok ?d"
  proof -
    have "filter (\<lambda>e. ew_game e = gw_id r) (filter (\<lambda>e. ew_game e \<notin> set gone) (db_events d))
        = filter (\<lambda>e. ew_game e = gw_id r) (db_events d)" if "gw_id r \<notin> set gone" for r :: game_row
      unfolding filter_filter using that by (intro filter_cong) auto
    then show ?thesis
      using d by (auto simp: delete_games_def db_wf_def log_ok_def game_events_def simp del: filter_filter)
  qed
  moreover have "rated_ok ?d"
    unfolding rated_ok_def
  proof
    fix h assume "h \<in> set (db_history ?d)"
    then have h: "h \<in> set (db_history d)" "hw_game h \<notin> set gone" by (simp_all add: delete_games_def)
    then obtain r where "r \<in> set (db_games d)" "gw_id r = hw_game h" "gw_rated_at r \<noteq> None"
      using d by (auto simp: db_wf_def rated_ok_def)
    with h show "\<exists>r \<in> set (db_games ?d). gw_id r = hw_game h \<and> gw_rated_at r \<noteq> None"
      by (intro bexI [of _ "unlink_rematch gone r"]) (simp_all add: delete_games_def)
  qed
  ultimately show ?thesis by (simp add: db_wf_def)
qed

lemma delete_stale_waiting_wf: "db_wf d \<Longrightarrow> delete_stale_waiting bad now d older = Inr (d', n) \<Longrightarrow> db_wf d'"
  by (auto simp: delete_stale_waiting_def Let_def delete_games_wf split: if_splits)

text \<open>Rating a game: each update writes one rating row and one history row.\<close>

lemma upsert_rating_frame [simp]:
  "db_games (upsert_rating now mode u d) = db_games d" "db_seats (upsert_rating now mode u d) = db_seats d"
  "db_moves (upsert_rating now mode u d) = db_moves d" "db_events (upsert_rating now mode u d) = db_events d"
  "db_history (upsert_rating now mode u d) = db_history d" "db_queue (upsert_rating now mode u d) = db_queue d"
  "db_messages (upsert_rating now mode u d) = db_messages d"
  by (simp_all add: upsert_rating_def Let_def)

lemma upsert_rating_keys:
  assumes "distinct (map (\<lambda>r. (rw_user r, rw_mode r)) (db_ratings d))"
  shows "distinct (map (\<lambda>r. (rw_user r, rw_mode r)) (db_ratings (upsert_rating now mode u d)))"
proof (cases "\<exists>r \<in> set (db_ratings d). rw_user r = ru_user u \<and> rw_mode r = mode")
  case True
  define f where "f = (\<lambda>r :: rating_row. if rw_user r = ru_user u \<and> rw_mode r = mode
        then r\<lparr>rw_rating := ru_new u, rw_games := rw_games r + 1,
               rw_wins := rw_wins r + (if ru_result u = CHR ''W'' then 1 else 0),
               rw_losses := rw_losses r + (if ru_result u = CHR ''L'' then 1 else 0),
               rw_draws := rw_draws r + (if ru_result u = CHR ''D'' then 1 else 0), rw_updated := now\<rparr>
        else r)"
  have "db_ratings (upsert_rating now mode u d) = map f (db_ratings d)"
    using True by (simp add: upsert_rating_def Let_def f_def)
  moreover have "map (\<lambda>r. (rw_user r, rw_mode r)) (map f rs) = map (\<lambda>r. (rw_user r, rw_mode r)) rs" for rs
    by (simp add: f_def)
  ultimately show ?thesis using assms by (simp only:)
qed (use assms in \<open>auto simp: upsert_rating_def Let_def\<close>)

definition rated :: "db \<Rightarrow> string \<Rightarrow> bool" where
  "rated d gid \<longleftrightarrow> (\<exists>r \<in> set (db_games d). gw_id r = gid \<and> gw_rated_at r \<noteq> None)"

lemma apply_rating_update_wf:
  assumes "db_wf d" "rated d gid" "apply_rating_update now gid mode (Some d) u = Some d'"
  shows "db_wf d' \<and> rated d' gid"
proof -
  have fresh: "\<forall>h \<in> set (db_history d). \<not> (hw_game h = gid \<and> hw_user h = ru_user u)"
    and d': "d' = (upsert_rating now mode u d)\<lparr>db_history := db_history d @
                 [\<lparr>hw_game = gid, hw_user = ru_user u, hw_old = ru_old u, hw_new = ru_new u,
                   hw_delta = ru_new u - ru_old u, hw_result = ru_result u\<rparr>]\<rparr>"
    using assms(3) by (auto simp: apply_rating_update_def split: if_splits)
  have ids: "game_ids d' = game_ids d" by (simp add: d' game_ids_def)
  have "keys_ok d'"
    using assms(1) fresh upsert_rating_keys [of d now mode u] unfolding keys_ok_def ids
    by (auto simp: d' db_wf_def keys_ok_def)
  moreover have "refs_ok d'" "log_ok d'" "rated_ok d'" "rated d' gid"
    using assms(1,2) unfolding refs_ok_def ids
    by (auto simp: d' db_wf_def refs_ok_def log_ok_def rated_ok_def game_events_def rated_def)
  ultimately show ?thesis by (simp add: db_wf_def)
qed

lemma rating_fold_None: "foldl (apply_rating_update now gid mode) None us = None"
  by (induction us) (simp_all add: apply_rating_update_def)

lemma rating_fold_wf:
  assumes "db_wf d" "rated d gid" "foldl (apply_rating_update now gid mode) (Some d) us = Some d'"
  shows "db_wf d' \<and> rated d' gid"
  using assms
proof (induction us arbitrary: d)
  case (Cons u us)
  then obtain d1 where d1: "apply_rating_update now gid mode (Some d) u = Some d1"
    using rating_fold_None by (cases "apply_rating_update now gid mode (Some d) u") auto
  with Cons.prems(3) have "foldl (apply_rating_update now gid mode) (Some d1) us = Some d'" by simp
  with apply_rating_update_wf [OF Cons.prems(1,2) d1] show ?case by (intro Cons.IH [of d1]) simp_all
qed simp

lemma apply_rated_game_wf:
  assumes d: "db_wf d" and ap: "apply_rated_game bad now d gid mode us = Inr (d', ok)"
  shows "db_wf d' \<and> (ok \<longrightarrow> rated d' gid)"
proof (cases "ok")
  case True
  let ?d = "update_game gid (\<lambda>r. r\<lparr>gw_rated_at := Some now\<rparr>) d"
  from True ap obtain r where "game_of d gid = Some r" "foldl (apply_rating_update now gid mode) (Some ?d) us = Some d'"
    by (auto simp: apply_rated_game_def split: if_splits option.splits)
  moreover from this(1) have "rated ?d gid"
    using game_of_Some [of d gid r] unfolding rated_def update_game_rows
    by (intro bexI [of _ "r\<lparr>gw_rated_at := Some now\<rparr>"]) (auto intro: image_eqI [of _ _ r])
  moreover have "db_wf ?d" by (rule update_game_wf [OF d]) simp_all
  ultimately show ?thesis using rating_fold_wf by blast
next
  case False
  then show ?thesis using d ap by (auto simp: apply_rated_game_def split: if_splits option.splits)
qed

section \<open>The repository as a state machine\<close>

text \<open>Every write of the repository, with any arguments, and any change of the lease table (the lease
  managers write it by themselves).\<close>

inductive db_step :: "db \<Rightarrow> db \<Rightarrow> bool" where
  "save_new_game bad now d rc = Inr d' \<Longrightarrow> db_step d d'"
| "update_seat bad now d gid s st = Inr d' \<Longrightarrow> db_step d d'"
| "update_outcome bad now d gid st w k ep = Inr d' \<Longrightarrow> db_step d d'"
| "append_move bad now d gid n m w k st = Inr d' \<Longrightarrow> db_step d d'"
| "finalize_start bad now d gid st cfg = Inr d' \<Longrightarrow> db_step d d'"
| "delete_stale_waiting bad now d older = Inr (d', cnt) \<Longrightarrow> db_step d d'"
| "save_rematch_offer bad d gid offer = Inr d' \<Longrightarrow> db_step d d'"
| "merge_rematch_acceptance bad now d gid i bots = Inr (d', merged) \<Longrightarrow> db_step d d'"
| "save_draw_offer bad d gid i = Inr d' \<Longrightarrow> db_step d d'"
| "set_rematch_link bad d gid x = Inr (d', y) \<Longrightarrow> db_step d d'"
| "append_event bad d gid ty payload ep = Inr (d', seq) \<Longrightarrow> db_step d d'"
| "apply_rated_game bad now d gid mode us = Inr (d', ok) \<Longrightarrow> db_step d d'"
| "upsert_profile bad d u name = Inr d' \<Longrightarrow> db_step d d'"
| "ensure_profile bad d u name = Inr d' \<Longrightarrow> db_step d d'"
| "append_message bad now d m = Inr (d', m') \<Longrightarrow> db_step d d'"
| "enqueue_matchmake bad now d u players mode rt = Inr d' \<Longrightarrow> db_step d d'"
| "cancel_matchmake bad d u = Inr d' \<Longrightarrow> db_step d d'"
| "matchmake_tick bad now locked new_id d players mode pairFn = Inr (d', seats) \<Longrightarrow> db_step d d'"
| "db_step d (d\<lparr>db_leases := leases\<rparr>)"

lemma db_step_wf:
  assumes "db_step d d'" "db_wf d"
  shows "db_wf d'"
  using assms
proof (cases rule: db_step.cases)
  case (13 bad u name)
  then show ?thesis using assms(2) by (auto simp: upsert_profile_def profiles_wf split: if_splits)
next
  case (14 bad u name)
  then show ?thesis using assms(2) by (auto simp: ensure_profile_def profiles_wf split: if_splits)
qed (blast intro: assms(2) save_new_game_wf update_seat_wf update_outcome_wf append_move_wf finalize_start_wf
    delete_stale_waiting_wf save_rematch_offer_wf merge_rematch_acceptance_wf save_draw_offer_wf
    set_rematch_link_wf append_event_wf append_message_wf enqueue_wf cancel_wf matchmake_tick_wf leases_wf
    dest: apply_rated_game_wf)+

lemma empty_db_wf: "db_wf empty_db"
  by (simp add: db_wf_defs empty_db_def game_ids_def)

interpretation tables: machine "\<lambda>d. d = empty_db" db_step db_wf
  by unfold_locales (auto intro: empty_db_wf db_step_wf)

section \<open>Properties\<close>

lemma sorted_events:
  assumes "db_wf d" "game_of d gid = Some r"
  shows "map ew_seq (game_events d gid) = [1..gw_event_seq r]" "sorted (map ew_seq (game_events d gid))"
  using assms game_of_Some [OF assms(2)] by (auto simp: db_wf_def log_ok_def)

lemma filter_upto: "0 \<le> k \<Longrightarrow> filter (\<lambda>x. k < x) [1..n] = [k + 1..n]"
proof (induction "nat n" arbitrary: n)
  case (Suc m)
  then have "0 < n" "m = nat (n - 1)" by simp_all
  with Suc.hyps(1) [of "n - 1"] Suc.prems show ?case by (cases "k < n") (simp_all add: upto_rec2)
qed simp

text \<open>In every database the repository can produce, the events of a game are numbered 1 to its counter without gap or repetition,
  and a client that has seen the events up to \<open>k\<close> is sent exactly the next ones, in order.\<close>

theorem event_log_is_gapless:
  assumes "reach (\<lambda>d. d = empty_db) db_step d" "game_of d gid = Some r" "0 \<le> k"
    and "events_since False d gid k n = Inr es"
  shows "map ew_seq (game_events d gid) = [1..gw_event_seq r] \<and> map ew_seq es = take n [k + 1..gw_event_seq r]"
proof -
  have wf: "db_wf d" by (rule tables.inv_reach [OF assms(1)])
  note ev = sorted_events [OF wf assms(2)]
  have "filter (\<lambda>e. ew_game e = gid \<and> k < ew_seq e) (db_events d) = filter (\<lambda>e. k < ew_seq e) (game_events d gid)"
    by (simp add: game_events_def)
  moreover have "sorted (map ew_seq (filter (\<lambda>e. k < ew_seq e) (game_events d gid)))"
    using ev(2) by (rule sorted_filter)
  ultimately have "es = take n (filter (\<lambda>e. k < ew_seq e) (game_events d gid))"
    using assms(4) by (simp add: events_since_def sort_key_id_if_sorted)
  moreover have seqs: "map ew_seq (filter (\<lambda>e. k < ew_seq e) es) = filter (\<lambda>x. k < x) (map ew_seq es)" for es
    by (simp add: filter_map comp_def)
  have "map ew_seq (filter (\<lambda>e. k < ew_seq e) (game_events d gid)) = [k + 1..gw_event_seq r]"
    unfolding seqs ev(1) by (simp add: filter_upto assms(3))
  ultimately show ?thesis using ev(1) by (simp add: take_map [symmetric])
qed

text \<open>A database with one public game, its two events, and the lease under epoch 1.\<close>

definition sample_record :: game_record where
  "sample_record = \<lparr>rc_id = ''g'', rc_state = new_game [1, 2] (default_config 2), rc_seats = fresh_seats 2,
     rc_status = StatusWaiting, rc_visibility = VisibilityPublic, rc_rematch = '''', rc_created = 1,
     rc_draw_by = -1, rc_offer = None\<rparr>"

definition sample_row :: "int \<Rightarrow> game_row" where
  "sample_row seq = \<lparr>gw_id = ''g'', gw_status = StatusWaiting, gw_config = default_config 2,
     gw_winner = Empty, gw_kind = WinNone, gw_visibility = VisibilityPublic, gw_rematch = None,
     gw_offer = None, gw_draw_by = -1, gw_event_seq = seq, gw_rated_at = None, gw_created = 5, gw_updated = 5\<rparr>"

definition sample_db :: "event_row list \<Rightarrow> db" where
  "sample_db es = empty_db\<lparr>db_games := [sample_row (int (length es))],
     db_seats := map (Pair ''g'') (fresh_seats 2), db_events := es\<rparr>"

definition sample_event :: "int \<Rightarrow> event_row" where
  "sample_event n = \<lparr>ew_game = ''g'', ew_seq = n, ew_type = ''move'', ew_payload = '''', ew_epoch = 0\<rparr>"

lemma fresh_seats_index: "distinct (map st_index (fresh_seats n))"
  by (simp add: fresh_seats_def empty_seat_def comp_def distinct_map inj_on_def)

lemma sample_save: "save_new_game False 5 empty_db sample_record = Inr (sample_db [])"
  using fresh_seats_index [of 2]
  by (simp add: sample_db_def save_new_game_def sample_record_def empty_db_def game_of_def sample_row_def
      new_game_def visibility_defs)

lemma sample_append:
  "append_event False (sample_db es) ''g'' ''move'' '''' 0
     = Inr (sample_db (es @ [sample_event (int (length es) + 1)]), int (length es) + 1)"
  by (simp add: append_event_def sample_db_def game_of_def fence_passes_def sample_row_def update_game_def
      sample_event_def Let_def add.commute)

lemma sample_reach_db: "reach (\<lambda>d. d = empty_db) db_step (sample_db (map sample_event [1..int n]))"
proof (induction n)
  case 0
  have "db_step empty_db (sample_db [])" by (rule db_step.intros(1) [OF sample_save])
  then show ?case by (auto intro: reach.intros)
next
  case (Suc n)
  have "db_step (sample_db (map sample_event [1..int n])) (sample_db (map sample_event [1..int n + 1]))"
    using db_step.intros(11) [OF sample_append [of "map sample_event [1..int n]"]] by (simp add: upto_rec2)
  then show ?case using Suc by (auto intro: reach.intros simp: add.commute)
qed

theorem event_log_is_gapless_witness:
  "map ew_seq (game_events (sample_db (map sample_event [1..2])) ''g'') = [1, 2]"
  using event_log_is_gapless [OF sample_reach_db [of 2], of "''g''" "sample_row 2" 0 5]
  by (simp add: events_since_def) (simp add: game_of_def sample_db_def sample_row_def upto_rec1)

text \<open>A write under a lease epoch that is not the current one is refused: neither an event nor an outcome of a stale
  owner is stored, and the two are accepted under the same epochs.\<close>

theorem stale_writes_are_refused:
  assumes "game_of d gid \<noteq> None" "ep \<noteq> 0"
  shows "(map_option lr_epoch (db_leases d gid) \<noteq> Some ep \<longrightarrow>
       append_event False d gid ty payload ep = Inl ErrStaleLease
       \<and> update_outcome False now d gid st w k ep = Inl ErrStaleLease)
    \<and> (map_option lr_epoch (db_leases d gid) = Some ep \<longrightarrow>
       (\<exists>d1 seq. append_event False d gid ty payload ep = Inr (d1, seq))
       \<and> (\<exists>d2. update_outcome False now d gid st w k ep = Inr d2
            \<and> map_option (\<lambda>r. (gw_status r, gw_winner r, gw_kind r)) (game_of d2 gid) = Some (st, w, k)))"
  using assms
  by (auto simp: append_event_def update_outcome_def fence_passes_def Let_def game_of_update split: option.splits)

theorem stale_writes_are_refused_witness:
  "append_event False (sample_db []) ''g'' ''move'' '''' 3 = Inl ErrStaleLease"
  using stale_writes_are_refused [of "sample_db []" "''g''" 3 "''move''" "''''"]
  by (simp add: sample_db_def game_of_def sample_row_def empty_db_def)

lemma rated_mono: "rated d gid \<Longrightarrow> set (db_games d) \<subseteq> set (db_games d') \<Longrightarrow> rated d' gid"
  by (auto simp: rated_def)

lemma rated_update:
  assumes "rated d gid" "\<And>r. gw_id (f r) = gw_id r" "\<And>r. gw_rated_at r \<noteq> None \<Longrightarrow> gw_rated_at (f r) \<noteq> None"
  shows "rated (update_game g f d) gid"
proof -
  obtain r where r: "r \<in> set (db_games d)" "gw_id r = gid" "gw_rated_at r \<noteq> None" using assms(1) by (auto simp: rated_def)
  let ?r = "if gw_id r = g then f r else r"
  have "?r \<in> set (db_games (update_game g f d))" unfolding update_game_rows using r(1) by (rule imageI)
  moreover have "gw_id ?r = gid \<and> gw_rated_at ?r \<noteq> None" using r assms(2,3) by simp
  ultimately show ?thesis unfolding rated_def by blast
qed

lemma rated_frame [simp]:
  "rated (d\<lparr>db_seats := a\<rparr>) gid = rated d gid" "rated (d\<lparr>db_moves := b\<rparr>) gid = rated d gid"
  "rated (d\<lparr>db_events := c\<rparr>) gid = rated d gid" "rated (d\<lparr>db_history := e\<rparr>) gid = rated d gid"
  "rated (d\<lparr>db_profiles := f\<rparr>) gid = rated d gid" "rated (d\<lparr>db_queue := g\<rparr>) gid = rated d gid"
  "rated (d\<lparr>db_messages := h\<rparr>) gid = rated d gid" "rated (d\<lparr>db_leases := i\<rparr>) gid = rated d gid"
  by (simp_all add: rated_def)

lemma rating_fold_games: "foldl (apply_rating_update now g mode) (Some d) us = Some d' \<Longrightarrow> db_games d' = db_games d"
proof (induction us arbitrary: d)
  case (Cons u us)
  then obtain d1 where d1: "apply_rating_update now g mode (Some d) u = Some d1"
    using rating_fold_None by (cases "apply_rating_update now g mode (Some d) u") auto
  then have "db_games d1 = db_games d" by (auto simp: apply_rating_update_def split: if_splits)
  with Cons.IH [of d1] Cons.prems d1 show ?case by simp
qed simp

lemma matched_fold_games:
  assumes "foldl (matched_game now players) (Some st) gis = Some st'"
  shows "set (db_games (fst st)) \<subseteq> set (db_games (fst st'))"
  using assms
proof (induction gis arbitrary: st)
  case (Cons x gis)
  have none: "foldl (matched_game now players) None gis = None" for gis :: "(queued_user list \<times> string) list"
    by (induction gis) (simp_all add: matched_game_def)
  then obtain st1 where st1: "matched_game now players (Some st) x = Some st1"
    using Cons.prems by (cases "matched_game now players (Some st) x") auto
  then have "set (db_games (fst st)) \<subseteq> set (db_games (fst st1))"
    by (auto simp: matched_game_def Let_def split: prod.splits if_splits)
  with Cons.IH [of st1] Cons.prems st1 show ?case by auto
qed simp

lemma db_step_rated:
  assumes "db_step d d'" "rated d gid"
  shows "rated d' gid \<or> gid \<notin> set (game_ids d')"
  using assms(1)
proof (cases rule: db_step.cases)
  case (1 bad now rc)
  then have "set (db_games d) \<subseteq> set (db_games d')" by (auto simp: save_new_game_def split: if_splits)
  with assms(2) show ?thesis using rated_mono by blast
next
  case (6 bad now older cnt)
  then obtain gone where d': "d' = delete_games gone d"
    by (auto simp: delete_stale_waiting_def Let_def split: if_splits)
  obtain r where r: "r \<in> set (db_games d)" "gw_id r = gid" "gw_rated_at r \<noteq> None"
    using assms(2) by (auto simp: rated_def)
  show ?thesis
  proof (cases "gid \<in> set gone")
    case True
    then show ?thesis by (auto simp: d' delete_games_def game_ids_def)
  next
    case False
    then have "rated d' gid"
      unfolding rated_def d' using r by (intro bexI [of _ "unlink_rematch gone r"]) (simp_all add: delete_games_def)
    then show ?thesis ..
  qed
next
  case (12 bad now g mode us ok)
  then have "d' = d \<or> (\<exists>x. foldl (apply_rating_update now g mode)
      (Some (update_game g (\<lambda>r. r\<lparr>gw_rated_at := Some x\<rparr>) d)) us = Some d')"
    by (auto simp: apply_rated_game_def split: if_splits option.splits)
  moreover have "rated (update_game g (\<lambda>r. r\<lparr>gw_rated_at := Some x\<rparr>) d) gid" for x
    by (rule rated_update [OF assms(2)]) simp_all
  ultimately show ?thesis
    using assms(2) rating_fold_games by (auto simp: rated_def)
next
  case (18 bad now locked new_id players mode pairFn seats)
  then have "set (db_games d) \<subseteq> set (db_games d')"
    using matched_fold_games [of now players "(d, [])" _ "(d', seats)"]
    by (auto simp: matchmake_tick_def Let_def split: if_splits option.splits)
  with assms(2) show ?thesis using rated_mono by blast
qed (use assms(2) in \<open>auto simp: update_seat_def update_outcome_def append_move_def finalize_start_def
  save_rematch_offer_def merge_rematch_acceptance_def save_draw_offer_def set_rematch_link_def append_event_def
  upsert_profile_def ensure_profile_def append_message_def enqueue_matchmake_def cancel_matchmake_def Let_def
  split: if_splits option.splits intro!: rated_update\<close>)

text \<open>C30: A game is rated at most once: an application that takes effect marks the game, every later call on a marked
  game reports that nothing was done and leaves the tables alone, and no call of the repository removes
  the mark except by deleting the game.\<close>

theorem game_is_rated_once:
  assumes "db_wf d"
  shows "(apply_rated_game bad now d gid mode us = Inr (d', True) \<longrightarrow> rated d' gid)
    \<and> (rated d gid \<longrightarrow> apply_rated_game False now d gid mode us = Inr (d, False))
    \<and> (rated d gid \<longrightarrow> db_step d d'' \<longrightarrow> rated d'' gid \<or> game_of d'' gid = None)"
proof (intro conjI impI)
  show "rated d' gid" if "apply_rated_game bad now d gid mode us = Inr (d', True)"
    using apply_rated_game_wf [OF assms that] by simp
next
  assume "rated d gid"
  then obtain r where "r \<in> set (db_games d)" "gw_id r = gid" "gw_rated_at r \<noteq> None" by (auto simp: rated_def)
  then have "game_of d gid = Some r" "gw_rated_at r \<noteq> None"
    using game_of_row [of d r] assms by (auto simp: db_wf_def keys_ok_def)
  then show "apply_rated_game False now d gid mode us = Inr (d, False)" by (auto simp: apply_rated_game_def)
next
  assume "rated d gid" "db_step d d''"
  then show "rated d'' gid \<or> game_of d'' gid = None" using db_step_rated by (auto simp: game_of_None)
qed

theorem game_is_rated_once_witness:
  "\<exists>d'. apply_rated_game False 9 (sample_db []) ''g'' ''1v1'' [] = Inr (d', True)
     \<and> apply_rated_game False 10 d' ''g'' ''1v1'' [] = Inr (d', False)"
proof -
  define d' where "d' = update_game ''g'' (\<lambda>r. r\<lparr>gw_rated_at := Some 9\<rparr>) (sample_db [])"
  have wf: "db_wf (sample_db [])" using tables.inv_reach [OF sample_reach_db [of 0]] by simp
  have "apply_rated_game False 9 (sample_db []) ''g'' ''1v1'' [] = Inr (d', True)"
    by (simp add: d'_def apply_rated_game_def sample_db_def game_of_def sample_row_def)
  moreover from this have "rated d' ''g''" using game_is_rated_once [OF wf] by blast
  moreover have "db_wf d'" unfolding d'_def by (rule update_game_wf [OF wf]) simp_all
  ultimately show ?thesis using game_is_rated_once [of d'] by blast
qed

text \<open>Two pods that record acceptances of the same rematch one after the other lose none of them, the
  seats that are bots count from the first one on, and of two rematch links written for a game the first
  stays and is what both writers are told.\<close>

theorem rematch_state_is_shared:
  assumes "game_of d gid = Some r"
    and "merge_rematch_acceptance False t1 d gid i bots = Inr (d1, o1)"
    and "merge_rematch_acceptance False t2 d1 gid j bots' = Inr (d2, o2)"
    and "set_rematch_link False d2 gid x = Inr (d3, got)" "set_rematch_link False d3 gid y = Inr (d4, got')"
    and "x \<noteq> ''''" "gw_rematch r \<noteq> Some ''''"
  shows "ro_accepted o2 = {i, j} \<union> (case gw_offer r of Some old \<Rightarrow> ro_accepted old | None \<Rightarrow> set bots)
    \<and> got' = got \<and> got = (case gw_rematch r of Some old \<Rightarrow> old | None \<Rightarrow> x)
    \<and> map_option (\<lambda>r. (gw_offer r, gw_rematch r)) (game_of d4 gid) = Some (Some o2, Some got)"
proof -
  define base where "base = (case gw_offer r of Some old \<Rightarrow> old | None \<Rightarrow> \<lparr>ro_accepted = set bots, ro_created = t1\<rparr>)"
  have o1: "o1 = base\<lparr>ro_accepted := insert i (ro_accepted base)\<rparr>"
    and r1: "game_of d1 gid = Some (r\<lparr>gw_offer := Some o1\<rparr>)"
    using assms(1,2) by (auto simp: merge_rematch_acceptance_def base_def Let_def game_of_update)
  have o2: "o2 = o1\<lparr>ro_accepted := insert j (ro_accepted o1)\<rparr>"
    and r2: "game_of d2 gid = Some (r\<lparr>gw_offer := Some o2\<rparr>)"
    using assms(3) r1 by (auto simp: merge_rematch_acceptance_def Let_def game_of_update)
  have got: "got = (case gw_rematch r of Some old \<Rightarrow> old | None \<Rightarrow> x)"
    and r3: "game_of d3 gid = Some (r\<lparr>gw_offer := Some o2, gw_rematch := Some got\<rparr>)"
    using assms(4,6,7) r2 by (auto simp: set_rematch_link_def Let_def game_of_update split: option.splits if_splits)
  have "got \<noteq> ''''" using assms(6,7) got by (auto split: option.splits)
  then have "got' = got" "game_of d4 gid = Some (r\<lparr>gw_offer := Some o2, gw_rematch := Some got\<rparr>)"
    using assms(5) r3 by (auto simp: set_rematch_link_def Let_def game_of_update)
  moreover have "ro_accepted o2 = {i, j} \<union> (case gw_offer r of Some old \<Rightarrow> ro_accepted old | None \<Rightarrow> set bots)"
    by (auto simp: o1 o2 base_def split: option.splits)
  ultimately show ?thesis using got by simp
qed

theorem rematch_state_is_shared_witness:
  "\<exists>d1 o1 d2 o2. merge_rematch_acceptance False 1 (sample_db []) ''g'' 0 [] = Inr (d1, o1)
     \<and> merge_rematch_acceptance False 2 d1 ''g'' 1 [] = Inr (d2, o2) \<and> ro_accepted o2 = {0, 1}"
proof -
  let ?row = "sample_row 0"
  have d: "game_of (sample_db []) ''g'' = Some ?row" by (simp add: sample_db_def game_of_def sample_row_def)
  obtain d1 o1 where m1: "merge_rematch_acceptance False 1 (sample_db []) ''g'' 0 [] = Inr (d1, o1)"
    using d by (simp add: merge_rematch_acceptance_def Let_def)
  then have "game_of d1 ''g'' \<noteq> None" using d by (auto simp: merge_rematch_acceptance_def Let_def game_of_update)
  then obtain d2 o2 where m2: "merge_rematch_acceptance False 2 d1 ''g'' 1 [] = Inr (d2, o2)"
    by (auto simp: merge_rematch_acceptance_def Let_def)
  then have r2: "game_of d2 ''g'' \<noteq> None" by (auto simp: merge_rematch_acceptance_def Let_def game_of_update split: option.splits)
  then obtain d3 got where l1: "set_rematch_link False d2 ''g'' ''g'' = Inr (d3, got)"
    by (auto simp: set_rematch_link_def Let_def)
  then have "game_of d3 ''g'' \<noteq> None"
    using r2 by (auto simp: set_rematch_link_def Let_def game_of_update split: option.splits if_splits)
  then obtain d4 got' where l2: "set_rematch_link False d3 ''g'' ''g'' = Inr (d4, got')"
    by (auto simp: set_rematch_link_def Let_def)
  from rematch_state_is_shared [OF d m1 m2 l1 l2] m1 m2 show ?thesis by (auto simp: sample_row_def)
qed

end
