(* ===== verification/Play_Props.thy ===== *)
theory Play_Props
  imports Game_Props Store_Props Repo_Props
begin

text \<open>
  What single requests and timeouts do: who may move and join, when a draw is agreed, what a fenced
  timeout leaves behind, and how a started game differs from its reload.
\<close>

lemma cached_get: "so_games st gid = Some r \<Longrightarrow> with_game env gid st k = k r st"
  by (simp add: with_game_def get_or_not_found_def get_game_def)

lemma token_seat:
  "seat_by_token hash rc tok = Some k \<Longrightarrow> k < length (rc_seats rc) \<and> st_hash (rc_seats rc ! k) = hash tok"
  using seat_by_token_Some [of hash rc tok k] by simp

section \<open>Moves\<close>

definition move_of :: "game_record \<Rightarrow> nat \<Rightarrow> int \<Rightarrow> int \<Rightarrow> move" where
  "move_of rc k q r0 = \<lparr>mv_player = st_color (rc_seats rc ! k), mv_pos = Position q r0\<rparr>"

lemma owner_frame [simp]:
  "rec_of (maybe_schedule_bot r s) = rec_of s" "rec_of (arm_clock env r s) = rec_of s" "rec_of (spawn t s) = rec_of s"
  "so_db (maybe_schedule_bot r s) = so_db s" "so_db (arm_clock env r s) = so_db s" "so_db (spawn t s) = so_db s"
  "so_tasks (arm_clock env r s) = so_tasks s" "so_tasks (spawn t s) = so_tasks s @ [t]"
  "set (so_tasks s) \<subseteq> set (so_tasks (maybe_schedule_bot r s))"
  by (auto simp: maybe_schedule_bot_def arm_clock_def spawn_def rec_of_def Let_def)

lemma set_rec_frame [simp]:
  "so_db (set_rec r x s) = so_db s" "so_tasks (set_rec r x s) = so_tasks s" "so_clocks (set_rec r x s) = so_clocks s"
  by (simp_all add: set_rec_def)

text \<open>What a successful write of a move leaves in the table of moves.\<close>

lemma append_move_stores:
  assumes "append_move bad now d gid ord m w kd stat = Inr d'"
  shows "\<lparr>mw_game = gid, mw_ordinal = ord, mw_move = m, mw_played = now\<rparr> \<in> set (db_moves d')"
  using assms by (auto simp: append_move_def update_game_def split: if_splits)

lemma save_draw_offer_moves: "save_draw_offer bad d gid i = Inr d' \<Longrightarrow> db_moves d' = db_moves d"
  by (auto simp: save_draw_offer_def update_game_def split: if_splits)

lemma save_draw_offer_errors: "save_draw_offer bad d gid i = Inl e \<Longrightarrow> e = ErrDatabase \<or> e = ErrGameNotFound"
  by (auto simp: save_draw_offer_def split: if_splits)

lemma append_move_errors: "append_move bad now d gid ord m w kd stat = Inl e \<Longrightarrow> e = ErrDatabase"
  by (auto simp: append_move_def split: if_splits)

text \<open>The two writes of a played move as one.\<close>

definition store_move :: "env \<Rightarrow> string \<Rightarrow> game_record \<Rightarrow> move \<Rightarrow> game_state \<Rightarrow> db \<Rightarrow> db \<times> app_error option" where
  "store_move env gid rc m g d0 =
     (case append_move (ev_fail env ''AppendMove'') (ev_dbnow env) d0 gid (int (length (gs_history (rc_state rc)))) m
             (gs_winner g) (gs_kind g) (rc_status (after_move rc g)) of
        Inl e \<Rightarrow> (d0, Some e)
      | Inr d \<Rightarrow> (case (if rc_draw_by rc \<ge> 0 then save_draw_offer (ev_fail env ''SaveDrawOffer'') d gid (-1) else Inr d) of
                    Inl e \<Rightarrow> (d, Some e) | Inr d2 \<Rightarrow> (d2, None)))"

lemma store_move_None:
  assumes "store_move env gid rc m g d0 = (d, None)"
  shows "\<lparr>mw_game = gid, mw_ordinal = int (length (gs_history (rc_state rc))), mw_move = m, mw_played = ev_dbnow env\<rparr>
    \<in> set (db_moves d)"
  using assms by (auto simp: store_move_def split: sum.splits if_splits dest!: append_move_stores save_draw_offer_moves)

lemma store_move_Some:
  "store_move env gid rc m g d0 = (d, Some e) \<Longrightarrow> e = ErrDatabase \<or> e = ErrGameNotFound"
  by (auto simp: store_move_def split: sum.splits if_splits dest!: append_move_errors save_draw_offer_errors)

lemma play_move_cached:
  assumes "so_games st gid = Some r"
  shows "play_move env gid token q r0 st =
    (let rc = rec_of st r
     in case seat_by_token (ev_hash env) rc token of
          None \<Rightarrow> (st, Inl ErrBadToken)
        | Some k \<Rightarrow>
            if rc_status rc \<noteq> StatusPlaying then (st, Inl ErrNotPlaying)
            else case apply_move (rc_state rc) (move_of rc k q r0) (ev_now env) of
                   Fail e \<Rightarrow> (st, Inl (ErrEngine e))
                 | Panic \<Rightarrow> (st, Inl EnginePanic)
                 | Done (g, res) \<Rightarrow>
                     (case store_move env gid rc (move_of rc k q r0) g (so_db st) of
                        (d, Some e) \<Rightarrow> ((set_rec r (after_move rc g) st)\<lparr>so_db := d\<rparr>, Inl e)
                      | (d, None) \<Rightarrow>
                          let st2 = arm_clock env r ((set_rec r (after_move rc g) st)\<lparr>so_db := d\<rparr>)
                          in (maybe_schedule_bot r (if is_over g then spawn (AfterEnd gid r) st2 else st2), Inr (r, res))))"
  unfolding play_move_def cached_get [OF assms]
  by (simp add: move_of_def store_move_def Let_def set_rec_def split: option.split outcome.split sum.split if_split prod.split)

text \<open>The state after a move that was written, and the three ways a request to move ends.\<close>

definition played :: "env \<Rightarrow> string \<Rightarrow> nat \<Rightarrow> game_state \<Rightarrow> db \<Rightarrow> store \<Rightarrow> store" where
  "played env gid r g d st =
     (let st2 = arm_clock env r ((set_rec r (after_move (rec_of st r) g) st)\<lparr>so_db := d\<rparr>)
      in maybe_schedule_bot r (if is_over g then spawn (AfterEnd gid r) st2 else st2))"

lemma played_facts:
  "rec_of (played env gid r g d st) r = after_move (rec_of st r) g" "so_db (played env gid r g d st) = d"
  "is_over g \<longrightarrow> AfterEnd gid r \<in> set (so_tasks (played env gid r g d st))"
  using owner_frame(9) [of "spawn (AfterEnd gid r) (arm_clock env r ((set_rec r (after_move (rec_of st r) g) st)\<lparr>so_db := d\<rparr>))" r]
  by (auto simp: played_def Let_def)

lemma play_move_cases [consumes 2, case_names Refused Played Unwritten]:
  assumes "so_games st gid = Some r" "play_move env gid token q r0 st = (st', res)"
  obtains (Refused) e where "st' = st" "res = Inl e" "e \<noteq> ErrDatabase" "e \<noteq> ErrGameNotFound"
    | (Played) k g mres d where "seat_by_token (ev_hash env) (rec_of st r) token = Some k" "rc_status (rec_of st r) = StatusPlaying"
        "apply_move (rc_state (rec_of st r)) (move_of (rec_of st r) k q r0) (ev_now env) = Done (g, mres)"
        "store_move env gid (rec_of st r) (move_of (rec_of st r) k q r0) g (so_db st) = (d, None)"
        "st' = played env gid r g d st" "res = Inr (r, mres)"
    | (Unwritten) k g mres d e where "seat_by_token (ev_hash env) (rec_of st r) token = Some k" "rc_status (rec_of st r) = StatusPlaying"
        "apply_move (rc_state (rec_of st r)) (move_of (rec_of st r) k q r0) (ev_now env) = Done (g, mres)"
        "store_move env gid (rec_of st r) (move_of (rec_of st r) k q r0) g (so_db st) = (d, Some e)"
        "st' = (set_rec r (after_move (rec_of st r) g) st)\<lparr>so_db := d\<rparr>" "res = Inl e" "e = ErrDatabase \<or> e = ErrGameNotFound"
proof (cases "seat_by_token (ev_hash env) (rec_of st r) token")
  case None
  then show thesis using assms(2) by (intro Refused [of ErrBadToken]) (simp_all add: play_move_cached [OF assms(1)] Let_def)
next
  case (Some k)
  note seat = Some
  let ?m = "move_of (rec_of st r) k q r0"
  note eq = assms(2) [unfolded play_move_cached [OF assms(1)] Let_def Some option.case]
  show thesis
  proof (cases "rc_status (rec_of st r) = StatusPlaying \<and> (\<exists>x. apply_move (rc_state (rec_of st r)) ?m (ev_now env) = Done x)")
    case False
    then show thesis using eq Refused by (auto split: outcome.splits if_splits)
  next
    case True
    then obtain g mres where p: "rc_status (rec_of st r) = StatusPlaying"
      "apply_move (rc_state (rec_of st r)) ?m (ev_now env) = Done (g, mres)" by auto
    obtain d eo where w: "store_move env gid (rec_of st r) ?m g (so_db st) = (d, eo)" by fastforce
    show thesis
    proof (cases eo)
      case None
      then show thesis using eq p w by (intro Played [OF Some]) (auto simp: played_def Let_def)
    next
      case (Some e)
      then show thesis using eq p w store_move_Some [of env gid "rec_of st r" ?m g "so_db st" d e]
        by (intro Unwritten [OF seat p]) auto
    qed
  qed
qed

text \<open>C7: A move is only played by the holder of the token of the seat whose colour is to move, in a game that is
  being played: then the record holds the engine's result, is finished exactly when the game is decided,
  has no draw offer left, the move is in the database under the next ordinal, and a decided game's end is
  scheduled. A refused request changes nothing. When a write fails, however, the request is answered with an error although the accepted
  move stays in the game in memory, which is finished if the move decides it; neither the clock is re-armed nor the end of a decided game
  scheduled, and if it was the move itself that could not be written, the database stays as it was. All this is of a game that the
  process has in memory.\<close>

theorem play_move_is_authorised:
  assumes "so_games st gid = Some r" "play_move env gid token q r0 st = (st', res)"
  shows "(\<forall>r' mres. res = Inr (r', mres) \<longrightarrow> r' = r \<and> rc_status (rec_of st r) = StatusPlaying
      \<and> (\<exists>k < length (rc_seats (rec_of st r)). st_hash (rc_seats (rec_of st r) ! k) = ev_hash env token
           \<and> st_color (rc_seats (rec_of st r) ! k) = pl_color (current_player (rc_state (rec_of st r)))
           \<and> apply_move (rc_state (rec_of st r)) (move_of (rec_of st r) k q r0) (ev_now env) = Done (rc_state (rec_of st' r), mres)
           \<and> \<lparr>mw_game = gid, mw_ordinal = int (length (gs_history (rc_state (rec_of st r)))),
               mw_move = move_of (rec_of st r) k q r0, mw_played = ev_dbnow env\<rparr> \<in> set (db_moves (so_db st')))
      \<and> rc_status (rec_of st' r) = (if is_over (rc_state (rec_of st' r)) then StatusFinished else StatusPlaying)
      \<and> rc_draw_by (rec_of st' r) = -1
      \<and> (is_over (rc_state (rec_of st' r)) \<longrightarrow> AfterEnd gid r \<in> set (so_tasks st')))
    \<and> (\<forall>e. res = Inl e \<longrightarrow> so_tasks st' = so_tasks st \<and> so_clocks st' = so_clocks st
      \<and> (if e = ErrDatabase \<or> e = ErrGameNotFound
         then (\<exists>k < length (rc_seats (rec_of st r)). st_hash (rc_seats (rec_of st r) ! k) = ev_hash env token
                 \<and> (\<exists>mres. apply_move (rc_state (rec_of st r)) (move_of (rec_of st r) k q r0) (ev_now env) = Done (rc_state (rec_of st' r), mres)))
           \<and> rc_status (rec_of st' r) = (if is_over (rc_state (rec_of st' r)) then StatusFinished else StatusPlaying)
           \<and> (ev_fail env ''AppendMove'' \<longrightarrow> so_db st' = so_db st)
         else st' = st))"
  using assms
proof (cases rule: play_move_cases)
  case (Played k g mres d)
  have "st_color (rc_seats (rec_of st r) ! k) = pl_color (current_player (rc_state (rec_of st r)))"
    using Played(3) unfolding apply_move_def by (auto simp: move_of_def split: if_splits)
  then show ?thesis
    using Played token_seat [OF Played(1)] played_facts [where env = env and gid = gid and r = r and g = g and d = d and st = st]
      store_move_None [OF Played(4)] by (auto simp: after_move_def)
next
  case (Unwritten k g mres d e)
  have "d = so_db st" if "ev_fail env ''AppendMove''" using Unwritten(4) that by (simp add: store_move_def append_move_def)
  then show ?thesis using Unwritten token_seat [OF Unwritten(1)] by (auto simp: after_move_def)
qed simp

text \<open>A game of two at the table: the first seat is to move, the second has offered a draw.\<close>

definition table_seats :: "seat list" where
  "table_seats = [(empty_seat 0 1)\<lparr>st_hash := ''ha'', st_occupied := True\<rparr>, (empty_seat 1 2)\<lparr>st_hash := ''hb'', st_occupied := True\<rparr>]"

definition table_record :: game_record where
  "table_record = \<lparr>rc_id = ''g'', rc_state = sample_game, rc_seats = table_seats, rc_status = StatusPlaying,
     rc_visibility = VisibilityPrivate, rc_rematch = '''', rc_created = 0, rc_draw_by = 1, rc_offer = None\<rparr>"

definition table_db :: db where
  "table_db = (case save_new_game False 5 empty_db table_record of Inr d \<Rightarrow> d | Inl _ \<Rightarrow> empty_db)"

definition table_store :: "manager option \<Rightarrow> lease_table \<Rightarrow> store" where
  "table_store m t = (new_store table_record m False None (table_db\<lparr>db_leases := t\<rparr>))
     \<lparr>so_next := 1, so_games := [''g'' \<mapsto> 0]\<rparr>"

definition table_env :: env where
  "table_env = sample_env\<lparr>ev_now := 5000000\<rparr>"

lemma table_facts [simp]:
  "so_games (table_store m t) ''g'' = Some 0" "rec_of (table_store m t) r = table_record"
  "rc_status table_record = StatusPlaying" "rc_seats table_record = table_seats" "rc_state table_record = sample_game"
  "rc_draw_by table_record = 1" "rc_id table_record = ''g''" "so_leases (table_store m t) = m"
  "ev_hash table_env x = CHR ''h'' # x" "ev_now table_env = 5000000" "ev_fail table_env x = False"
  "so_forward (table_store m t) = False" "rc_visibility table_record = VisibilityPrivate"
  by (simp_all add: table_store_def new_store_def rec_of_def table_record_def table_env_def sample_env_def)

lemma table_seats_simps [simp]:
  "length table_seats = 2" "table_seats ! 0 = (empty_seat 0 1)\<lparr>st_hash := ''ha'', st_occupied := True\<rparr>"
  "table_seats ! Suc 0 = (empty_seat 1 2)\<lparr>st_hash := ''hb'', st_occupied := True\<rparr>"
  by (simp_all add: table_seats_def)

lemma table_tokens: "seat_by_token (ev_hash table_env) table_record ''a'' = Some 0"
  by (simp add: seat_by_token_def table_seats_def)

lemma table_db_facts:
  "game_of table_db ''g'' \<noteq> None" "db_moves table_db = []"
  by (simp_all add: table_db_def save_new_game_def empty_db_def game_of_def table_seats_def empty_seat_def visibility_defs)

lemma table_db_store: "so_db (table_store m t) = table_db\<lparr>db_leases := t\<rparr>"
  by (simp add: table_store_def new_store_def)

lemma table_game [simp]: "game_of (table_db\<lparr>db_leases := t\<rparr>) ''g'' \<noteq> None"
  using table_db_facts(1) by (simp add: game_of_def)

lemma append_move_game:
  "append_move bad now d gid ord m w kd stat = Inr d' \<Longrightarrow> game_of d' gid \<noteq> None"
  by (auto simp: append_move_def game_of_update game_of_def [of "d\<lparr>db_moves := _\<rparr>"] split: if_splits)
    (auto simp: game_of_def)

lemma table_write: "\<exists>d. store_move table_env ''g'' table_record m g (table_db\<lparr>db_leases := t\<rparr>) = (d, None)"
proof -
  obtain d where d: "append_move False (ev_dbnow table_env) (table_db\<lparr>db_leases := t\<rparr>) ''g''
      (int (length (gs_history sample_game))) m (gs_winner g) (gs_kind g) (rc_status (after_move table_record g)) = Inr d"
    using table_game [of t] table_db_facts(2) by (auto simp: append_move_def)
  show ?thesis
    using append_move_game [OF d] by (auto simp: store_move_def d save_draw_offer_def)
qed

theorem play_move_is_authorised_witness:
  "rc_state (rec_of (fst (play_move table_env ''g'' ''a'' 0 1 (table_store None Map.empty))) 0) = fst sample_result"
proof -
  let ?st = "table_store None Map.empty"
  have mv: "move_of table_record 0 0 1 = sample_mv"
    by (simp add: move_of_def sample_mv_def empty_seat_def)
  obtain g mr where sr: "sample_result = (g, mr)" by (cases sample_result)
  obtain d where "store_move table_env ''g'' table_record sample_mv g (table_db\<lparr>db_leases := Map.empty\<rparr>) = (d, None)"
    using table_write by blast
  then have "\<exists>st'. play_move table_env ''g'' ''a'' 0 1 ?st = (st', Inr (0, snd sample_result))"
    using sample_move unfolding sr
    by (simp add: play_move_cached [of ?st "''g''" 0] Let_def table_tokens mv table_db_store)
  then obtain st' where "play_move table_env ''g'' ''a'' 0 1 ?st = (st', Inr (0, snd sample_result))" ..
  with play_move_is_authorised [of ?st "''g''" 0 table_env "''a''" 0 1 st' "Inr (0, snd sample_result)"]
  obtain k where k: "k < 2" "st_hash (table_seats ! k) = ''ha''"
    "apply_move sample_game (move_of table_record k 0 1) 5000000 = Done (rc_state (rec_of st' 0), snd sample_result)"
    by auto
  have "k = 0" using k(1,2) by (cases k) (auto simp: less_Suc_eq numeral_2_eq_2)
  with k(3) mv sample_move \<open>play_move _ _ _ _ _ _ = _\<close> show ?thesis by (simp add: prod_eq_iff)
qed

section \<open>Timeouts\<close>

lemma game_ended_frame [simp]:
  "so_db (game_ended gid s) = so_db s" "so_leases (game_ended gid s) = so_leases s" "so_tasks (game_ended gid s) = so_tasks s"
  "so_notes (game_ended gid s) = so_notes s" "so_games (game_ended gid s) = so_games s"
  "so_forward (game_ended gid s) = so_forward s"
  by (simp_all add: game_ended_def)

lemma set_rec_frame2 [simp]:
  "so_leases (set_rec r x s) = so_leases s" "so_notes (set_rec r x s) = so_notes s" "so_games (set_rec r x s) = so_games s"
  "so_forward (set_rec r x s) = so_forward s"
  by (simp_all add: set_rec_def)

lemma rating_frame [simp]:
  "so_db (maybe_apply_rating r s) = so_db s" "rec_of (maybe_apply_rating r s) = rec_of s"
  "so_notes (maybe_apply_rating r s) = so_notes s" "so_clocks (maybe_apply_rating r s) = so_clocks s"
  by (simp_all add: maybe_apply_rating_def spawn_def rec_of_def fun_eq_iff Let_def)

lemma notify_frame [simp]:
  "so_db (notify n s) = so_db s" "so_notes (notify n s) = so_notes s @ [n]" "so_clocks (notify n s) = so_clocks s"
  by (simp_all add: notify_def)

lemma lease_epoch_cong: "so_leases s = so_leases s' \<Longrightarrow> lease_epoch s gid = lease_epoch s' gid"
  by (simp add: lease_epoch_def)

lemma lease_epoch_owns: "lease_epoch st gid \<noteq> 0 \<Longrightarrow> \<not> so_forward st \<Longrightarrow> owns_game st gid"
  by (auto simp: lease_epoch_def owns_game_def split: option.splits)

lemma drop_frame:
  "so_games (drop_cached env gid s) = (so_games s)(gid := None)" "so_db (drop_cached env gid s) = so_db s"
  "so_tasks (drop_cached env gid s) = so_tasks s" "so_notes (drop_cached env gid s) = so_notes s"
  "so_leases (drop_cached env gid s) = so_leases s" "so_forward (drop_cached env gid s) = so_forward s"
  by (simp_all add: drop_cached_def unwatch_def Let_def)

text \<open>Whether a timeout that concerns the game acts: the two handlers' guards.\<close>

definition flag_due :: "env \<Rightarrow> game_record \<Rightarrow> bool" where
  "flag_due env rc \<longleftrightarrow> rc_status rc = StatusPlaying \<and> \<not> is_over (rc_state rc)
     \<and> remaining_for_active (rc_state rc) (ev_now env) \<le> 0"

lemma handle_flag_due:
  "so_games st gid = Some r \<Longrightarrow> flag_due env (rec_of st r)
    \<Longrightarrow> handle_flag env gid st = forfeit_seat env gid r (pl_color (current_player (rc_state (rec_of st r)))) st"
  by (simp add: handle_flag_def flag_due_def Let_def)

lemma handle_flag_not_due:
  "so_games st gid = Some r \<Longrightarrow> \<not> flag_due env (rec_of st r) \<Longrightarrow> handle_flag env gid st = st"
  by (auto simp: handle_flag_def flag_due_def Let_def)

lemma forfeit_stale:
  assumes "record_outcome env gid r (game_ended gid (set_rec r ((rec_of st r)\<lparr>rc_state := forfeit (rc_state (rec_of st r)) loser,
      rc_status := StatusFinished\<rparr>) st)) = Inl ErrStaleLease" "lease_epoch st gid \<noteq> 0" "\<not> so_forward st"
  defines "st' \<equiv> forfeit_seat env gid r loser st"
  shows "so_games st' gid = None" "so_db st' = so_db st" "so_notes st' = so_notes st" "so_tasks st' = so_tasks st @ [Adopt gid]"
proof -
  let ?s = "game_ended gid (set_rec r ((rec_of st r)\<lparr>rc_state := forfeit (rc_state (rec_of st r)) loser,
      rc_status := StatusFinished\<rparr>) st)"
  have "lease_epoch (drop_cached env gid ?s) gid = lease_epoch st gid" by (rule lease_epoch_cong) (simp add: drop_frame)
  then have "owns_game (drop_cached env gid ?s) gid" using assms(2,3) by (intro lease_epoch_owns) (simp_all add: drop_frame)
  then have "st' = spawn (Adopt gid) (drop_cached env gid ?s)"
    using assms(1) by (simp add: st'_def forfeit_seat_def invalidate_def Let_def)
  then show "so_games st' gid = None" "so_db st' = so_db st" "so_notes st' = so_notes st" "so_tasks st' = so_tasks st @ [Adopt gid]"
    by (simp_all add: spawn_def drop_frame)
qed

text \<open>The end of a game by the clock, with an outcome that is written, or not written for another reason than the fence.\<close>

lemma flag_written:
  assumes "so_games st gid = Some r" "game_of (so_db st) gid \<noteq> None" "flag_due env (rec_of st r)"
    "fence_passes (db_leases (so_db st)) gid (lease_epoch st gid) \<or> ev_fail env ''UpdateOutcome''"
  defines "st' \<equiv> handle_flag env gid st"
  shows "rc_status (rec_of st' r) = StatusFinished" "OnState gid \<in> set (so_notes st')"
    "if ev_fail env ''UpdateOutcome'' then so_db st' = so_db st
     else \<exists>row. game_of (so_db st') gid = Some row \<and> gw_status row = StatusFinished \<and> gw_kind row = WinTimeout"
    "db_leases (so_db st') = db_leases (so_db st)"
proof -
  let ?g = "rc_state (rec_of st r)" and ?loser = "pl_color (current_player (rc_state (rec_of st r)))"
  let ?s = "game_ended gid (set_rec r ((rec_of st r)\<lparr>rc_state := forfeit ?g ?loser, rc_status := StatusFinished\<rparr>) st)"
  have ep: "lease_epoch ?s gid = lease_epoch st gid" by (rule lease_epoch_cong) simp
  have kind: "gs_kind (forfeit ?g ?loser) = WinTimeout"
    using assms(3) by (simp add: flag_due_def forfeit_def Let_def split: option.split)
  define d where "d = (if ev_fail env ''UpdateOutcome'' then so_db st
    else update_game gid (\<lambda>w. w\<lparr>gw_status := StatusFinished, gw_winner := gs_winner (forfeit ?g ?loser),
             gw_kind := WinTimeout, gw_updated := ev_dbnow env\<rparr>) (so_db st))"
  have "record_outcome env gid r ?s = (if ev_fail env ''UpdateOutcome'' then Inl ErrDatabase else Inr d)"
    using assms(2,4) kind by (auto simp: record_outcome_def update_outcome_def ep d_def)
  then have st': "st' = notify (OnState gid) (maybe_apply_rating r (if ev_fail env ''UpdateOutcome'' then ?s else ?s\<lparr>so_db := d\<rparr>))"
    by (simp add: st'_def handle_flag_due [OF assms(1,3)] forfeit_seat_def Let_def)
  show "rc_status (rec_of st' r) = StatusFinished" "OnState gid \<in> set (so_notes st')" by (simp_all add: st')
  show "if ev_fail env ''UpdateOutcome'' then so_db st' = so_db st
     else \<exists>row. game_of (so_db st') gid = Some row \<and> gw_status row = StatusFinished \<and> gw_kind row = WinTimeout"
    using assms(2) by (auto simp: st' d_def game_of_update)
  show "db_leases (so_db st') = db_leases (so_db st)" by (simp add: st' d_def update_game_def)
qed

text \<open>C8: When the flag of a cached game is due and the row of its lease has another epoch than the process remembers, then, if the database
  can be reached, neither the database nor a listener hears of the forfeit, and the process drops its copy of the game and
  loads it again. When the epoch is current, or the process remembers none, the database has the game as finished by timeout and the listeners are told.
  When the write fails for any other reason, the database keeps the game as it was, but the game is over in memory and the
  listeners are told all the same. A flag that is not due changes nothing.\<close>

theorem flag_is_fenced:
  fixes env :: env
  assumes "so_games st gid = Some r" "game_of (so_db st) gid \<noteq> None" "\<not> so_forward st"
  defines "st' \<equiv> handle_flag env gid st"
  shows "(\<not> flag_due env (rec_of st r) \<longrightarrow> st' = st)
    \<and> (flag_due env (rec_of st r) \<and> \<not> ev_fail env ''UpdateOutcome'' \<and> \<not> fence_passes (db_leases (so_db st)) gid (lease_epoch st gid) \<longrightarrow>
         so_db st' = so_db st \<and> so_notes st' = so_notes st \<and> so_games st' gid = None
         \<and> so_tasks st' = so_tasks st @ [Adopt gid])
    \<and> (flag_due env (rec_of st r) \<and> \<not> ev_fail env ''UpdateOutcome'' \<and> fence_passes (db_leases (so_db st)) gid (lease_epoch st gid) \<longrightarrow>
         (\<exists>row. game_of (so_db st') gid = Some row \<and> gw_status row = StatusFinished \<and> gw_kind row = WinTimeout)
         \<and> rc_status (rec_of st' r) = StatusFinished \<and> OnState gid \<in> set (so_notes st'))
    \<and> (flag_due env (rec_of st r) \<and> ev_fail env ''UpdateOutcome'' \<longrightarrow>
         so_db st' = so_db st \<and> rc_status (rec_of st' r) = StatusFinished \<and> OnState gid \<in> set (so_notes st'))"
proof -
  let ?g = "rc_state (rec_of st r)" and ?loser = "pl_color (current_player (rc_state (rec_of st r)))"
  let ?s = "game_ended gid (set_rec r ((rec_of st r)\<lparr>rc_state := forfeit ?g ?loser, rc_status := StatusFinished\<rparr>) st)"
  have stale: "so_db st' = so_db st \<and> so_notes st' = so_notes st \<and> so_games st' gid = None \<and> so_tasks st' = so_tasks st @ [Adopt gid]"
    if due: "flag_due env (rec_of st r)" "\<not> ev_fail env ''UpdateOutcome''" and f: "\<not> fence_passes (db_leases (so_db st)) gid (lease_epoch st gid)"
  proof -
    have ep: "lease_epoch ?s gid = lease_epoch st gid" by (rule lease_epoch_cong) simp
    have known: "lease_epoch st gid \<noteq> 0" using f by (auto simp: fence_passes_def)
    have "record_outcome env gid r ?s = Inl ErrStaleLease"
      using f assms(2) due(2) known by (simp add: record_outcome_def update_outcome_def ep)
    from forfeit_stale [OF this known assms(3)] handle_flag_due [OF assms(1) due(1)] show ?thesis by (simp add: st'_def)
  qed
  note written = flag_written [OF assms(1,2), of env, folded st'_def]
  show ?thesis using stale written(1-3) handle_flag_not_due [OF assms(1)] by (auto simp: st'_def)
qed

text \<open>The process remembers epoch one of a lease that another process took over under epoch two.\<close>

definition stale_manager :: manager where
  "stale_manager = (new_manager ''pod-a'')\<lparr>mg_held := [''g'' \<mapsto> 1]\<rparr>"

definition taken_over :: lease_table where
  "taken_over = [''g'' \<mapsto> \<lparr>lr_owner = ''pod-b'', lr_addr = '''', lr_epoch = 2, lr_expires = 99\<rparr>]"

theorem flag_is_fenced_witness:
  "so_games (handle_flag (table_env\<lparr>ev_now := 9000000000\<rparr>) ''g'' (table_store (Some stale_manager) taken_over)) ''g'' = None"
proof -
  let ?st = "table_store (Some stale_manager) taken_over" and ?env = "table_env\<lparr>ev_now := 9000000000\<rparr>"
  have e: "lease_epoch ?st ''g'' = 1" by (simp add: lease_epoch_def held_def stale_manager_def)
  have f: "\<not> fence_passes (db_leases (so_db ?st)) ''g'' (lease_epoch ?st ''g'')"
    unfolding e by (simp add: fence_passes_def table_db_store taken_over_def)
  have d: "flag_due ?env (rec_of ?st 0)" unfolding flag_due_def by simp code_simp
  show ?thesis using flag_is_fenced [of ?st "''g''" 0 ?env] e f d by (simp add: table_db_store)
qed

section \<open>Joining\<close>

lemma pick_seat_prefers:
  assumes "user \<noteq> ''''" "s \<in> set seats" "\<not> st_occupied s" "st_user s = user"
  shows "st_user (seats ! nat (pick_seat_for_user seats user)) = user"
proof -
  obtain y where y: "find_index (\<lambda>s. \<not> st_occupied s \<and> st_user s = user) seats = Some y"
    using assms by (cases "find_index (\<lambda>s. \<not> st_occupied s \<and> st_user s = user) seats") (auto simp: find_index_None)
  then show ?thesis
    using assms(1) find_index_Some [OF y] by (simp add: pick_seat_for_user_def)
qed

lemma persist_Inr:
  "persist_seat env r i s = (s', Inr u) \<Longrightarrow>
    (\<exists>d. update_seat (ev_fail env ''UpdateSeat'') (ev_dbnow env) (so_db s) (rc_id (rec_of s r)) (seat_at (rec_of s r) i)
        (rc_status (rec_of s r)) = Inr d \<and> s' = s\<lparr>so_db := d\<rparr>)"
  by (auto simp: persist_seat_def Let_def split: sum.splits)

lemma join_seat_Inr:
  assumes "join_seat rc user i = Inr k"
  shows "rc_status rc = StatusWaiting" "0 \<le> k" "nat k < length (rc_seats rc)" "\<not> st_occupied (seat_at rc k)"
    "st_user (seat_at rc k) = '''' \<or> st_user (seat_at rc k) = user"
    "rc_visibility rc = VisibilityPublic \<longrightarrow> user \<noteq> ''''" "0 \<le> i \<longrightarrow> k = i"
    "i < 0 \<longrightarrow> user \<noteq> '''' \<longrightarrow> (\<exists>s \<in> set (rc_seats rc). \<not> st_occupied s \<and> st_user s = user) \<longrightarrow> st_user (seat_at rc k) = user"
proof -
  note cases = assms [unfolded join_seat_def Let_def]
  show "rc_status rc = StatusWaiting" "rc_visibility rc = VisibilityPublic \<longrightarrow> user \<noteq> ''''" "0 \<le> i \<longrightarrow> k = i" "0 \<le> k"
    using cases by (auto split: if_splits)
  show "nat k < length (rc_seats rc)" "\<not> st_occupied (seat_at rc k)"
    "st_user (seat_at rc k) = '''' \<or> st_user (seat_at rc k) = user"
    using cases pick_seat_range [OF refl, of "rc_seats rc" user] by (auto simp: seat_at_def split: if_splits)
  show "i < 0 \<longrightarrow> user \<noteq> '''' \<longrightarrow> (\<exists>s \<in> set (rc_seats rc). \<not> st_occupied s \<and> st_user s = user) \<longrightarrow> st_user (seat_at rc k) = user"
    using cases pick_seat_prefers by (auto simp: seat_at_def split: if_splits)
qed

text \<open>C9: A player only ever joins a game that is waiting, on a seat that was free and not reserved for somebody
  else, with an account if the game is public; without a choice of seat an invited user gets a seat reserved
  for him. Only that seat changes, the returned token is the one whose hash it carries, the seat is written
  through to the database, and the game starts exactly when every seat is taken.\<close>

theorem join_takes_one_free_seat:
  assumes "so_games st gid = Some r" "join env gid name user i st = (st', Inr (s, tok))"
  defines "rc \<equiv> rec_of st r" and "rc' \<equiv> rec_of st' r"
  shows "rc_status rc = StatusWaiting \<and> (rc_visibility rc = VisibilityPublic \<longrightarrow> user \<noteq> '''')
    \<and> (\<exists>k < length (rc_seats rc). \<not> st_occupied (rc_seats rc ! k)
        \<and> (st_user (rc_seats rc ! k) = '''' \<or> st_user (rc_seats rc ! k) = user) \<and> (0 \<le> i \<longrightarrow> k = nat i)
        \<and> (i < 0 \<and> user \<noteq> '''' \<and> (\<exists>s \<in> set (rc_seats rc). \<not> st_occupied s \<and> st_user s = user)
             \<longrightarrow> st_user (rc_seats rc ! k) = user)
        \<and> rc_seats rc' = (rc_seats rc)[k := s] \<and> st_index s = st_index (rc_seats rc ! k) \<and> st_color s = st_color (rc_seats rc ! k)
        \<and> st_occupied s \<and> st_user s = user \<and> st_name s = name \<and> st_hash s = ev_hash env tok)
    \<and> rc_status rc' = (if list_all st_occupied (rc_seats rc') then StatusPlaying else StatusWaiting)
    \<and> update_seat False (ev_dbnow env) (so_db st) (rc_id rc) s (rc_status rc') = Inr (so_db st')"
proof -
  have j: "(case join_seat rc user i of
            Inl e \<Rightarrow> (st, Inl e)
          | Inr idx \<Rightarrow>
              let token = ev_tokens env 0;
                  s = (seat_at rc idx)\<lparr>st_name := name, st_hash := ev_hash env token, st_user := user, st_occupied := True\<rparr>;
                  (rc', started) = start_if_full env (put_seat rc idx s);
                  st1 = set_rec r rc' st
              in case persist_seat env r idx st1 of
                   (st2, Inl e) \<Rightarrow> (st2, Inl e)
                 | (st2, Inr _) \<Rightarrow>
                     (if started then spawn (ScheduleBot r) (arm_clock env r st2) else st2, Inr (s, token))) = (st', Inr (s, tok))"
    using assms(2) unfolding join_def cached_get [OF assms(1)] Let_def rc_def by simp
  then obtain k where k: "join_seat rc user i = Inr k" by (auto split: sum.splits)
  note seat = join_seat_Inr [OF k]
  let ?s = "(seat_at rc k)\<lparr>st_name := name, st_hash := ev_hash env (ev_tokens env 0), st_user := user, st_occupied := True\<rparr>"
  obtain rc1 b where full: "start_if_full env (put_seat rc k ?s) = (rc1, b)" by (cases "start_if_full env (put_seat rc k ?s)")
  obtain st2 x where p: "persist_seat env r k (set_rec r rc1 st) = (st2, x)" by (cases "persist_seat env r k (set_rec r rc1 st)")
  have x: "x = Inr ()" "st' = (if b then spawn (ScheduleBot r) (arm_clock env r st2) else st2)" "s = ?s" "tok = ev_tokens env 0"
    using j by (auto simp: k full p Let_def split: sum.splits)
  obtain d where d: "update_seat (ev_fail env ''UpdateSeat'') (ev_dbnow env) (so_db st) (rc_id rc1) (seat_at rc1 k) (rc_status rc1) = Inr d"
    "st2 = (set_rec r rc1 st)\<lparr>so_db := d\<rparr>"
    using persist_Inr [OF p [unfolded x(1)]] by auto
  have rc1: "rc_seats rc1 = (rc_seats rc)[nat k := ?s]" "rc_id rc1 = rc_id rc"
    "rc_status rc1 = (if list_all st_occupied (rc_seats rc1) then StatusPlaying else StatusWaiting)"
    using full seat(1) by (auto simp: start_if_full_def put_seat_def all_seated_def split: if_splits)
  have at: "seat_at rc1 k = ?s" using seat(2,3) by (simp add: seat_at_def rc1(1))
  have st': "rc' = rc1" "so_db st' = d" by (simp_all add: rc'_def x(2) d(2))
  have "update_seat False (ev_dbnow env) (so_db st) (rc_id rc) ?s (rc_status rc1) = Inr d"
    using d(1) at rc1(2) by (auto simp: update_seat_def split: if_splits)
  moreover have "(i < 0 \<and> user \<noteq> '''' \<and> (\<exists>s \<in> set (rc_seats rc). \<not> st_occupied s \<and> st_user s = user)
      \<longrightarrow> st_user (rc_seats rc ! nat k) = user)" using seat(8) by (auto simp: seat_at_def)
  ultimately show ?thesis
    using seat(1-7) rc1 st' x by (intro conjI exI [of _ "nat k"]) (auto simp: seat_at_def)
qed

theorem join_takes_one_free_seat_witness:
  "rc_status (rec_of joined_store 0) = StatusWaiting"
proof -
  have j: "join sample_env ''g'' ''Ada'' '''' 0 created_store = (joined_store, snd (join sample_env ''g'' ''Ada'' '''' 0 created_store))"
    by (simp add: joined_store_def)
  have "\<exists>s tok. snd (join sample_env ''g'' ''Ada'' '''' 0 created_store) = Inr (s, tok)"
    by (simp add: join_def cached_get [of created_store _ 0] created_facts two_seats join_seat_def Let_def seat_at_def empty_seat_def
        visibility_defs start_if_full_def put_seat_def all_seated_def persist_seat_def update_seat_def sample_env_def
        split: prod.splits sum.splits)
  then obtain s tok where "join sample_env ''g'' ''Ada'' '''' 0 created_store = (joined_store, Inr (s, tok))" using j by auto
  from join_takes_one_free_seat [OF _ this, of 0] created_facts
  obtain k :: nat where k: "k < 2" "rc_seats (rec_of joined_store 0) = (fresh_seats 2)[k := s]" "k = 0"
    and full: "rc_status (rec_of joined_store 0)
      = (if list_all st_occupied (rc_seats (rec_of joined_store 0)) then StatusPlaying else StatusWaiting)"
    by (auto simp: two_seats)
  show ?thesis using full k by (simp add: two_seats empty_seat_def)
qed

section \<open>Draws\<close>

lemma publish_draw_frame [simp]:
  "rec_of (fst (publish_draw_offer env gid i s)) = rec_of s"
  "so_clocks (fst (publish_draw_offer env gid i s)) = so_clocks s"
  by (simp_all add: publish_draw_offer_def rec_of_def fun_eq_iff notify_def split: sum.split)

lemma publish_draw_row:
  assumes "game_of (so_db s) gid = Some row"
  shows "\<exists>row'. game_of (so_db (fst (publish_draw_offer env gid i s))) gid = Some row'
    \<and> gw_status row' = gw_status row \<and> gw_winner row' = gw_winner row \<and> gw_kind row' = gw_kind row"
  using assms by (auto simp: publish_draw_offer_def save_draw_offer_def game_of_update split: sum.splits if_splits)

text \<open>A draw is agreed only by a seat other than the one that offered it, in a game being played with an offer
  pending. Then the record is finished without a winner, its offer is gone and no clock of the game can be cancelled or fire for it
  any more; and when the outcome can be written the database says the same.\<close>

theorem draw_needs_the_other_seat:
  assumes "so_games st gid = Some r" "accept_draw env gid token st = (st', Inr r')"
  shows "r' = r \<and> rc_status (rec_of st r) = StatusPlaying \<and> 0 \<le> rc_draw_by (rec_of st r)
    \<and> (\<exists>k < length (rc_seats (rec_of st r)). st_hash (rc_seats (rec_of st r) ! k) = ev_hash env token
         \<and> st_index (rc_seats (rec_of st r) ! k) \<noteq> rc_draw_by (rec_of st r))
    \<and> rc_status (rec_of st' r) = StatusFinished \<and> rc_draw_by (rec_of st' r) = -1
    \<and> rc_state (rec_of st' r) = agree_draw (rc_state (rec_of st r))
    \<and> tm_cancels (so_clocks st') gid = None
    \<and> (\<not> ev_fail env ''UpdateOutcome'' \<and> game_of (so_db st) gid \<noteq> None
         \<and> fence_passes (db_leases (so_db st)) gid (lease_epoch st gid) \<longrightarrow>
         (\<exists>row. game_of (so_db st') gid = Some row \<and> gw_status row = StatusFinished
            \<and> gw_winner row = gs_winner (rc_state (rec_of st' r)) \<and> gw_kind row = gs_kind (rc_state (rec_of st' r))))"
proof -
  let ?rc = "rec_of st r"
  let ?rc' = "?rc\<lparr>rc_state := agree_draw (rc_state ?rc), rc_status := StatusFinished, rc_draw_by := -1\<rparr>"
  let ?st1 = "game_ended gid (set_rec r ?rc' st)"
  let ?st2 = "case record_outcome env gid r ?st1 of Inl _ \<Rightarrow> ?st1 | Inr d \<Rightarrow> ?st1\<lparr>so_db := d\<rparr>"
  let ?st3 = "fst (publish_draw_offer env gid (-1) ?st2)"
  obtain k where k: "seat_by_token (ev_hash env) ?rc token = Some k" "rc_status ?rc = StatusPlaying" "0 \<le> rc_draw_by ?rc"
      "rc_draw_by ?rc \<noteq> st_index (rc_seats ?rc ! k)" "r' = r"
    and st': "st' = notify (OnState gid) (maybe_apply_rating r ?st3)"
    using assms(2) unfolding accept_draw_def cached_get [OF assms(1)] Let_def
    by (auto split: option.splits if_splits)
  have frame: "rec_of ?st2 = rec_of ?st1" "so_clocks ?st2 = so_clocks ?st1" by (simp_all split: sum.split)
  have rec: "rec_of st' r = ?rc'" and clock: "tm_cancels (so_clocks st') gid = None"
    by (simp_all add: st' frame) (simp add: game_ended_def)
  have ep: "lease_epoch ?st1 gid = lease_epoch st gid" by (rule lease_epoch_cong) simp
  have row: "\<exists>row. game_of (so_db st') gid = Some row \<and> gw_status row = StatusFinished
      \<and> gw_winner row = gs_winner (rc_state ?rc') \<and> gw_kind row = gs_kind (rc_state ?rc')"
    if ok: "\<not> ev_fail env ''UpdateOutcome''" "game_of (so_db st) gid \<noteq> None"
      "fence_passes (db_leases (so_db st)) gid (lease_epoch st gid)"
  proof -
    obtain d where d: "record_outcome env gid r ?st1 = Inr d"
      "d = update_game gid (\<lambda>w. w\<lparr>gw_status := StatusFinished, gw_winner := gs_winner (rc_state ?rc'),
             gw_kind := gs_kind (rc_state ?rc'), gw_updated := ev_dbnow env\<rparr>) (so_db st)"
      using ok by (simp add: record_outcome_def update_outcome_def ep)
    obtain w where "game_of (so_db st) gid = Some w" using ok(2) by auto
    then have "game_of (so_db ?st2) gid = Some (w\<lparr>gw_status := StatusFinished, gw_winner := gs_winner (rc_state ?rc'),
             gw_kind := gs_kind (rc_state ?rc'), gw_updated := ev_dbnow env\<rparr>)"
      by (simp add: d game_of_update)
    from publish_draw_row [OF this, of env "-1"] show ?thesis by (auto simp: st')
  qed
  show ?thesis using k token_seat [OF k(1)] rec clock row by auto
qed

theorem draw_needs_the_other_seat_witness:
  "gs_kind (rc_state (rec_of (fst (accept_draw table_env ''g'' ''a'' (table_store None Map.empty))) 0)) = WinDraw"
proof -
  let ?st = "table_store None Map.empty"
  have "\<exists>st'. accept_draw table_env ''g'' ''a'' ?st = (st', Inr 0)"
    by (simp add: accept_draw_def cached_get [of ?st "''g''" 0] table_tokens Let_def empty_seat_def)
  then obtain st' where "accept_draw table_env ''g'' ''a'' ?st = (st', Inr 0)" ..
  with draw_needs_the_other_seat [of ?st "''g''" 0 table_env "''a''" st' 0]
  show ?thesis by (simp add: agree_draw_def is_over_def sample_game_def start_clock_def new_game_def)
qed

section \<open>Starting a game\<close>

lemma renumber_nth: "i < length ss \<Longrightarrow> renumber ss ! i = (ss ! i)\<lparr>st_index := int i\<rparr>"
  by (simp add: renumber_def)

lemma length_renumber [simp]: "length (renumber ss) = length ss"
  by (simp add: renumber_def)

lemma seats_of_filter:
  "seats_of (d\<lparr>db_seats := filter (\<lambda>(g, s). g = gid \<longrightarrow> st_occupied s) (db_seats d)\<rparr>) gid
     = filter st_occupied (seats_of d gid)"
proof -
  have "map snd (filter (\<lambda>x. fst x = gid) (filter (\<lambda>(g, s). g = gid \<longrightarrow> st_occupied s) xs))
      = filter st_occupied (map snd (filter (\<lambda>x. fst x = gid) xs))" for xs :: "(string \<times> seat) list"
    by (induction xs) auto
  then show ?thesis by (simp add: seats_of_def filter_sort)
qed

lemma seats_of_update_game [simp]: "seats_of (update_game gid f d) g = seats_of d g"
  by (simp add: seats_of_def)

lemma renumber_same: "renumber ss = ss \<longleftrightarrow> map st_index ss = map int [0..<length ss]"
proof
  assume "renumber ss = ss"
  then have "st_index (ss ! i) = int i" if "i < length ss" for i using renumber_nth [OF that] that by (metis seat.select_convs(1) seat.surjective seat.update_convs(1))
  then show "map st_index ss = map int [0..<length ss]" by (auto intro: nth_equalityI)
next
  assume a: "map st_index ss = map int [0..<length ss]"
  show "renumber ss = ss"
  proof (rule nth_equalityI)
    fix i assume i: "i < length (renumber ss)"
    then have "st_index (ss ! i) = int i" using arg_cong [OF a, of "\<lambda>xs. xs ! i"] by simp
    then show "renumber ss ! i = ss ! i" using i by (simp add: renumber_nth)
  qed simp
qed

text \<open>Starting a waiting game with at least two seats taken drops the free seats and numbers the others from zero in
  memory, fits the winning thresholds to their number and starts the clock, but the database
  keeps the old seat numbers: a game that is loaded again has the seats it had in memory exactly when the free
  seats were the last ones.\<close>

theorem start_renumbers_only_in_memory:
  assumes "start_internal env r st = (st', Inr r')" "\<not> ev_fail env ''FinalizeStart''"
    "seats_of (so_db st) (rc_id (rec_of st r)) = rc_seats (rec_of st r)"
  defines "occupied \<equiv> filter st_occupied (rc_seats (rec_of st r))"
  shows "rc_status (rec_of st r) = StatusWaiting \<and> 2 \<le> length occupied \<and> rc_status (rec_of st' r) = StatusPlaying
    \<and> rc_seats (rec_of st' r) = renumber occupied
    \<and> map pl_color (gs_players (rc_state (rec_of st' r))) = map st_color occupied
    \<and> gs_config (rc_state (rec_of st' r)) = config_for (int (length occupied)) (gs_config (rc_state (rec_of st r)))
    \<and> seats_of (so_db st') (rc_id (rec_of st r)) = occupied
    \<and> (seats_of (so_db st') (rc_id (rec_of st r)) = rc_seats (rec_of st' r)
         \<longleftrightarrow> map st_index occupied = map int [0..<length occupied])"
proof -
  let ?rc = "rec_of st r"
  let ?cfg = "config_for (int (length occupied)) (gs_config (rc_state ?rc))"
  let ?rc' = "?rc\<lparr>rc_seats := renumber occupied, rc_status := StatusPlaying,
      rc_state := start_clock (new_game (map st_color (renumber occupied)) ?cfg) (ev_now env)\<rparr>"
  have g: "rc_status ?rc = StatusWaiting" "2 \<le> length occupied"
    and st': "st' = maybe_schedule_bot r (notify (OnState (rc_id ?rc))
       (swallow (\<lambda>d. finalize_start (ev_fail env ''FinalizeStart'') (ev_dbnow env) d (rc_id ?rc) StatusPlaying ?cfg)
         (arm_clock env r (set_rec r ?rc' st))))"
    using assms(1) unfolding start_internal_def Let_def occupied_def by (auto split: if_splits)
  have rec: "rec_of st' r = ?rc'" by (simp add: st')
  have colors: "map st_color (renumber occupied) = map st_color occupied"
    by (rule nth_equalityI) (simp_all add: renumber_nth)
  have db: "seats_of (so_db st') (rc_id ?rc) = occupied"
    using assms(2) by (simp add: st' swallow_def finalize_start_def seats_of_filter assms(3) occupied_def [symmetric])
  show ?thesis using g rec db colors renumber_same [of occupied]
    by (auto simp: start_clock_def new_game_def comp_def)
qed

text \<open>Three seats of which the middle one is free.\<close>

definition gap_record :: game_record where
  "gap_record = \<lparr>rc_id = ''g'', rc_state = new_game [1, 2, 3] (default_config 3),
     rc_seats = [(empty_seat 0 1)\<lparr>st_occupied := True\<rparr>, empty_seat 1 2, (empty_seat 2 3)\<lparr>st_occupied := True\<rparr>],
     rc_status = StatusWaiting, rc_visibility = VisibilityPrivate, rc_rematch = '''', rc_created = 0, rc_draw_by = -1,
     rc_offer = None\<rparr>"

definition gap_store :: store where
  "gap_store = (new_store gap_record None False None (empty_db\<lparr>db_seats := map (Pair ''g'') (rc_seats gap_record)\<rparr>))
     \<lparr>so_next := 1, so_games := [''g'' \<mapsto> 0]\<rparr>"

lemma gap_facts: "rec_of gap_store r = gap_record"
  by (simp add: gap_store_def new_store_def rec_of_def)

theorem start_renumbers_only_in_memory_witness:
  "map st_index (rc_seats (rec_of (fst (start_internal sample_env 0 gap_store)) 0)) = [0, 1]
   \<and> map st_index (seats_of (so_db (fst (start_internal sample_env 0 gap_store))) ''g'') = [0, 2]"
proof -
  have "\<exists>st'. start_internal sample_env 0 gap_store = (st', Inr 0)"
    by (simp add: start_internal_def gap_facts Let_def) (simp add: gap_record_def empty_seat_def)
  then obtain st' where st': "start_internal sample_env 0 gap_store = (st', Inr 0)" ..
  have "seats_of (so_db gap_store) (rc_id (rec_of gap_store 0)) = rc_seats (rec_of gap_store 0)"
    by (simp add: gap_facts) (simp add: gap_store_def new_store_def seats_of_def gap_record_def empty_seat_def)
  with start_renumbers_only_in_memory [OF st'] have
    "rc_seats (rec_of st' 0) = renumber (filter st_occupied (rc_seats gap_record))"
    "seats_of (so_db st') (rc_id gap_record) = filter st_occupied (rc_seats gap_record)"
    by (simp_all add: gap_facts sample_env_def)
  then show ?thesis by (simp add: st') (simp add: gap_record_def empty_seat_def renumber_def)
qed

section \<open>Rematch after a reload\<close>

lemma needed_positions: "set (needed_rematch_seats rc) \<subseteq> {0..<int (length (rc_seats rc))}"
  by (auto simp: needed_rematch_seats_def seat_positions_def dest!: set_zip_leftD)

text \<open>Whether the stored offer of a game lists a position as accepted.\<close>

definition offer_has :: "db \<Rightarrow> string \<Rightarrow> int \<Rightarrow> bool" where
  "offer_has d gid p = (case game_of d gid of
     Some row \<Rightarrow> (case gw_offer row of Some ro \<Rightarrow> p \<in> ro_accepted ro | None \<Rightarrow> False) | None \<Rightarrow> False)"

lemma merge_has:
  assumes "merge_rematch_acceptance bad now d gid i bots = Inr (d', merged)"
  shows "p \<in> ro_accepted merged \<longleftrightarrow> offer_has d gid p \<or> p = i \<or> (game_of d gid \<noteq> None \<and> p \<in> set bots \<and> \<not> (\<exists>row. game_of d gid = Some row \<and> gw_offer row \<noteq> None))"
    "offer_has d' gid p \<longleftrightarrow> p \<in> ro_accepted merged"
  using assms by (auto simp: merge_rematch_acceptance_def offer_has_def game_of_update Let_def
      split: if_splits option.splits)

text \<open>A finished game whose human seat at place \<open>p\<close> has another number than its place.\<close>

definition hung :: "store \<Rightarrow> string \<Rightarrow> nat \<Rightarrow> int \<Rightarrow> bool" where
  "hung st gid r p \<longleftrightarrow> so_games st gid = Some r \<and> rc_status (rec_of st r) = StatusFinished
     \<and> rc_rematch (rec_of st r) = '''' \<and> p \<in> set (needed_rematch_seats (rec_of st r))
     \<and> p \<notin> st_index ` set (rc_seats (rec_of st r)) \<and> p \<notin> set (bot_seats (rec_of st r))
     \<and> \<not> offer_has (so_db st) gid p"

lemma merge_not_has:
  assumes "merge_rematch_acceptance bad now d gid i bots = Inr (d', merged)" "\<not> offer_has d gid p" "p \<noteq> i" "p \<notin> set bots"
  shows "p \<notin> ro_accepted merged" "\<not> offer_has d' gid p" "game_ids d' = game_ids d"
proof -
  show "p \<notin> ro_accepted merged" "\<not> offer_has d' gid p" using merge_has [OF assms(1)] assms(2-4) by auto
  show "game_ids d' = game_ids d"
    using assms(1) by (auto simp: merge_rematch_acceptance_def Let_def split: if_splits option.splits)
qed

lemma hung_offer:
  fixes env token
  assumes "hung st gid r p"
  defines "st' \<equiv> fst (offer_rematch env gid token st)"
  shows "hung st' gid r p \<and> game_ids (so_db st') = game_ids (so_db st) \<and> so_games st' = so_games st"
proof -
  let ?rc = "rec_of st r"
  have h: "so_games st gid = Some r" "rc_status ?rc = StatusFinished" "rc_rematch ?rc = ''''" using assms(1) by (auto simp: hung_def)
  note eq = cached_get [OF h(1)] h(2,3)
  show ?thesis
  proof (cases "seat_by_token (ev_hash env) ?rc token")
    case None
    then have "st' = st" by (simp add: st'_def offer_rematch_def eq Let_def)
    then show ?thesis using assms(1) by simp
  next
    case (Some k)
    show ?thesis
    proof (cases "merge_rematch_acceptance (ev_fail env ''MergeRematchAcceptance'') (ev_now env) (so_db st) gid
                   (st_index (rc_seats ?rc ! k)) (bot_seats ?rc)")
      case (Inl e)
      then have "st' = st" using Some by (simp add: st'_def offer_rematch_def eq Let_def)
      then show ?thesis using assms(1) by simp
    next
      case (Inr x)
      obtain d merged where x: "x = (d, merged)" by (cases x)
      have "p \<noteq> st_index (rc_seats ?rc ! k)" using assms(1) token_seat [OF Some] by (auto simp: hung_def)
      then have m: "p \<notin> ro_accepted merged" "\<not> offer_has d gid p" "game_ids d = game_ids (so_db st)"
        using merge_not_has [OF Inr [unfolded x]] assms(1) by (auto simp: hung_def)
      let ?rc1 = "?rc\<lparr>rc_offer := Some merged\<rparr>"
      have "p \<in> set (needed_rematch_seats ?rc)" using assms(1) by (simp add: hung_def)
      then have "\<not> rematch_offer_complete ?rc1"
        using m(1) by (auto simp: rematch_offer_complete_def needed_rematch_seats_def seat_positions_def list_all_iff)
      then have "st' = set_rec r ?rc1 (st\<lparr>so_db := d\<rparr>)"
        using Some Inr x by (simp add: st'_def offer_rematch_def eq Let_def)
      then show ?thesis using assms(1) m
        by (simp add: hung_def needed_rematch_seats_def bot_seats_def seat_positions_def)
    qed
  qed
qed

text \<open>C39: Why a rematch can hang: acceptances are stored under the number a seat carries but looked up by its place. When
  a human seat's place is nobody's number, as after the reload of a game that started with a free seat in the
  middle, no sequence of acceptances, by whatever seats, ever creates the rematch: the game keeps no
  follow-up, no game is stored, and the offer stays incomplete.\<close>

theorem rematch_can_hang:
  fixes requests
  assumes "hung st gid r p"
  defines "st' \<equiv> foldl (\<lambda>st (env, token). fst (offer_rematch env gid token st)) st requests"
  shows "rc_rematch (rec_of st' r) = '''' \<and> p \<in> set (needed_rematch_seats (rec_of st' r)) \<and> \<not> offer_has (so_db st') gid p
    \<and> game_ids (so_db st') = game_ids (so_db st) \<and> so_games st' = so_games st"
proof -
  have "hung st' gid r p \<and> game_ids (so_db st') = game_ids (so_db st) \<and> so_games st' = so_games st"
    unfolding st'_def
    by (induction requests rule: rev_induct) (use assms(1) hung_offer in \<open>auto split: prod.splits\<close>)
  then show ?thesis by (simp add: hung_def)
qed

text \<open>The game of three seats with the middle one free, reloaded and finished.\<close>

definition hung_record :: game_record where
  "hung_record = gap_record\<lparr>rc_seats := filter st_occupied (rc_seats gap_record), rc_status := StatusFinished\<rparr>"

definition hung_store :: store where
  "hung_store = (new_store hung_record None False None empty_db)\<lparr>so_next := 1, so_games := [''g'' \<mapsto> 0]\<rparr>"

theorem rematch_can_hang_witness:
  "rc_rematch (rec_of (fst (offer_rematch sample_env ''g'' ''x'' hung_store)) 0) = ''''"
proof -
  have "hung hung_store ''g'' 0 1"
    by (simp add: hung_def hung_store_def new_store_def rec_of_def offer_has_def empty_db_def game_of_def)
      (simp add: hung_record_def gap_record_def empty_seat_def needed_rematch_seats_def bot_seats_def seat_positions_def)
  from rematch_can_hang [OF this, of "[(sample_env, ''x'')]"] show ?thesis by simp
qed

end
