(* ===== verification/Presence_Calls.thy ===== *)
theory Presence_Calls
  imports Play_Props Timers_Props Two_Phase
begin

text \<open>
  The presence of a seat in two phases: \<open>SeatConnected\<close> and \<open>SeatDisconnected\<close> of \<open>internal/server/store.go\<close> count the connections under
  the lock of the store and cancel or start the grace timer when they have released it. In the order of the counts an online seat has
  no timer; in another order the timer of a player who is back goes on.
\<close>

datatype presence_op = Connect string int | Disconnect env string int

datatype presence_effect = CameOnline string int | WentOffline env string int

definition connect_counted :: "string \<Rightarrow> int \<Rightarrow> store \<Rightarrow> store \<times> presence_effect list" where
  "connect_counted gid i st =
     (let prev = conns st gid i
      in (set_conns gid i (prev + 1) st, if prev = 0 then [CameOnline gid i] else []))"

definition disconnect_counted :: "env \<Rightarrow> string \<Rightarrow> int \<Rightarrow> store \<Rightarrow> store \<times> presence_effect list" where
  "disconnect_counted env gid i st =
     (let prev = conns st gid i
      in if so_refs st gid = None \<or> prev \<le> 0 then (st, [])
         else (set_conns gid i (prev - 1) st, if prev - 1 \<noteq> 0 then [] else [WentOffline env gid i]))"

definition presence_count :: "presence_op \<Rightarrow> store \<Rightarrow> store \<times> presence_effect list" where
  "presence_count op st =
     (case op of Connect gid i \<Rightarrow> connect_counted gid i st | Disconnect env gid i \<Rightarrow> disconnect_counted env gid i st)"

definition presence_effect_of :: "presence_effect \<Rightarrow> store \<Rightarrow> store" where
  "presence_effect_of e st =
     (case e of
        CameOnline gid i \<Rightarrow> notify (OnPresence gid i True) (st\<lparr>so_presence := presence_cancel gid i (so_presence st)\<rparr>)
      | WentOffline env gid i \<Rightarrow>
          notify (OnPresence gid i False) (st\<lparr>so_presence := presence_schedule gid i (so_grace st) (ev_now env) (so_presence st)\<rparr>))"

lemma effect_refs [simp]: "so_refs (presence_effect_of e st) = so_refs st" "conns (presence_effect_of e st) = conns st"
  by (auto simp: presence_effect_of_def notify_def conns_def fun_eq_iff split: presence_effect.split)

lemma effect_set_conns: "set_conns gid i n (presence_effect_of e st) = presence_effect_of e (set_conns gid i n st)"
  by (simp add: presence_effect_of_def set_conns_def notify_def split: presence_effect.split)

interpretation presence_calls: two_phase presence_count presence_effect_of
  by unfold_locales (auto simp: presence_count_def connect_counted_def disconnect_counted_def effect_set_conns Let_def split: presence_op.split)

lemma presence_one_step:
  "one_step presence_count presence_effect_of op st =
     (case op of Connect gid i \<Rightarrow> seat_connected gid i st | Disconnect env gid i \<Rightarrow> seat_disconnected env gid i st)"
  by (auto simp: one_step_def presence_count_def connect_counted_def disconnect_counted_def seat_connected_def seat_disconnected_def
      presence_effect_of_def Let_def split: presence_op.split)

section \<open>The invariant of single steps\<close>

definition presence_ok :: "store \<Rightarrow> bool" where
  "presence_ok st \<longleftrightarrow> timers_inv (so_presence st) \<and> (\<forall>gid i. alarms (so_presence st) (gid, i) \<noteq> None \<longrightarrow> conns st gid i \<le> 0)"

lemma conns_set: "conns (set_conns gid i n st) g j = (if g = gid \<and> j = i then n else conns st g j)"
  by (simp add: conns_def set_conns_def split: option.split)

lemma set_conns_presence [simp]: "so_presence (set_conns gid i n st) = so_presence st" "so_grace (set_conns gid i n st) = so_grace st"
  by (simp_all add: set_conns_def)

lemma notify_presence [simp]: "so_presence (notify x st) = so_presence st" "conns (notify x st) = conns st"
  by (simp_all add: notify_def conns_def fun_eq_iff)

lemma conns_presence [simp]: "conns (st\<lparr>so_presence := tm\<rparr>) = conns st"
  by (simp add: conns_def fun_eq_iff)

lemma presence_ok_connected: "presence_ok st \<Longrightarrow> presence_ok (seat_connected gid i st)"
  by (fastforce simp: presence_ok_def seat_connected_def Let_def conns_set presence_cancel_def alarms_cancel intro: timers_inv_cancel)

lemma presence_ok_disconnected: "presence_ok st \<Longrightarrow> presence_ok (seat_disconnected env gid i st)"
  by (fastforce simp: presence_ok_def seat_disconnected_def Let_def conns_set presence_schedule_def alarms_start intro: timers_inv_start)

section \<open>Both orders\<close>

lemma timeout_forfeits:
  assumes "so_games st gid = Some r" "rc_status (rec_of st r) = StatusPlaying" "\<not> is_over (rc_state (rec_of st r))"
    "0 \<le> i" "i < int (length (rc_seats (rec_of st r)))"
  shows "rc_state (rec_of (handle_disconnect_timeout env gid i st) r) = forfeit (rc_state (rec_of st r)) (st_color (seat_at (rec_of st r) i))"
    "rc_status (rec_of (handle_disconnect_timeout env gid i st) r) = StatusFinished"
  using assms by (simp_all add: handle_disconnect_timeout_def forfeit_seat_def Let_def split: sum.split app_error.split)

text \<open>C33: A seat that is online has no grace timer, as long as the timers are cancelled and started in the order of the counts. But when a
  player comes back while the last connection is being taken down, the cancellation can be overtaken by the start: then
  the player is online and the timer runs, and when it fires, after the grace period, it forfeits the seat if the game is being played.\<close>

theorem grace_timers_need_the_order:
  fixes st :: store and env :: env
  assumes "presence_ok st" "conns st gid i = 1"
  shows "(\<forall>st' g j. (two_phase_step presence_count presence_effect_of in_order)\<^sup>*\<^sup>* (st, []) (st', []) \<and> seat_online st' g j
      \<longrightarrow> alarms (so_presence st') (g, j) = None)
    \<and> (\<exists>st'. (two_phase_step presence_count presence_effect_of any_order)\<^sup>*\<^sup>* (st, []) (st', []) \<and> seat_online st' gid i
         \<and> alarms (so_presence st') (gid, i) = Some (ev_now env + so_grace st)
         \<and> (so_games st gid = Some r \<and> rc_status (rec_of st r) = StatusPlaying \<and> \<not> is_over (rc_state (rec_of st r))
             \<and> 0 \<le> i \<and> i < int (length (rc_seats (rec_of st r))) \<longrightarrow>
               rc_state (rec_of (handle_disconnect_timeout env' gid i st') r)
                 = forfeit (rc_state (rec_of st r)) (st_color (seat_at (rec_of st r) i))
               \<and> rc_status (rec_of (handle_disconnect_timeout env' gid i st') r) = StatusFinished))"
proof (intro conjI allI impI)
  fix st' g j
  assume run: "(two_phase_step presence_count presence_effect_of in_order)\<^sup>*\<^sup>* (st, []) (st', []) \<and> seat_online st' g j"
  have "presence_ok (settled presence_effect_of (st', []))"
    by (rule presence_calls.in_order_inv [OF conjunct1 [OF run], of presence_ok])
      (simp_all add: assms(1) presence_one_step presence_ok_connected presence_ok_disconnected split: presence_op.split)
  then have "presence_ok st'" by (simp add: settled_def)
  moreover have "0 < conns st' g j" using run by (auto simp: seat_online_def conns_def split: option.splits)
  ultimately show "alarms (so_presence st') (g, j) = None" unfolding presence_ok_def by (meson not_le)
next
  let ?out = "set_conns gid i 0 st"
  let ?in = "set_conns gid i 1 ?out"
  let ?returned = "presence_effect_of (CameOnline gid i) ?in"
  let ?st = "presence_effect_of (WentOffline env gid i) ?returned"
  have "so_refs st gid \<noteq> None" using assms(2) by (auto simp: conns_def split: option.splits)
  then have counted: "presence_count (Disconnect env gid i) st = (?out, [WentOffline env gid i])"
    "presence_count (Connect gid i) ?out = (?in, [CameOnline gid i])"
    using assms(2) by (simp_all add: presence_count_def disconnect_counted_def connect_counted_def conns_set Let_def)
  have "(two_phase_step presence_count presence_effect_of any_order)\<^sup>*\<^sup>* (st, []) (?st, [])"
    using two_phase_overtaking [where counting = presence_count and effect = presence_effect_of and ?op1.0 = "Disconnect env gid i"
        and ?op2.0 = "Connect gid i" and ?es2.0 = "[CameOnline gid i]", OF counted] by simp
  moreover have "seat_online ?st gid i" by (simp add: seat_online_def) (simp add: set_conns_def)
  moreover have same: "so_games ?st = so_games st" "rec_of ?st = rec_of st"
    by (simp_all add: presence_effect_of_def notify_def set_conns_def rec_of_def fun_eq_iff)
  moreover have "timers_inv (so_presence ?returned)"
    using assms(1) by (simp add: presence_ok_def presence_effect_of_def presence_cancel_def timers_inv_cancel)
  then have "alarms (so_presence ?st) (gid, i) = Some (ev_now env + so_grace st)"
    by (simp add: presence_effect_of_def presence_schedule_def alarms_start) (simp add: notify_def)
  moreover note timeout_forfeits [of ?st gid r i env', unfolded same]
  ultimately show "\<exists>st'. (two_phase_step presence_count presence_effect_of any_order)\<^sup>*\<^sup>* (st, []) (st', []) \<and> seat_online st' gid i
         \<and> alarms (so_presence st') (gid, i) = Some (ev_now env + so_grace st)
         \<and> (so_games st gid = Some r \<and> rc_status (rec_of st r) = StatusPlaying \<and> \<not> is_over (rc_state (rec_of st r))
             \<and> 0 \<le> i \<and> i < int (length (rc_seats (rec_of st r))) \<longrightarrow>
               rc_state (rec_of (handle_disconnect_timeout env' gid i st') r)
                 = forfeit (rc_state (rec_of st r)) (st_color (seat_at (rec_of st r) i))
               \<and> rc_status (rec_of (handle_disconnect_timeout env' gid i st') r) = StatusFinished)"
    by blast
qed

theorem grace_timers_need_the_order_witness:
  "\<exists>st'. (two_phase_step presence_count presence_effect_of any_order)\<^sup>*\<^sup>*
       (seat_connected ''g'' 0 (table_store None Map.empty), []) (st', [])
     \<and> seat_online st' ''g'' 0 \<and> alarms (so_presence st') (''g'', 0) = Some (5000000 + DisconnectGracePeriod)
     \<and> rc_status (rec_of (handle_disconnect_timeout table_env ''g'' 0 st') 0) = StatusFinished"
proof -
  let ?st = "seat_connected ''g'' 0 (table_store None Map.empty)"
  have new: "so_presence (table_store None Map.empty) = new_timers" "so_refs (table_store None Map.empty) = Map.empty"
    "so_grace (table_store None Map.empty) = DisconnectGracePeriod"
    by (simp_all add: table_store_def new_store_def)
  have "alarms new_timers = (Map.empty :: string \<times> int \<Rightarrow> gtime option)" by (rule ext) (simp add: alarms_def new_timers_def)
  then have "presence_ok (table_store None Map.empty)" by (simp add: presence_ok_def new timers_inv_new)
  then have "presence_ok ?st" by (rule presence_ok_connected)
  moreover have "conns ?st ''g'' 0 = 1" "so_grace ?st = DisconnectGracePeriod"
    by (simp_all add: seat_connected_def Let_def conns_set new) (simp_all add: conns_def notify_def new)
  moreover have "so_games ?st ''g'' = Some 0" "rec_of ?st 0 = table_record"
    by (simp_all add: seat_connected_def notify_def set_conns_def rec_of_def Let_def) (simp_all add: table_store_def new_store_def)
  moreover have "\<not> is_over sample_game" by code_simp
  ultimately show ?thesis using grace_timers_need_the_order [of ?st "''g''" 0 table_env 0 table_env] by auto
qed

end
