(* ===== verification/Clock_Calls.thy ===== *)
theory Clock_Calls
  imports Play_Props Two_Phase
begin

text \<open>
  Chess clocks and leases in two phases. The heartbeat of \<open>internal/lease/lease.go\<close> forgets the lost leases under the manager's lock and calls
  back when it has released it; \<open>armClock\<close> of \<open>internal/server/store.go\<close> asks whether the process owns the game and then calls the clock
  manager. In the order of the first phases a clock only runs for a game the process owns; in another
  order, and between the two phases of a heartbeat, it does not.
\<close>

datatype clock_op = Beat env "string list" | Arm env nat | Claim env string | Ended string

datatype clock_effect = LeaseLost env string | Call clock_call

text \<open>The order in which a heartbeat traverses the lost games is one that contains them all.\<close>

definition beat_counted :: "env \<Rightarrow> string list \<Rightarrow> store \<Rightarrow> store \<times> clock_effect list" where
  "beat_counted env order st =
     (case forget_lost env st of
        (st', lost) \<Rightarrow>
          if lost \<subseteq> set order then (st', map (LeaseLost env) (filter (\<lambda>gid. gid \<in> lost) order)) else (st, []))"

definition clock_count :: "clock_op \<Rightarrow> store \<Rightarrow> store \<times> clock_effect list" where
  "clock_count op st =
     (case op of
        Beat env order \<Rightarrow> beat_counted env order st
      | Arm env r \<Rightarrow> (st, [Call (clock_wanted env r st)])
      | Claim env gid \<Rightarrow> (ensure_lease env gid st, [])
      | Ended gid \<Rightarrow> (st, [Call (CancelClock gid)]))"

definition clock_effect_of :: "clock_effect \<Rightarrow> store \<Rightarrow> store" where
  "clock_effect_of e st = (case e of LeaseLost env gid \<Rightarrow> on_lost env gid st | Call c \<Rightarrow> call_clock c st)"

text \<open>The first phases read the leases, the tables and the records; the second ones change none of them.\<close>

lemma clock_effect_frame [simp]:
  "so_leases (clock_effect_of e st) = so_leases st" "so_db (clock_effect_of e st) = so_db st"
  "so_forward (clock_effect_of e st) = so_forward st" "rec_of (clock_effect_of e st) = rec_of st"
  by (simp_all add: clock_effect_of_def on_lost_def drop_cached_def unwatch_def rec_of_def fun_eq_iff Let_def
      split: clock_effect.split clock_call.split)

lemma clock_effect_leases:
  "clock_effect_of e (st\<lparr>so_leases := m, so_db := d\<rparr>) = (clock_effect_of e st)\<lparr>so_leases := m, so_db := d\<rparr>"
  by (simp add: clock_effect_of_def on_lost_def drop_cached_def unwatch_def call_clock_def Let_def
      split: clock_effect.split clock_call.split)

lemma clock_effect_forget: "forget_lost env (clock_effect_of e st) = map_prod (clock_effect_of e) id (forget_lost env st)"
  by (simp add: forget_lost_def clock_effect_leases split: option.split prod.split)

lemma clock_effect_claim: "ensure_lease env gid (clock_effect_of e st) = clock_effect_of e (ensure_lease env gid st)"
  by (simp add: ensure_lease_def clock_effect_leases split: option.split prod.split)

lemma clock_effect_wanted: "clock_wanted env r (clock_effect_of e st) = clock_wanted env r st"
  by (simp add: clock_wanted_def owns_game_def Let_def)

interpretation clock_calls: two_phase clock_count clock_effect_of
  by unfold_locales (auto simp: clock_count_def beat_counted_def clock_effect_forget clock_effect_claim clock_effect_wanted
      split: clock_op.split prod.split)

text \<open>With nothing in between, the operations as the store has them.\<close>

lemma run_lost: "run_effects clock_effect_of (map (LeaseLost env) gs) st = foldl (\<lambda>st gid. on_lost env gid st) st gs"
  by (induction gs arbitrary: st) (simp_all add: clock_effect_of_def)

lemma clock_one_step:
  "one_step clock_count clock_effect_of op st =
     (case op of
        Beat env order \<Rightarrow> if snd (forget_lost env st) \<subseteq> set order then heartbeat env order st else st
      | Arm env r \<Rightarrow> arm_clock env r st
      | Claim env gid \<Rightarrow> ensure_lease env gid st
      | Ended gid \<Rightarrow> st\<lparr>so_clocks := clock_cancel gid (so_clocks st)\<rparr>)"
  by (auto simp: one_step_def clock_count_def beat_counted_def run_lost heartbeat_def arm_clock_def clock_effect_of_def
      call_clock_def [of "CancelClock _"] split: clock_op.split prod.split)

lemma clocks_owned_step: "clocks_owned st \<Longrightarrow> clocks_owned (one_step clock_count clock_effect_of op st)"
  using heartbeat_good good_arm [OF good_refl] good_ensure_lease [OF good_refl] good_cancel_clock [OF good_refl]
  by (auto simp: clock_one_step good_def split: clock_op.split)

section \<open>Both orders\<close>

lemma lost_not_owned:
  assumes "gid \<in> snd (forget_lost env st)"
  shows "\<not> owns_game (fst (forget_lost env st)) gid" "lease_epoch (fst (forget_lost env st)) gid = 0"
    "\<exists>m. so_leases st = Some m \<and> \<not> owned (db_leases (so_db (fst (forget_lost env st)))) (mg_owner m) gid"
  using assms by (auto simp: forget_lost_def owns_game_def lease_epoch_def held_def renew_def renew_rows_def owned_def Let_def
      split: option.splits if_splits)

lemma forget_frame [simp]:
  "so_games (fst (forget_lost env st)) = so_games st" "rec_of (fst (forget_lost env st)) = rec_of st"
  "so_clocks (fst (forget_lost env st)) = so_clocks st" "so_forward (fst (forget_lost env st)) = so_forward st"
  "game_of (so_db (fst (forget_lost env st))) = game_of (so_db st)"
  by (simp_all add: forget_lost_def rec_of_def game_of_def fun_eq_iff split: option.split prod.split)

lemma lost_run_leases:
  "so_leases (run_effects clock_effect_of es st) = so_leases st" "so_forward (run_effects clock_effect_of es st) = so_forward st"
  by (induction es arbitrary: st) simp_all

text \<open>C29: As long as the clock manager is called, and the lost leases are called back, in the order of the questions and of the heartbeats, a chess
  clock only runs for a game the process owns. But a lease can be lost between the question and the call: then the clock that is started is
  one of a game the process does not own. And a clock that runs out between the two phases of a heartbeat ends the game in the
  database although the lease is not the process's any more, since the epoch that would have stopped it is forgotten already.\<close>

theorem clocks_follow_leases_in_order:
  assumes "clocks_owned st" "clock_wanted env r st = ScheduleClock gid d now" "gid \<in> snd (forget_lost env' st)"
    "snd (forget_lost env' st) \<subseteq> set order"
  shows "(\<forall>st'. (two_phase_step clock_count clock_effect_of in_order)\<^sup>*\<^sup>* (st, []) (st', []) \<longrightarrow> clocks_owned st')
    \<and> (\<exists>st'. (two_phase_step clock_count clock_effect_of any_order)\<^sup>*\<^sup>* (st, []) (st', [])
         \<and> tm_cancels (so_clocks st') gid \<noteq> None \<and> \<not> owns_game st' gid)
    \<and> (let between = fst (forget_lost env' st); st' = handle_flag env'' gid between
       in so_games st gid = Some r' \<and> flag_due env'' (rec_of st r') \<and> game_of (so_db st) gid \<noteq> None \<and> \<not> ev_fail env'' ''UpdateOutcome''
         \<longrightarrow> (\<exists>m. so_leases st = Some m \<and> \<not> owned (db_leases (so_db st')) (mg_owner m) gid)
           \<and> (\<exists>row. game_of (so_db st') gid = Some row \<and> gw_status row = StatusFinished \<and> gw_kind row = WinTimeout))"
proof -
  let ?lost = "map (LeaseLost env') (filter (\<lambda>g. g \<in> snd (forget_lost env' st)) order)" and ?between = "fst (forget_lost env' st)"
  let ?st = "clock_effect_of (Call (ScheduleClock gid d now)) (run_effects clock_effect_of ?lost ?between)"
  have "clocks_owned st'" if "(two_phase_step clock_count clock_effect_of in_order)\<^sup>*\<^sup>* (st, []) (st', [])" for st'
    using clock_calls.in_order_inv [OF that, of clocks_owned] assms(1) clocks_owned_step by (simp add: settled_def)
  moreover have "(two_phase_step clock_count clock_effect_of any_order)\<^sup>*\<^sup>* (st, []) (?st, [])"
    by (rule two_phase_overtaking [where ?op1.0 = "Arm env r" and ?op2.0 = "Beat env' order"])
      (use assms(2,4) in \<open>auto simp: clock_count_def beat_counted_def split: prod.split\<close>)
  moreover have "\<not> owns_game ?st gid"
    using lost_not_owned(1) [OF assms(3)] by (auto simp: owns_game_def lost_run_leases)
  moreover have "tm_cancels (so_clocks ?st) gid \<noteq> None"
  proof -
    have "tm_cancels (clock_schedule gid d now tm) gid \<noteq> None" for tm
      by (simp add: clock_schedule_def timer_start_def Let_def frame_simps)
    then show ?thesis by (simp add: clock_effect_of_def call_clock_def)
  qed
  ultimately have orders: "(\<forall>st'. (two_phase_step clock_count clock_effect_of in_order)\<^sup>*\<^sup>* (st, []) (st', []) \<longrightarrow> clocks_owned st')
    \<and> (\<exists>st'. (two_phase_step clock_count clock_effect_of any_order)\<^sup>*\<^sup>* (st, []) (st', [])
         \<and> tm_cancels (so_clocks st') gid \<noteq> None \<and> \<not> owns_game st' gid)" by blast
  obtain m where m: "so_leases st = Some m" "\<not> owned (db_leases (so_db ?between)) (mg_owner m) gid"
    using lost_not_owned(3) [OF assms(3)] by blast
  have free: "fence_passes (db_leases (so_db ?between)) gid (lease_epoch ?between gid)"
    using lost_not_owned(2) [OF assms(3)] by (simp add: fence_passes_def)
  have window: "\<not> owned (db_leases (so_db st')) (mg_owner m) gid
      \<and> (\<exists>row. game_of (so_db st') gid = Some row \<and> gw_status row = StatusFinished \<and> gw_kind row = WinTimeout)"
    if "so_games st gid = Some r'" "flag_due env'' (rec_of st r')" "game_of (so_db st) gid \<noteq> None" "\<not> ev_fail env'' ''UpdateOutcome''"
      "st' = handle_flag env'' gid ?between" for st'
    using flag_written(3,4) [of ?between gid r' env'', OF _ _ _ disjI1 [OF free]] that m(2) by simp
  show ?thesis using orders window m(1) by (simp add: Let_def)
qed

theorem clocks_follow_leases_in_order_witness:
  "\<exists>row. game_of (so_db (handle_flag (table_env\<lparr>ev_now := 9000000000\<rparr>) ''g''
      (fst (forget_lost table_env (table_store (Some stale_manager) taken_over))))) ''g'' = Some row \<and> gw_status row = StatusFinished"
proof -
  let ?st = "table_store (Some stale_manager) taken_over" and ?env = "table_env\<lparr>ev_now := 9000000000\<rparr>"
  have st: "so_clocks ?st = new_timers" "db_leases (so_db ?st) = taken_over" by (simp_all add: table_store_def new_store_def)
  have owned: "clocks_owned ?st" by (simp add: clocks_owned_def st new_timers_def)
  have "owns_game ?st ''g''" by (simp add: owns_game_def held_def stale_manager_def)
  moreover have "clock_enabled sample_game" "\<not> is_over sample_game" by code_simp+
  ultimately obtain d where wanted: "clock_wanted table_env 0 ?st = ScheduleClock ''g'' d 5000000"
    by (simp add: clock_wanted_def Let_def)
  have lost: "snd (forget_lost table_env ?st) = {''g''}"
    by (auto simp: forget_lost_def st renew_def owned_def Let_def)
      (auto simp: stale_manager_def new_manager_def taken_over_def table_env_def sample_env_def split: if_splits)
  have due: "flag_due ?env (rec_of ?st 0)" unfolding flag_due_def by simp code_simp
  show ?thesis
    using clocks_follow_leases_in_order [OF owned wanted, where env' = table_env and order = "[''g'']" and env'' = ?env and r' = 0] due
    by (simp add: lost table_db_store Let_def) blast
qed

end
