(* ===== verification/Matcher_Props.thy ===== *)
theory Matcher_Props
  imports Matcher
begin

text \<open>
  The properties of matchmaking: which pairs and rooms are formed, and what a tick does to the queue
  and the tables.
\<close>

section \<open>The greedy pairing\<close>

definition rating_gap :: "queued_user list \<Rightarrow> nat \<Rightarrow> nat \<Rightarrow> real" where
  "rating_gap qs i j = of_int \<bar>qu_rating (qs ! i) - qu_rating (qs ! j)\<bar>"

definition wait_band :: "queued_user list \<Rightarrow> gtime \<Rightarrow> nat \<Rightarrow> real" where
  "wait_band qs now i = score_band_for (time_sub now (qu_enqueued (qs ! i)))"

definition compatible :: "queued_user list \<Rightarrow> gtime \<Rightarrow> nat \<Rightarrow> nat \<Rightarrow> bool" where
  "compatible qs now i j \<longleftrightarrow> rating_gap qs i j \<le> max (wait_band qs now i) (wait_band qs now j)"

lemma best_step_eq:
  "best_step qs now matched i best j =
     (if matched ! j \<or> \<not> compatible qs now i j then best
      else case best of None \<Rightarrow> Some (j, rating_gap qs i j)
           | Some (_, bd) \<Rightarrow> if rating_gap qs i j < bd then Some (j, rating_gap qs i j) else best)"
  by (auto simp: best_step_def compatible_def rating_gap_def wait_band_def Let_def max_def
      split: option.splits)

definition is_best :: "queued_user list \<Rightarrow> gtime \<Rightarrow> bool list \<Rightarrow> nat \<Rightarrow> nat list \<Rightarrow> (nat \<times> real) option \<Rightarrow> bool" where
  "is_best qs now matched i js best \<longleftrightarrow>
     (case best of
        None \<Rightarrow> \<forall>j \<in> set js. matched ! j \<or> \<not> compatible qs now i j
      | Some (j, d) \<Rightarrow> j \<in> set js \<and> \<not> matched ! j \<and> compatible qs now i j \<and> d = rating_gap qs i j
          \<and> (\<forall>j' \<in> set js. \<not> matched ! j' \<and> compatible qs now i j' \<longrightarrow> d \<le> rating_gap qs i j'))"

lemma best_step_best:
  "is_best qs now matched i js best \<Longrightarrow> is_best qs now matched i (js @ [j]) (best_step qs now matched i best j)"
  unfolding best_step_eq by (cases best) (fastforce simp: is_best_def)+

lemma best_fold: "is_best qs now matched i js (foldl (best_step qs now matched i) None js)"
  by (induction js rule: rev_induct) (simp_all add: best_step_best, simp add: is_best_def)

text \<open>The pairs by position, and what the outer loop keeps after the positions below \<open>k\<close>.\<close>

definition members :: "(nat \<times> nat) list \<Rightarrow> nat list" where
  "members ps = concat (map (\<lambda>(i, j). [i, j]) ps)"

definition as_groups :: "queued_user list \<Rightarrow> (nat \<times> nat) list \<Rightarrow> queued_user list list" where
  "as_groups qs ps = map (\<lambda>(i, j). [qs ! i, qs ! j]) ps"

definition good_pairs :: "queued_user list \<Rightarrow> gtime \<Rightarrow> (nat \<times> nat) list \<Rightarrow> bool" where
  "good_pairs qs now ps \<longleftrightarrow> distinct (members ps)
     \<and> (\<forall>(i, j) \<in> set ps. i < j \<and> j < length qs \<and> compatible qs now i j
         \<and> (\<forall>l. i < l \<and> l < length qs \<and> l \<notin> set (members ps) \<and> compatible qs now i l
              \<longrightarrow> rating_gap qs i j \<le> rating_gap qs i l))"

definition pair_inv :: "queued_user list \<Rightarrow> gtime \<Rightarrow> nat \<Rightarrow> bool list \<times> queued_user list list \<Rightarrow> (nat \<times> nat) list \<Rightarrow> bool" where
  "pair_inv qs now k st ps \<longleftrightarrow> snd st = as_groups qs ps \<and> length (fst st) = length qs
     \<and> (\<forall>x < length qs. fst st ! x \<longleftrightarrow> x \<in> set (members ps)) \<and> good_pairs qs now ps
     \<and> (\<forall>i j. i < k \<and> i < j \<and> j < length qs \<and> i \<notin> set (members ps) \<and> j \<notin> set (members ps)
          \<longrightarrow> \<not> compatible qs now i j)"

lemma pair_step_inv:
  assumes inv: "pair_inv qs now k st ps" and k: "k < length qs"
  shows "\<exists>ps'. pair_inv qs now (Suc k) (pair_step qs now st k) ps'"
proof -
  obtain matched out where st: "st = (matched, out)" by (cases st)
  let ?best = "foldl (best_step qs now matched k) None [k + 1..<length qs]"
  have best: "is_best qs now matched k [k + 1..<length qs] ?best" by (rule best_fold)
  have m: "\<forall>x < length qs. matched ! x \<longleftrightarrow> x \<in> set (members ps)" "length matched = length qs"
    using inv by (auto simp: pair_inv_def st)
  show ?thesis
  proof (cases "matched ! k \<or> ?best = None")
    case True
    then have "pair_step qs now st k = st" by (auto simp: pair_step_def st)
    moreover have "\<not> compatible qs now k j"
      if "k \<notin> set (members ps)" "k < j" "j < length qs" "j \<notin> set (members ps)" for j
      using that True best m k by (auto simp: is_best_def)
    ultimately have "pair_inv qs now (Suc k) (pair_step qs now st k) ps"
      using inv by (auto simp: pair_inv_def less_Suc_eq)
    then show ?thesis by blast
  next
    case False
    then obtain j d where j: "?best = Some (j, d)" by (cases ?best) auto
    have step: "pair_step qs now st k = (matched[k := True, j := True], out @ [[qs ! k, qs ! j]])"
      using False j by (simp add: pair_step_def st)
    have jb: "k < j" "j < length qs" "\<not> matched ! j" "compatible qs now k j"
      "\<And>l. k < l \<Longrightarrow> l < length qs \<Longrightarrow> \<not> matched ! l \<Longrightarrow> compatible qs now k l
         \<Longrightarrow> rating_gap qs k j \<le> rating_gap qs k l"
      using best [unfolded j] by (auto simp: is_best_def)
    let ?ps = "ps @ [(k, j)]"
    have mem: "members ?ps = members ps @ [k, j]" by (simp add: members_def)
    have new: "k \<notin> set (members ps)" "j \<notin> set (members ps)" using False m k jb by auto
    have "good_pairs qs now ?ps"
      using inv new jb m k unfolding good_pairs_def mem pair_inv_def
      by (auto split: prod.splits) blast
    then have "pair_inv qs now (Suc k) (pair_step qs now st k) ?ps"
      using inv m k jb unfolding pair_inv_def step mem
      by (auto simp: st as_groups_def nth_list_update less_Suc_eq)
    then show ?thesis by blast
  qed
qed

lemma pair_fold_inv:
  "k \<le> length qs \<Longrightarrow>
   \<exists>ps. pair_inv qs now k (foldl (pair_step qs now) (replicate (length qs) False, []) [0..<k]) ps"
proof (induction k)
  case 0
  have "pair_inv qs now 0 (replicate (length qs) False, []) []"
    by (simp add: pair_inv_def as_groups_def members_def good_pairs_def)
  then show ?case by auto
next
  case (Suc k)
  then obtain ps where "pair_inv qs now k (foldl (pair_step qs now) (replicate (length qs) False, []) [0..<k]) ps"
    by auto
  from pair_step_inv [OF this] Suc.prems show ?case by simp
qed

definition none_left :: "queued_user list \<Rightarrow> gtime \<Rightarrow> (nat \<times> nat) list \<Rightarrow> bool" where
  "none_left qs now ps \<longleftrightarrow> (\<forall>i j. i < j \<and> j < length qs \<and> i \<notin> set (members ps) \<and> j \<notin> set (members ps)
     \<longrightarrow> \<not> compatible qs now i j)"

lemma pair1v1_groups: "\<exists>ps. pair1v1 qs now = as_groups qs ps \<and> good_pairs qs now ps \<and> none_left qs now ps"
proof (cases "length qs < 2")
  case True
  then have "pair1v1 qs now = as_groups qs [] \<and> good_pairs qs now [] \<and> none_left qs now []"
    by (auto simp: pair1v1_def as_groups_def good_pairs_def members_def none_left_def)
  then show ?thesis by blast
next
  case False
  then show ?thesis
    using pair_fold_inv [of "length qs" qs now] by (auto simp: pair_inv_def pair1v1_def none_left_def)
qed

text \<open>C11: The 1v1 pairing never uses a queued user twice, only pairs users whose rating gap lies in the wider of their
  two wait bands, pairs each with the closest of the later users it leaves unpaired, and leaves no two
  compatible users both waiting.\<close>

theorem pair1v1_correct:
  "\<exists>ps. pair1v1 qs now = as_groups qs ps \<and> distinct (members ps)
     \<and> (\<forall>(i, j) \<in> set ps. i < j \<and> j < length qs \<and> compatible qs now i j
         \<and> (\<forall>l. i < l \<and> l < length qs \<and> l \<notin> set (members ps) \<and> compatible qs now i l
              \<longrightarrow> rating_gap qs i j \<le> rating_gap qs i l))
     \<and> (\<forall>i j. i < j \<and> j < length qs \<and> i \<notin> set (members ps) \<and> j \<notin> set (members ps)
          \<longrightarrow> \<not> compatible qs now i j)"
  using pair1v1_groups [of qs now] unfolding good_pairs_def none_left_def by blast

definition sample_queue :: "queued_user list" where
  "sample_queue = [\<lparr>qu_user = ''a'', qu_rating = 1200, qu_enqueued = 0, qu_name = ''''\<rparr>,
     \<lparr>qu_user = ''b'', qu_rating = 1250, qu_enqueued = 0, qu_name = ''''\<rparr>]"

theorem pair1v1_correct_witness: "length (pair1v1 sample_queue 1) = 1"
proof -
  obtain ps where ps: "pair1v1 sample_queue 1 = as_groups sample_queue ps" "good_pairs sample_queue 1 ps"
    "\<forall>i j. i < j \<and> j < length sample_queue \<and> i \<notin> set (members ps) \<and> j \<notin> set (members ps)
       \<longrightarrow> \<not> compatible sample_queue 1 i j"
    using pair1v1_correct [of sample_queue 1] unfolding good_pairs_def by blast
  have n: "length sample_queue = 2" by (simp add: sample_queue_def)
  have comp: "compatible sample_queue 1 0 1"
    by (simp add: compatible_def rating_gap_def wait_band_def sample_queue_def score_band_for_def
        matchBandBase_def matchBandGrowthPS_def matchBandMax_def dur_seconds_def time_sub_def)
  have "ps \<noteq> []" using ps(3) comp n by (force simp: members_def)
  moreover have "p = (0, 1)" if "p \<in> set ps" for p
  proof -
    obtain i j where p: "p = (i, j)" by (cases p)
    with that ps(2) n have "i < j \<and> j < 2" unfolding good_pairs_def by fastforce
    with p show ?thesis by auto
  qed
  moreover have "distinct (members ps)" using ps(2) by (simp add: good_pairs_def)
  ultimately have "ps = [(0, 1)]"
  proof (cases ps)
    case (Cons p rest)
    show ?thesis
    proof (cases rest)
      case (Cons q rest')
      then have "p = (0, 1)" "q = (0, 1)"
        using \<open>ps = p # rest\<close> \<open>\<And>p. p \<in> set ps \<Longrightarrow> p = (0, 1)\<close> by simp_all
      then show ?thesis
        using \<open>distinct (members ps)\<close> Cons \<open>ps = p # rest\<close> by (simp add: members_def)
    qed (use Cons \<open>\<And>p. p \<in> set ps \<Longrightarrow> p = (0, 1)\<close> in simp)
  qed simp
  then show ?thesis by (simp add: ps(1) as_groups_def)
qed

section \<open>The contract of a pairing rule\<close>

text \<open>What the transaction relies on: groups are made of the rows it was given, each at most once,
  and have two to \<open>players\<close> members.\<close>

locale pairing_rule =
  fixes players :: nat and pair :: "queued_user list \<Rightarrow> queued_user list list"
  assumes pair_from_rows: "mset (concat (pair qs)) \<subseteq># mset qs"
    and pair_size: "2 \<le> players \<Longrightarrow> g \<in> set (pair qs) \<Longrightarrow> 2 \<le> length g \<and> length g \<le> players"

definition seated_in :: "db \<Rightarrow> matched_seat \<Rightarrow> bool" where
  "seated_in d m \<longleftrightarrow> (\<exists>r s. game_of d (mt_game m) = Some r \<and> gw_status r = StatusPlaying
     \<and> gw_visibility r = VisibilityPublic \<and> (mt_game m, s) \<in> set (db_seats d)
     \<and> st_user s = mt_user m \<and> st_occupied s \<and> \<not> st_bot s)"

lemma game_of_append:
  "game_of (d\<lparr>db_games := db_games d @ [r], db_seats := ss, db_queue := qs\<rparr>) gid
     = (case game_of d gid of Some r' \<Rightarrow> Some r' | None \<Rightarrow> if gw_id r = gid then Some r else None)"
  by (simp add: game_of_def find_append split: option.split)

lemma game_of_id: "game_of d gid = Some r \<Longrightarrow> gw_id r = gid"
  by (auto simp: game_of_def find_Some_iff)

definition tick_inv :: "db \<Rightarrow> queued_user list list \<Rightarrow> db \<times> matched_seat list \<Rightarrow> bool" where
  "tick_inv d gs st \<longleftrightarrow> map mt_user (snd st) = map qu_user (concat gs)
     \<and> db_queue (fst st) = filter (\<lambda>q. qw_user q \<notin> qu_user ` set (concat gs)) (db_queue d)
     \<and> (\<forall>m \<in> set (snd st). seated_in (fst st) m \<and> game_of d (mt_game m) = None)
     \<and> (\<forall>gid. game_of d gid \<noteq> None \<longrightarrow> game_of (fst st) gid = game_of d gid)"

text \<open>What a round of the transaction adds.\<close>

lemma matched_game_adds:
  assumes g: "2 \<le> length g" "length g \<le> players" and step: "matched_game now players (Some (d0, seats)) (g, gid) = Some (d1, seats1)"
  shows "game_of d0 gid = None" "seats1 = seats @ map (\<lambda>u. \<lparr>mt_user = qu_user u, mt_game = gid\<rparr>) g"
    "db_queue d1 = filter (\<lambda>q. qw_user q \<notin> qu_user ` set g) (db_queue d0)" "x \<noteq> gid \<Longrightarrow> game_of d1 x = game_of d0 x"
    "u \<in> set g \<Longrightarrow> seated_in d1 \<lparr>mt_user = qu_user u, mt_game = gid\<rparr>" "seated_in d0 m \<Longrightarrow> seated_in d1 m"
proof -
  show fresh: "game_of d0 gid = None" using step g by (auto simp: matched_game_def split: if_splits)
  have d1: "db_seats d1 = db_seats d0 @ map (\<lambda>i. (gid, matched_seat_row i (g ! i))) [0..<length g]"
    "\<exists>r. gw_id r = gid \<and> gw_status r = StatusPlaying \<and> gw_visibility r = VisibilityPublic \<and> db_games d1 = db_games d0 @ [r]"
    using step g fresh by (auto simp: matched_game_def)
  show "seats1 = seats @ map (\<lambda>u. \<lparr>mt_user = qu_user u, mt_game = gid\<rparr>) g"
    "db_queue d1 = filter (\<lambda>q. qw_user q \<notin> qu_user ` set g) (db_queue d0)"
    using step g fresh by (auto simp: matched_game_def)
  show keep: "game_of d1 x = game_of d0 x" if "x \<noteq> gid" for x
    using d1(2) that by (auto simp: game_of_def find_append split: option.split)
  show "seated_in d1 m" if "seated_in d0 m" for m
    using that fresh keep [of "mt_game m"] d1(1) by (cases "mt_game m = gid") (auto simp: seated_in_def)
  show "seated_in d1 \<lparr>mt_user = qu_user u, mt_game = gid\<rparr>" if u: "u \<in> set g" for u
  proof -
    obtain i where "i < length g" "u = g ! i" using u by (auto simp: in_set_conv_nth)
    moreover obtain r where "game_of d1 gid = Some r" "gw_status r = StatusPlaying" "gw_visibility r = VisibilityPublic"
      using d1(2) fresh by (auto simp: game_of_def find_append)
    ultimately show ?thesis
      unfolding seated_in_def by (auto intro!: exI [of _ "matched_seat_row i u"] simp: matched_seat_row_def d1(1))
  qed
qed

lemma matched_game_inv:
  assumes inv: "tick_inv d gs st" and g: "2 \<le> length g" "length g \<le> players"
    and step: "matched_game now players (Some st) (g, gid) = Some st'"
  shows "tick_inv d (gs @ [g]) st'"
proof -
  obtain d0 seats d1 seats1 where st: "st = (d0, seats)" "st' = (d1, seats1)" by (cases st; cases st')
  note adds = matched_game_adds [OF g step [unfolded st]]
  have dnone: "game_of d gid = None" using inv adds(1) by (auto simp: tick_inv_def st)
  have "map mt_user seats1 = map qu_user (concat (gs @ [g]))"
    using inv by (simp add: tick_inv_def st adds(2) comp_def)
  moreover have "db_queue d1 = filter (\<lambda>q. qw_user q \<notin> qu_user ` set (concat (gs @ [g]))) (db_queue d)"
    using inv by (simp add: tick_inv_def st adds(3) image_Un)
  moreover have "seated_in d1 m \<and> game_of d (mt_game m) = None" if "m \<in> set seats1" for m
  proof (cases "m \<in> set seats")
    case True
    then show ?thesis using inv adds(6) by (simp add: tick_inv_def st)
  next
    case False
    then obtain u where "u \<in> set g" "m = \<lparr>mt_user = qu_user u, mt_game = gid\<rparr>" using \<open>m \<in> set seats1\<close> unfolding adds(2) by auto
    then show ?thesis using adds(5) dnone by simp
  qed
  moreover have "game_of d1 x = game_of d x" if "game_of d x \<noteq> None" for x
    using that inv dnone adds(4) [of x] by (cases "x = gid") (auto simp: tick_inv_def st)
  ultimately show ?thesis by (simp add: tick_inv_def st)
qed

lemma matched_fold_inv:
  assumes "tick_inv d gs st" "\<forall>x \<in> set gis. 2 \<le> length (fst x) \<and> length (fst x) \<le> players"
    and "foldl (matched_game now players) (Some st) gis = Some st'"
  shows "tick_inv d (gs @ map fst gis) st'"
  using assms
proof (induction gis arbitrary: gs st)
  case (Cons x gis)
  obtain g gid where x: "x = (g, gid)" by (cases x)
  have none: "foldl (matched_game now players) None gis = None" for gis :: "(queued_user list \<times> string) list"
    by (induction gis) (simp_all add: matched_game_def)
  then obtain st1 where st1: "matched_game now players (Some st) (g, gid) = Some st1"
    using Cons.prems(3) by (cases "matched_game now players (Some st) (g, gid)") (auto simp: x)
  have "tick_inv d (gs @ [g]) st1"
    using matched_game_inv [OF Cons.prems(1) _ _ st1] Cons.prems(2) by (auto simp: x)
  from Cons.IH [OF this] Cons.prems st1 show ?case by (simp add: x)
qed simp

lemma bucket_users: "u \<in> set (bucket d players mode) \<Longrightarrow> qu_user u \<in> qw_user ` set (db_queue d)"
  by (auto simp: bucket_def queued_def)

lemma distinct_bucket:
  assumes "distinct (map qw_user (db_queue d))"
  shows "distinct (map qu_user (bucket d players mode))"
proof -
  have "map qu_user (bucket d players mode)
      = map qw_user (sort_key qw_enqueued (filter (\<lambda>q. qw_players q = players \<and> qw_mode q = mode) (db_queue d)))"
    by (simp add: bucket_def queued_def)
  moreover have "distinct (map qw_user (filter P (db_queue d)))" for P
    using assms by (simp add: distinct_map_filter)
  ultimately show ?thesis by (simp add: distinct_map)
qed

context pairing_rule
begin

lemma tick_moves_users:
  assumes d: "distinct (map qw_user (db_queue d))"
    and n: "2 \<le> players" and tick: "matchmake_tick bad now locked new_id d players mode pair = Inr (d', seats)"
  shows "distinct (map mt_user seats)"
    and "db_queue d' = filter (\<lambda>q. qw_user q \<notin> mt_user ` set seats) (db_queue d)"
    and "\<And>m. m \<in> set seats \<Longrightarrow> mt_user m \<in> qw_user ` set (db_queue d) - locked
           \<and> seated_in d' m \<and> game_of d (mt_game m) = None"
proof -
  define rows where "rows = take matchmakeBatchSize (filter (\<lambda>u. qu_user u \<notin> locked) (bucket d players mode))"
  let ?gis = "zip (pair rows) (map new_id [0..<length (pair rows)])"
  have fold: "foldl (matched_game now players) (Some (d, [])) ?gis = Some (d', seats)"
    using tick by (auto simp: matchmake_tick_def rows_def Let_def split: if_splits option.splits)
  have sizes: "\<forall>x \<in> set ?gis. 2 \<le> length (fst x) \<and> length (fst x) \<le> players"
    using pair_size [OF n] by (auto dest!: set_zip_leftD)
  have "tick_inv d [] (d, [])" by (simp add: tick_inv_def)
  from matched_fold_inv [OF this sizes fold] have inv: "tick_inv d (pair rows) (d', seats)" by simp
  then have users: "map mt_user seats = map qu_user (concat (pair rows))" by (simp add: tick_inv_def)
  have sub: "mset (map qu_user (concat (pair rows))) \<subseteq># mset (map qu_user rows)"
    using image_mset_subseteq_mono [OF pair_from_rows [of rows]] by simp
  have "distinct (map qu_user rows)"
    using distinct_bucket [OF d] by (simp add: rows_def take_map [symmetric] distinct_map_filter)
  with sub show "distinct (map mt_user seats)" unfolding users by (rule distinct_submset)
  have set_users: "mt_user ` set seats = qu_user ` set (concat (pair rows))"
    using users by (metis image_set)
  then show "db_queue d' = filter (\<lambda>q. qw_user q \<notin> mt_user ` set seats) (db_queue d)"
    using inv by (simp add: tick_inv_def)
  fix m assume m: "m \<in> set seats"
  then have "mt_user m \<in> set (map qu_user (concat (pair rows)))" using users by (metis image_eqI image_set)
  then have "mt_user m \<in> qu_user ` set rows" using set_mset_mono [OF sub] by auto
  then have "mt_user m \<in> qw_user ` set (db_queue d) - locked"
    by (auto simp: rows_def dest!: in_set_takeD dest: bucket_users)
  then show "mt_user m \<in> qw_user ` set (db_queue d) - locked
           \<and> seated_in d' m \<and> game_of d (mt_game m) = None"
    using inv m by (auto simp: tick_inv_def)
qed

end

section \<open>The two rules\<close>

lemma mset_pairs: "mset (concat (as_groups qs ps)) = image_mset (nth qs) (mset (members ps))"
  by (induction ps) (auto simp: as_groups_def members_def)

interpretation duels: pairing_rule 2 "\<lambda>qs. pair1v1 qs now" for now
proof unfold_locales
  fix qs :: "queued_user list" and g
  obtain ps where ps: "pair1v1 qs now = as_groups qs ps" "good_pairs qs now ps" using pair1v1_groups by blast
  have "i < length qs" if "i \<in> set (members ps)" for i
    using that ps(2) by (fastforce simp: members_def good_pairs_def)
  then have "mset (members ps) \<subseteq># mset [0..<length qs]"
    using ps(2) by (intro mset_subset_eqI) (auto simp: good_pairs_def distinct_count_atmost_1 count_mset_0_iff)
  then have "image_mset (nth qs) (mset (members ps)) \<subseteq># image_mset (nth qs) (mset [0..<length qs])"
    by (rule image_mset_subseteq_mono)
  also have "image_mset (nth qs) (mset [0..<length qs]) = mset qs"
    by (metis map_nth mset_map)
  finally show "mset (concat (pair1v1 qs now)) \<subseteq># mset qs" by (simp add: ps mset_pairs)
  show "2 \<le> length g \<and> length g \<le> 2" if "g \<in> set (pair1v1 qs now)"
    using that by (auto simp: ps as_groups_def)
qed

interpretation rooms: pairing_rule players "\<lambda>qs. pair_multi qs players now" for players now
proof unfold_locales
  fix qs :: "queued_user list" and g
  show "mset (concat (pair_multi qs players now)) \<subseteq># mset qs"
    by (auto simp: pair_multi_def) (metis append_take_drop_id mset_append mset_subset_eq_add_left)
  show "2 \<le> length g \<and> length g \<le> players" if "2 \<le> players" "g \<in> set (pair_multi qs players now)"
    using that by (auto simp: pair_multi_def minMultiSeats_def split: if_splits)
qed

text \<open>C4: A tick of the matcher for any room size, with the pairing rule of that size: no user is matched twice, exactly the
  matched users leave the queue, each of them was queued and not locked by another tick, and each now
  has an occupied human seat in a new public game that is being played.\<close>

theorem tick_moves_queue_to_games:
  assumes "distinct (map qw_user (db_queue d))" "players \<in> set matcherPlayerCounts"
    and "matchmake_tick bad now locked new_id d players mode (pairing players now) = Inr (d', seats)"
  shows "distinct (map mt_user seats)
    \<and> db_queue d' = filter (\<lambda>q. qw_user q \<notin> mt_user ` set seats) (db_queue d)
    \<and> (\<forall>m \<in> set seats. mt_user m \<in> qw_user ` set (db_queue d) - locked
         \<and> seated_in d' m \<and> game_of d (mt_game m) = None)"
proof (cases "players = 2")
  case True
  then have tick: "matchmake_tick bad now locked new_id d 2 mode (\<lambda>qs. pair1v1 qs now) = Inr (d', seats)"
    using assms(3) by (simp add: pairing_def [abs_def])
  show ?thesis using duels.tick_moves_users [OF assms(1) _ tick] by simp
next
  case False
  then have tick: "matchmake_tick bad now locked new_id d players mode (\<lambda>qs. pair_multi qs players now) = Inr (d', seats)"
    using assms(3) by (simp add: pairing_def [abs_def])
  have n: "2 \<le> players" using assms(2) by (auto simp: matcherPlayerCounts_def)
  show ?thesis using rooms.tick_moves_users [OF assms(1) n tick] by simp
qed

definition sample_queue_db :: db where
  "sample_queue_db = empty_db\<lparr>db_queue := map (\<lambda>u. \<lparr>qw_user = u, qw_players = 3, qw_mode = RatingModeMulti,
     qw_rating = 1200, qw_enqueued = 0\<rparr>) [''a'', ''b'', ''c'']\<rparr>"

definition sample_tick :: "(db \<times> matched_seat list) result" where
  "sample_tick = matchmake_tick False (20 * second) {} (\<lambda>i. ''g'') sample_queue_db 3 RatingModeMulti
     (pairing 3 (20 * second))"

theorem tick_moves_queue_to_games_witness:
  "\<exists>d' seats. sample_tick = Inr (d', seats) \<and> map mt_user seats = [''a'', ''b'', ''c''] \<and> db_queue d' = []"
proof -
  have tick: "\<exists>d' seats. sample_tick = Inr (d', seats) \<and> map mt_user seats = [''a'', ''b'', ''c'']"
    by (simp add: sample_tick_def matchmake_tick_def bucket_def sample_queue_db_def empty_db_def
        queued_def matchmakeBatchSize_def pairing_def pair_multi_def minMultiSeats_def matched_game_def
        game_of_def RatingModeMulti_def)
  then obtain d' seats where r: "sample_tick = Inr (d', seats)" "map mt_user seats = [''a'', ''b'', ''c'']" by (elim exE conjE)
  have "mt_user ` set seats = {''a'', ''b'', ''c''}" using r(2) by (metis list.set(1,2) set_map)
  moreover have "db_queue d' = filter (\<lambda>q. qw_user q \<notin> mt_user ` set seats) (db_queue sample_queue_db)"
    using tick_moves_queue_to_games [OF _ _ r(1) [unfolded sample_tick_def]]
    by (simp add: sample_queue_db_def matcherPlayerCounts_def)
  ultimately have "db_queue d' = []" by (simp add: sample_queue_db_def)
  then show ?thesis using r by (intro exI conjI)
qed

end
