(* ===== verification/Matcher_Live.thy ===== *)
theory Matcher_Live
  imports Matcher_Props
begin

text \<open>
  Progress of matchmaking: what happens to two compatible players over any sequence of enqueues, withdrawals and ticks of the matcher, and
  that a room forms once its wait is over.
\<close>

section \<open>The life of the queue\<close>

datatype queue_event =
  Enqueue gtime string nat string int
| Withdraw string
| Tick "nat \<Rightarrow> nat \<Rightarrow> bool" gtime "string set" "nat \<Rightarrow> nat \<Rightarrow> string"

definition queue_step :: "db \<Rightarrow> queue_event \<Rightarrow> db" where
  "queue_step d e =
     (case e of
        Enqueue now u p mode r \<Rightarrow> (case enqueue_matchmake False now d u p mode r of Inl _ \<Rightarrow> d | Inr d' \<Rightarrow> d')
      | Withdraw u \<Rightarrow> (case cancel_matchmake False d u of Inl _ \<Rightarrow> d | Inr d' \<Rightarrow> d')
      | Tick fail now locked new_id \<Rightarrow> fst (matcher_tick fail now locked new_id d))"

definition run_queue :: "db \<Rightarrow> queue_event list \<Rightarrow> db" where
  "run_queue d es = foldl queue_step d es"

definition touches :: "string \<Rightarrow> queue_event \<Rightarrow> bool" where
  "touches u e = (case e of Enqueue _ w _ _ _ \<Rightarrow> w = u | Withdraw w \<Rightarrow> w = u | Tick _ _ _ _ \<Rightarrow> False)"

text \<open>The user left the queue for a seat of a game.\<close>

definition plays :: "db \<Rightarrow> string \<Rightarrow> bool" where
  "plays d u \<longleftrightarrow> u \<notin> qw_user ` set (db_queue d) \<and> (\<exists>gid. seated_in d \<lparr>mt_user = u, mt_game = gid\<rparr>)"

text \<open>The user's row stays as it is until the user plays, and then the user goes on playing.\<close>

definition waits_or_plays :: "string \<Rightarrow> db \<Rightarrow> db \<Rightarrow> bool" where
  "waits_or_plays u d d' \<longleftrightarrow> distinct (map qw_user (db_queue d)) \<longrightarrow>
     distinct (map qw_user (db_queue d')) \<and> (plays d u \<longrightarrow> plays d' u)
     \<and> (\<forall>row \<in> set (db_queue d). qw_user row = u \<longrightarrow> row \<in> set (db_queue d') \<or> plays d' u)"

lemma waits_or_plays_refl: "waits_or_plays u d d" by (simp add: waits_or_plays_def)

lemma waits_or_plays_trans: "waits_or_plays u d d1 \<Longrightarrow> waits_or_plays u d1 d2 \<Longrightarrow> waits_or_plays u d d2"
  unfolding waits_or_plays_def by blast

section \<open>One tick\<close>

lemma tick_rule:
  assumes "players \<in> set matcherPlayerCounts"
  shows "pairing_rule players (pairing players now)"
proof (cases "players = 2")
  case True
  then show ?thesis using duels.pairing_rule_axioms [of now] by (simp add: pairing_def [abs_def])
next
  case False
  then show ?thesis using rooms.pairing_rule_axioms [of players now] by (simp add: pairing_def [abs_def])
qed

context pairing_rule
begin

lemma tick_seats_rows:
  assumes "2 \<le> players" "matchmake_tick bad now locked new_id d players mode pair = Inr (d', seats)"
  shows "mt_user ` set seats
    = qu_user ` set (concat (pair (take matchmakeBatchSize (filter (\<lambda>u. qu_user u \<notin> locked) (bucket d players mode)))))"
proof -
  define rows where "rows = take matchmakeBatchSize (filter (\<lambda>u. qu_user u \<notin> locked) (bucket d players mode))"
  let ?gis = "zip (pair rows) (map new_id [0..<length (pair rows)])"
  have fold: "foldl (matched_game now players) (Some (d, [])) ?gis = Some (d', seats)"
    using assms(2) by (auto simp: matchmake_tick_def rows_def Let_def split: if_splits option.splits)
  have "\<forall>x \<in> set ?gis. 2 \<le> length (fst x) \<and> length (fst x) \<le> players"
    using pair_size [OF assms(1)] by (auto dest!: set_zip_leftD)
  moreover have "tick_inv d [] (d, [])" by (simp add: tick_inv_def)
  ultimately have "tick_inv d (pair rows) (d', seats)" using matched_fold_inv [OF _ _ fold] by fastforce
  then have "map mt_user seats = map qu_user (concat (pair rows))" by (simp add: tick_inv_def)
  then show ?thesis by (metis rows_def image_set)
qed

end

lemma matched_game_seated:
  assumes "matched_game now players (Some (d, seats)) gi = Some (d', seats')" "seated_in d m"
  shows "seated_in d' m"
proof -
  obtain g gid where gi: "gi = (g, gid)" by (cases gi)
  show ?thesis
  proof (cases "length g < 2 \<or> length g > players")
    case True
    then show ?thesis using assms by (auto simp: matched_game_def gi)
  next
    case False
    then have "game_of d gid = None" using assms(1) by (auto simp: matched_game_def gi split: if_splits)
    then show ?thesis
      using assms False by (auto simp: matched_game_def gi seated_in_def game_of_append split: option.splits if_splits)
  qed
qed

lemma tick_seated:
  assumes "matchmake_tick bad now locked new_id d players mode pair = Inr (d', seats)" "seated_in d m"
  shows "seated_in d' m"
proof -
  have "foldl (matched_game now players) (Some (d, s)) gis = Some (d', s') \<Longrightarrow> seated_in d m \<Longrightarrow> seated_in d' m" for gis d s s'
  proof (induction gis arbitrary: d s)
    case (Cons gi gis)
    have none: "foldl (matched_game now players) None xs = None" for xs :: "(queued_user list \<times> string) list"
      by (induction xs) (simp_all add: matched_game_def)
    then obtain d1 s1 where "matched_game now players (Some (d, s)) gi = Some (d1, s1)"
      using Cons.prems(1) by (cases "matched_game now players (Some (d, s)) gi") auto
    then show ?case using Cons.IH [of d1 s1] Cons.prems matched_game_seated by simp
  qed simp
  then show ?thesis using assms by (auto simp: matchmake_tick_def Let_def split: if_splits option.splits)
qed

lemma players_two: "players \<in> set matcherPlayerCounts \<Longrightarrow> 2 \<le> players"
  by (auto simp: matcherPlayerCounts_def)

lemma tick_keeps:
  assumes distinct: "distinct (map qw_user (db_queue d))" and p: "players \<in> set matcherPlayerCounts"
    and tick: "matchmake_tick bad now locked new_id d players mode (pairing players now) = Inr (d', seats)"
  shows "waits_or_plays u d d'" "u \<in> mt_user ` set seats \<Longrightarrow> plays d' u"
proof -
  note moved = pairing_rule.tick_moves_users [OF tick_rule [OF p] distinct players_two [OF p] tick]
  have out: "plays d' u" if matched: "u \<in> mt_user ` set seats"
  proof -
    obtain m where m: "m \<in> set seats" "mt_user m = u" using matched by auto
    then have "seated_in d' \<lparr>mt_user = u, mt_game = mt_game m\<rparr>"
      using moved(3) [OF m(1)] by (simp add: seated_in_def)
    moreover have "\<forall>q \<in> set (db_queue d'). qw_user q \<notin> mt_user ` set seats" by (simp add: moved(2))
    ultimately show ?thesis using matched unfolding plays_def by blast
  qed
  then show "waits_or_plays u d d'" "u \<in> mt_user ` set seats \<Longrightarrow> plays d' u"
    using tick_seated [OF tick] moved(2) by (auto simp: waits_or_plays_def plays_def distinct_map_filter)
qed

lemma count_db:
  "fst (tick_count fail now locked new_id st p) =
     (case matchmake_tick (fail p 0) now locked (new_id p) (fst st) p (if p = 2 then RatingMode1v1 else RatingModeMulti) (pairing p now) of
        Inl _ \<Rightarrow> fst st | Inr (d', _) \<Rightarrow> d')"
  by (simp add: tick_count_def Let_def split: prod.split sum.split)

lemma count_keeps:
  assumes "p \<in> set matcherPlayerCounts"
  shows "waits_or_plays u (fst st) (fst (tick_count fail now locked new_id st p))"
proof (cases "matchmake_tick (fail p 0) now locked (new_id p) (fst st) p (if p = 2 then RatingMode1v1 else RatingModeMulti) (pairing p now)")
  case Inl
  then show ?thesis by (simp add: count_db waits_or_plays_refl)
next
  case (Inr r)
  then obtain d' seats where r: "r = (d', seats)" by (cases r)
  then have "fst (tick_count fail now locked new_id st p) = d'" using Inr by (simp only: count_db sum.case prod.case)
  then show ?thesis
    using tick_keeps(1) [OF _ assms Inr [unfolded r]] by (auto simp: waits_or_plays_def)
qed

lemma counts_keep:
  "set ps \<subseteq> set matcherPlayerCounts \<Longrightarrow> waits_or_plays u (fst st) (fst (foldl (tick_count fail now locked new_id) st ps))"
proof (induction ps arbitrary: st)
  case (Cons p ps)
  have "waits_or_plays u (fst st) (fst (tick_count fail now locked new_id st p))" using Cons.prems by (intro count_keeps) simp
  moreover have "waits_or_plays u (fst (tick_count fail now locked new_id st p))
      (fst (foldl (tick_count fail now locked new_id) (tick_count fail now locked new_id st p) ps))"
    using Cons.prems by (intro Cons.IH) simp
  ultimately show ?case by (simp add: waits_or_plays_trans)
qed (simp add: waits_or_plays_refl)

lemma queue_step_keeps:
  assumes "\<not> touches u e"
  shows "waits_or_plays u d (queue_step d e)"
proof (cases e)
  case (Enqueue now w p mode r)
  have u: "w \<noteq> u" using assms by (simp add: touches_def Enqueue)
  have "map qw_user (map (\<lambda>q. if qw_user q = w then \<lparr>qw_user = w, qw_players = p, qw_mode = mode, qw_rating = r, qw_enqueued = now\<rparr> else q) xs)
      = map qw_user xs" for xs by (induction xs) auto
  with u show ?thesis
    by (auto simp: queue_step_def Enqueue enqueue_matchmake_def Let_def waits_or_plays_def plays_def seated_in_def game_of_def
        simp del: map_map)
next
  case (Withdraw w)
  then show ?thesis using assms
    by (auto simp: queue_step_def cancel_matchmake_def waits_or_plays_def plays_def seated_in_def game_of_def touches_def distinct_map_filter)
next
  case (Tick fail now locked new_id)
  then show ?thesis using counts_keep [of matcherPlayerCounts u "(d, [], [])"] by (simp add: queue_step_def matcher_tick_def)
qed

lemma run_keeps:
  "\<forall>e \<in> set es. \<not> touches u e \<Longrightarrow> waits_or_plays u d (run_queue d es)"
  unfolding run_queue_def
proof (induction es arbitrary: d)
  case (Cons e es)
  then have "waits_or_plays u d (queue_step d e)" "waits_or_plays u (queue_step d e) (foldl queue_step (queue_step d e) es)"
    by (auto intro: queue_step_keeps)
  then show ?case by (simp add: waits_or_plays_trans)
qed (simp add: waits_or_plays_refl)

section \<open>Two players within reach\<close>

lemma band_at_max: "90 * second \<le> age \<Longrightarrow> score_band_for age = 1000"
proof -
  assume "90 * second \<le> age"
  then have "(90000000000 :: real) \<le> of_int age" unfolding second_def by linarith
  then show ?thesis
    by (auto simp: score_band_for_def matchBandBase_def matchBandGrowthPS_def matchBandMax_def dur_seconds_def Let_def)
qed

lemma pair1v1_progress:
  assumes "u \<in> set rows" "v \<in> set rows" "u \<noteq> v" "\<bar>qu_rating u - qu_rating v\<bar> \<le> 1000"
    "90 * second \<le> time_sub now (qu_enqueued u)"
  shows "u \<in> set (concat (pair1v1 rows now)) \<or> v \<in> set (concat (pair1v1 rows now))"
proof -
  obtain ps where ps: "pair1v1 rows now = as_groups rows ps" "none_left rows now ps" using pair1v1_groups by blast
  obtain i j where ij: "i < length rows" "rows ! i = u" "j < length rows" "rows ! j = v" "i \<noteq> j"
    using assms(1-3) by (auto simp: in_set_conv_nth)
  have "of_int \<bar>qu_rating u - qu_rating v\<bar> \<le> (1000 :: real)" using assms(4) by linarith
  then have "compatible rows now i j" "compatible rows now j i"
    using ij band_at_max [OF assms(5)] by (auto simp: compatible_def rating_gap_def wait_band_def abs_minus_commute)
  then have "i \<in> set (members ps) \<or> j \<in> set (members ps)"
    using ps(2) ij unfolding none_left_def by (metis linorder_neqE_nat)
  moreover have "x \<in> set (members ps) \<Longrightarrow> rows ! x \<in> set (concat (as_groups rows ps))" for x
    by (auto simp: members_def as_groups_def)
  ultimately show ?thesis using ij ps(1) by auto
qed

lemma matched_game_fresh:
  assumes "game_of d gid = None"
  shows "\<exists>d1 s1. matched_game now players (Some (d, s)) (g, gid) = Some (d1, s1) \<and> (\<forall>y. y \<noteq> gid \<longrightarrow> game_of d1 y = game_of d y)"
proof (cases "length g < 2 \<or> length g > players")
  case False
  then show ?thesis using assms by (auto simp: matched_game_def game_of_append split: option.splits)
qed (simp add: matched_game_def)

lemma fresh_ids_succeed:
  "distinct (map snd gis) \<Longrightarrow> \<forall>x \<in> set gis. game_of d (snd x) = None
   \<Longrightarrow> \<exists>r. foldl (matched_game now players) (Some (d, s)) gis = Some r"
proof (induction gis arbitrary: d s)
  case (Cons x gis)
  obtain d1 s1 where step: "matched_game now players (Some (d, s)) x = Some (d1, s1)"
    "\<forall>y. y \<noteq> snd x \<longrightarrow> game_of d1 y = game_of d y"
    using Cons.prems(2) matched_game_fresh [of d "snd x" now players s "fst x"] by auto
  have "\<forall>y \<in> set gis. game_of d1 (snd y) = None" using Cons.prems step(2) by (metis image_eqI list.set_intros(2) set_map list.simps(9) distinct.simps(2))
  then show ?case using Cons.IH [of d1 s1] Cons.prems(1) step(1) by simp
qed simp

lemma tick_succeeds:
  assumes "inj new_id" "\<forall>i. game_of d (new_id i) = None"
  shows "\<exists>d' seats. matchmake_tick False now locked new_id d players mode pair = Inr (d', seats)"
proof -
  define gs where "gs = pair (take matchmakeBatchSize (filter (\<lambda>u. qu_user u \<notin> locked) (bucket d players mode)))"
  let ?gis = "zip gs (map new_id [0..<length gs])"
  have "map snd ?gis = map new_id [0..<length gs]" by simp
  then have "distinct (map snd ?gis)" "\<forall>x \<in> set ?gis. game_of d (snd x) = None"
    using assms by (simp_all add: distinct_map inj_on_def) (metis (no_types) ex_map_conv map_snd_zip image_eqI set_map length_map length_upt minus_nat.diff_0)
  then obtain r where "foldl (matched_game now players) (Some (d, [])) ?gis = Some r" using fresh_ids_succeed by blast
  then show ?thesis by (cases r) (simp add: matchmake_tick_def gs_def Let_def)
qed

lemma duel_tick:
  assumes d: "distinct (map qw_user (db_queue d))"
    and rows: "a \<in> set (db_queue d)" "b \<in> set (db_queue d)" "qw_user a \<noteq> qw_user b" "{qw_user a, qw_user b} \<inter> locked = {}"
    and duel: "\<forall>r \<in> {a, b}. qw_players r = 2 \<and> qw_mode r = RatingMode1v1"
    and near: "\<bar>qw_rating a - qw_rating b\<bar> \<le> 1000" and long: "90 * second \<le> time_sub now (qw_enqueued a)"
    and batch: "length (bucket d 2 RatingMode1v1) \<le> matchmakeBatchSize"
    and ids: "inj (new_id 2)" "\<forall>i. game_of d (new_id 2 i) = None" and ok: "\<not> fail 2 0"
  shows "plays (fst (tick_count fail now locked new_id (d, [], []) 2)) (qw_user a)
    \<or> plays (fst (tick_count fail now locked new_id (d, [], []) 2)) (qw_user b)"
proof -
  obtain d' seats where tick: "matchmake_tick False now locked (new_id 2) d 2 RatingMode1v1 (pairing 2 now) = Inr (d', seats)"
    using tick_succeeds [OF ids] by blast
  let ?rows = "take matchmakeBatchSize (filter (\<lambda>u. qu_user u \<notin> locked) (bucket d 2 RatingMode1v1))"
  have all: "?rows = filter (\<lambda>u. qu_user u \<notin> locked) (bucket d 2 RatingMode1v1)"
    using batch le_trans [OF length_filter_le] by simp
  have mem: "queued d a \<in> set ?rows" "queued d b \<in> set ?rows"
    using rows duel unfolding all by (auto simp: bucket_def queued_def)
  have "queued d a \<noteq> queued d b" using rows(3) by (simp add: queued_def)
  then have "queued d a \<in> set (concat (pair1v1 ?rows now)) \<or> queued d b \<in> set (concat (pair1v1 ?rows now))"
    using pair1v1_progress [OF mem] near long by (simp add: queued_def)
  moreover have "mt_user ` set seats = qu_user ` set (concat (pair1v1 ?rows now))"
    using pairing_rule.tick_seats_rows [OF tick_rule _ tick] by (simp add: matcherPlayerCounts_def pairing_def)
  ultimately have "qw_user a \<in> mt_user ` set seats \<or> qw_user b \<in> mt_user ` set seats"
    by (metis image_eqI queued_def queued_user.select_convs(1))
  then show ?thesis using tick_keeps(2) [OF d _ tick] ok by (auto simp: count_db tick matcherPlayerCounts_def)
qed

text \<open>C20: Two players of the duel queue within the widest band do not both wait for ever: once one of them has waited a
  minute and a half, the next tick of the matcher that works gives at least one of them a seat in a game, whatever enqueues,
  withdrawals and ticks of other players happen before and after, and who has a seat keeps it. The tick takes its
  hundred oldest rows, so the queue may hold no more.\<close>

theorem compatible_players_are_matched:
  assumes "distinct (map qw_user (db_queue d))" "a \<in> set (db_queue d)" "b \<in> set (db_queue d)" "qw_user a \<noteq> qw_user b"
    "\<forall>r \<in> {a, b}. qw_players r = 2 \<and> qw_mode r = RatingMode1v1"
    "\<bar>qw_rating a - qw_rating b\<bar> \<le> 1000" "90 * second \<le> time_sub now (qw_enqueued a)"
    "\<forall>e \<in> set (es @ es'). \<not> touches (qw_user a) e \<and> \<not> touches (qw_user b) e"
    "length (bucket (run_queue d es) 2 RatingMode1v1) \<le> matchmakeBatchSize" "{qw_user a, qw_user b} \<inter> locked = {}"
    "\<not> fail 2 0" "inj (new_id 2)" "\<forall>i. game_of (run_queue d es) (new_id 2 i) = None"
  shows "\<exists>u \<in> {qw_user a, qw_user b}. plays (run_queue d (es @ Tick fail now locked new_id # es')) u"
proof -
  let ?d1 = "run_queue d es" and ?d2 = "fst (tick_count fail now locked new_id (run_queue d es, [], []) 2)"
  let ?d3 = "queue_step ?d1 (Tick fail now locked new_id)" and ?d4 = "run_queue d (es @ Tick fail now locked new_id # es')"
  have d4: "?d4 = run_queue ?d3 es'" by (simp add: run_queue_def)
  have keep: "waits_or_plays u d ?d1" "waits_or_plays u ?d1 ?d3" "waits_or_plays u ?d3 ?d4" "waits_or_plays u ?d1 ?d2" "waits_or_plays u ?d2 ?d3"
    if "u \<in> {qw_user a, qw_user b}" for u
  proof -
    show "waits_or_plays u d ?d1" "waits_or_plays u ?d3 ?d4"
      using that assms(8) unfolding d4 by (auto intro!: run_keeps)
    show "waits_or_plays u ?d1 ?d3" by (rule queue_step_keeps) (simp add: touches_def)
    show "waits_or_plays u ?d1 ?d2" using count_keeps [of 2 u "(?d1, [], [])"] by (simp add: matcherPlayerCounts_def)
    show "waits_or_plays u ?d2 ?d3"
      using counts_keep [of "[3, 4, 5, 6]" u "tick_count fail now locked new_id (?d1, [], []) 2"]
      by (simp add: queue_step_def matcher_tick_def matcherPlayerCounts_def)
  qed
  have d1: "distinct (map qw_user (db_queue ?d1))" "distinct (map qw_user (db_queue ?d2))"
    using keep(1,4) [of "qw_user a"] assms(1) by (auto simp: waits_or_plays_def)
  have on: "plays ?d2 u \<Longrightarrow> plays ?d4 u" "plays ?d1 u \<Longrightarrow> plays ?d2 u" if "u \<in> {qw_user a, qw_user b}" for u
    using keep [OF that] d1 unfolding waits_or_plays_def by blast+
  show ?thesis
  proof (cases "a \<in> set (db_queue ?d1) \<and> b \<in> set (db_queue ?d1)")
    case True
    then show ?thesis
      using duel_tick [where d = ?d1 and new_id = new_id and fail = fail, OF d1(1) conjunct1 [OF True] conjunct2 [OF True] assms(4,10,5,6,7,9,12,13,11)] on(1) by blast
  next
    case False
    then have "plays ?d1 (qw_user a) \<or> plays ?d1 (qw_user b)"
      using keep(1) assms(1-3) unfolding waits_or_plays_def by blast
    then show ?thesis using on by blast
  qed
qed

definition two_waiting :: db where
  "two_waiting = empty_db\<lparr>db_queue := map (\<lambda>u. \<lparr>qw_user = u, qw_players = 2, qw_mode = RatingMode1v1,
     qw_rating = (if u = ''a'' then 900 else 1900), qw_enqueued = 0\<rparr>) [''a'', ''b'']\<rparr>"

theorem compatible_players_are_matched_witness:
  "\<exists>u \<in> {''a'', ''b''}. plays (run_queue two_waiting [Tick (\<lambda>_ _. False) (90 * second) {} (\<lambda>_ i. replicate i CHR ''x''), Withdraw ''c'']) u"
proof -
  let ?row = "\<lambda>u r. \<lparr>qw_user = u, qw_players = 2, qw_mode = RatingMode1v1, qw_rating = r, qw_enqueued = 0\<rparr>"
  have inj: "inj (\<lambda>i. replicate i CHR ''x'')" by (rule injI) (metis length_replicate)
  have bucket: "length (bucket two_waiting 2 RatingMode1v1) \<le> matchmakeBatchSize"
    by (simp add: bucket_def two_waiting_def empty_db_def matchmakeBatchSize_def)
  show ?thesis
    using compatible_players_are_matched [of two_waiting "?row ''a'' 900" "?row ''b'' 1900" "90 * second" "[]" "[Withdraw ''c'']" "{}"
        "\<lambda>_ _. False" "\<lambda>_ i. replicate i CHR ''x''"] inj bucket
    by (simp add: two_waiting_def empty_db_def game_of_def touches_def run_queue_def time_sub_def second_def)
qed

end
