(* ===== verification/Replay_Props.thy ===== *)
theory Replay_Props
  imports Repo
begin

text \<open>
  Loading a game: what replaying the recorded moves reproduces of the live game, and the round trip
  of a new game through the tables.
\<close>

section \<open>Play without clocks\<close>

text \<open>Two states agree when only clocks differ: the players' remaining times and the start of the turn.\<close>

definition unclocked :: "player \<Rightarrow> color \<times> int \<times> int" where
  "unclocked p = (pl_color p, pl_gems p, pl_pairs p)"

definition agree :: "game_state \<Rightarrow> game_state \<Rightarrow> bool" where
  "agree g h \<longleftrightarrow> gs_config g = gs_config h \<and> gs_board g = gs_board h \<and> gs_turn g = gs_turn h
     \<and> gs_history g = gs_history h \<and> gs_winner g = gs_winner h \<and> gs_kind g = gs_kind h
     \<and> map unclocked (gs_players g) = map unclocked (gs_players h)"

lemma agree_refl [simp]: "agree g g"
  by (simp add: agree_def)

lemma agree_current:
  assumes "agree g h"
  shows "length (gs_players g) = length (gs_players h)"
    and "gs_turn g < length (gs_players g) \<Longrightarrow> unclocked (current_player g) = unclocked (current_player h)"
proof -
  have eq: "map unclocked (gs_players g) = map unclocked (gs_players h)" using assms by (simp add: agree_def)
  show len: "length (gs_players g) = length (gs_players h)" using eq by (rule map_eq_imp_length_eq)
  show "unclocked (current_player g) = unclocked (current_player h)" if "gs_turn g < length (gs_players g)"
    using that eq len assms unfolding current_player_def agree_def by (metis nth_map)
qed

lemma agree_check_win:
  assumes "agree g h" "unclocked p = unclocked q"
  shows "check_win g p = check_win h q"
  using assms by (simp add: agree_def unclocked_def check_win_def)

lemma charge_clock_unclocked: "charge_clock g p t = Some q \<Longrightarrow> unclocked q = unclocked p"
  using charge_clock_Some [of g p t q] by (simp add: unclocked_def)

text \<open>A move accepted in both states does the same to both.\<close>

lemma agree_place:
  assumes a: "agree g h" and p: "unclocked p = unclocked q"
  shows "agree (fst (place g m p t)) (fst (place h m q t')) \<and> snd (place g m p t) = snd (place h m q t')"
proof -
  have same: "move_board g m = move_board h m" "move_captures g m = move_captures h m"
    using a by (simp_all add: agree_def move_board_def move_captures_def)
  have paid: "unclocked (paid_player g m p) = unclocked (paid_player h m q)"
    using p by (simp add: paid_player_def unclocked_def same)
  have am: "agree (moved g m p) (moved h m q)"
    using a paid by (simp add: agree_def moved_def map_update same)
  have "check_win (moved g m p) (paid_player g m p) = check_win (moved h m q) (paid_player h m q)"
    by (rule agree_check_win [OF am paid])
  moreover have "pl_color p = pl_color q" using p by (simp add: unclocked_def)
  moreover have "length (gs_players g) = length (gs_players h)" by (rule agree_current(1) [OF a])
  ultimately show ?thesis
    using am a by (auto simp: place_eq Let_def same) (auto simp: agree_def moved_def)
qed

lemma agree_move:
  assumes "agree g h" "apply_move g m t = Done (g', r)" "apply_move h m t' = Done (h', r')"
  shows "agree g' h' \<and> r = r'"
proof -
  obtain p where p: "accepts g m t p" "(g', r) = place g m p t" using assms(2) apply_move_Done by metis
  obtain q where q: "accepts h m t' q" "(h', r') = place h m q t'" using assms(3) apply_move_Done by metis
  have "unclocked p = unclocked q"
    using p(1) q(1) agree_current(2) [OF assms(1)] charge_clock_unclocked by (metis accepts_def)
  from agree_place [OF assms(1) this, of m t t'] p(2) q(2) show ?thesis by (metis fst_conv snd_conv)
qed

lemma agree_accepted:
  assumes "agree g h" "apply_move g m t = Done r" "charge_clock h (current_player h) t' \<noteq> None"
  shows "\<exists>r'. apply_move h m t' = Done r'"
proof -
  obtain p where p: "accepts g m t p" using assms(2) apply_move_Done by metis
  have "unclocked (current_player g) = unclocked (current_player h)"
    using p agree_current(2) [OF assms(1)] by (simp add: accepts_def)
  then have "\<exists>q. accepts h m t' q"
    using p assms(1,3) agree_current(1) [OF assms(1)]
    by (auto simp: accepts_def agree_def is_over_def unclocked_def)
  then show ?thesis using apply_move_Done by blast
qed

section \<open>Replay against the live game\<close>

text \<open>A live game as the server plays it: each move at the time it arrived.\<close>

fun play_live :: "game_state \<Rightarrow> (move \<times> gtime) list \<Rightarrow> game_state option" where
  "play_live g [] = Some g"
| "play_live g ((m, t) # ms) =
     (case apply_move g m t of Done (g', _) \<Rightarrow> play_live g' ms | _ \<Rightarrow> None)"

lemma foldl_Inl: "foldl replay_step (Inl e) ms = Inl e"
  by (induction ms) (simp_all add: replay_step_def)

definition turn_from :: "game_state \<Rightarrow> gtime \<Rightarrow> game_state" where
  "turn_from g t = (if is_zero_time (gs_started g) then g\<lparr>gs_started := t\<rparr> else g)"

lemma replay_Cons:
  "replay g (mw # ms) = (case apply_move (turn_from g (mw_played mw)) (mw_move mw) (mw_played mw) of
     Done (g', _) \<Rightarrow> replay g' ms | Fail e \<Rightarrow> Inl (ErrEngine e) | Panic \<Rightarrow> Inl EnginePanic)"
  by (auto simp: replay_def replay_step_def turn_from_def Let_def foldl_Inl split: outcome.splits)

lemma agree_turn_from: "agree g h \<Longrightarrow> agree g (turn_from h t)"
  by (simp add: agree_def turn_from_def)

lemma replay_agrees:
  assumes "agree g h" "play_live g (zip (map mw_move rows) ts) = Some g'" "length ts = length rows"
    and "replay h rows = Inr h'"
  shows "agree g' h'"
  using assms
proof (induction rows arbitrary: g h ts)
  case Nil
  then show ?case by (simp add: replay_def)
next
  case (Cons mw rows)
  then obtain t ts' where ts: "ts = t # ts'" by (cases ts) auto
  obtain g1 r where g1: "apply_move g (mw_move mw) t = Done (g1, r)" "play_live g1 (zip (map mw_move rows) ts') = Some g'"
    using Cons.prems(2) by (auto simp: ts split: outcome.splits)
  obtain h1 r' where h1: "apply_move (turn_from h (mw_played mw)) (mw_move mw) (mw_played mw) = Done (h1, r')"
    "replay h1 rows = Inr h'"
    using Cons.prems(4) by (auto simp: replay_Cons split: outcome.splits)
  have "agree g1 h1" using agree_move [OF agree_turn_from [OF Cons.prems(1)] g1(1) h1(1)] by simp
  with Cons.IH [OF _ g1(2) _ h1(2)] Cons.prems(3) ts show ?case by simp
qed

lemma replay_total:
  assumes "agree g h" "\<not> clock_enabled g" "play_live g (zip (map mw_move rows) ts) = Some g'" "length ts = length rows"
  shows "\<exists>h'. replay h rows = Inr h'"
  using assms
proof (induction rows arbitrary: g h ts)
  case Nil
  then show ?case by (simp add: replay_def)
next
  case (Cons mw rows)
  then obtain t ts' where ts: "ts = t # ts'" by (cases ts) auto
  obtain g1 r where g1: "apply_move g (mw_move mw) t = Done (g1, r)" "play_live g1 (zip (map mw_move rows) ts') = Some g'"
    using Cons.prems(3) by (auto simp: ts split: outcome.splits)
  let ?h = "turn_from h (mw_played mw)"
  have ah: "agree g ?h" by (rule agree_turn_from [OF Cons.prems(1)])
  have "charge_clock ?h (current_player ?h) (mw_played mw) \<noteq> None"
    using Cons.prems(2) ah by (simp add: charge_clock_def clock_enabled_def agree_def)
  then obtain h1 r' where h1: "apply_move ?h (mw_move mw) (mw_played mw) = Done (h1, r')"
    using agree_accepted [OF ah g1(1)] by (metis surj_pair)
  have "agree g1 h1" using agree_move [OF ah g1(1) h1] by simp
  moreover have "\<not> clock_enabled g1"
    using g1(1) Cons.prems(2) by (auto simp: apply_move_Done clock_enabled_def) (metis fst_conv place_frame(1))
  ultimately show ?case using Cons.IH [OF _ _ g1(2)] Cons.prems(4) ts h1 by (simp add: replay_Cons)
qed

text \<open>When the recorded times are the live ones, the replay is the live game whose first turn started with its
  first move.\<close>

lemma replay_exact:
  assumes "\<forall>mw \<in> set rows. mw_played mw \<noteq> zero_time" "gs_started g \<noteq> zero_time"
  shows "(play_live g (map (\<lambda>mw. (mw_move mw, mw_played mw)) rows) = Some g') \<longleftrightarrow> replay g rows = Inr g'"
  using assms
proof (induction rows arbitrary: g)
  case Nil
  then show ?case by (auto simp: replay_def)
next
  case (Cons mw rows)
  have tf: "turn_from g (mw_played mw) = g" using Cons.prems by (simp add: turn_from_def is_zero_time_def)
  show ?case
  proof (cases "apply_move g (mw_move mw) (mw_played mw)")
    case (Done r)
    obtain g1 res where r: "r = (g1, res)" by (cases r)
    have "gs_started g1 \<noteq> zero_time"
      using Done r Cons.prems by (auto simp: apply_move_Done place_def Let_def split: if_splits)
    then show ?thesis using Cons.IH [of g1] Cons.prems Done r by (simp add: replay_Cons tf)
  qed (simp_all add: replay_Cons tf)
qed

section \<open>Properties\<close>

text \<open>C10: Whatever the times at which the database recorded the moves, a replay that succeeds reproduces the live
  game's board, turn, history, result and every player's gems and pairs; without clocks it always
  succeeds.\<close>

theorem replay_reproduces_live_game:
  assumes "play_live (start_clock (new_game colors cfg) t0) (zip (map mw_move rows) ts) = Some g"
    and "length ts = length rows"
  shows "(replay (new_game colors cfg) rows = Inr h \<longrightarrow> agree g h)
    \<and> (cf_initial cfg \<le> 0 \<longrightarrow> (\<exists>h. replay (new_game colors cfg) rows = Inr h))"
proof -
  have a: "agree (start_clock (new_game colors cfg) t0) (new_game colors cfg)"
    by (simp add: agree_def start_clock_def)
  have "\<not> clock_enabled (start_clock (new_game colors cfg) t0)" if "cf_initial cfg \<le> 0"
    using that by (simp add: clock_enabled_def start_clock_def new_game_def)
  with replay_agrees [OF a assms] replay_total [OF a _ assms] show ?thesis by blast
qed

definition clocked_config :: config where
  "clocked_config = \<lparr>cf_side = 2, cf_pairs = 1, cf_align4 = 1, cf_align5 = 1, cf_initial = 1000, cf_incr = 5\<rparr>"

definition first_row :: move_row where
  "first_row = \<lparr>mw_game = ''g'', mw_ordinal = 1, mw_move = \<lparr>mv_player = 1, mv_pos = Position 0 1\<rparr>,
     mw_played = 900000001\<rparr>"

definition live_after :: "game_state option" where
  "live_after = play_live (start_clock (new_game [1, 2] clocked_config) 1) [(mw_move first_row, 900000001)]"

lemma live_after_times:
  "map_option (\<lambda>g. (map pl_time (gs_players g), gs_turn g)) live_after = Some ([105, 1000], 1)"
  by code_simp

lemma replayed_times:
  "map_option (\<lambda>g. map pl_time (gs_players g)) (case replay (new_game [1, 2] clocked_config) [first_row] of Inr h \<Rightarrow> Some h | Inl _ \<Rightarrow> None)
     = Some [1005, 1000]"
  by code_simp

theorem replay_reproduces_live_game_witness:
  "\<exists>h. replay (new_game [1, 2] clocked_config) [first_row] = Inr h \<and> gs_turn h = 1"
proof -
  obtain g where g: "live_after = Some g" "gs_turn g = 1" using live_after_times by auto
  obtain h where h: "replay (new_game [1, 2] clocked_config) [first_row] = Inr h"
    using replayed_times by (cases "replay (new_game [1, 2] clocked_config) [first_row]") auto
  have "agree g h"
    using replay_reproduces_live_game [of "[1, 2]" clocked_config 1 "[first_row]" "[900000001]" g h] g(1) h
    by (simp add: live_after_def)
  then show ?thesis using g(2) h by (auto simp: agree_def)
qed

text \<open>The clocks a replay restores: they are those of the game played at the recorded times whose first turn
  began with its own first move, so the thinking time before the first move is never charged.\<close>

theorem replay_forgets_first_turn:
  assumes "rows \<noteq> []" "\<forall>mw \<in> set rows. mw_played mw \<noteq> zero_time"
  shows "replay (new_game colors cfg) rows = Inr h \<longleftrightarrow>
    play_live ((new_game colors cfg)\<lparr>gs_started := mw_played (hd rows)\<rparr>)
      (map (\<lambda>mw. (mw_move mw, mw_played mw)) rows) = Some h"
proof -
  let ?g = "(new_game colors cfg)\<lparr>gs_started := mw_played (hd rows)\<rparr>"
  have "replay (new_game colors cfg) rows = replay ?g rows"
    using assms by (cases rows) (simp_all add: replay_Cons turn_from_def new_game_def is_zero_time_def)
  moreover have "gs_started ?g \<noteq> zero_time" using assms by (cases rows) auto
  ultimately show ?thesis using replay_exact [OF assms(2)] by simp
qed

theorem replay_forgets_first_turn_witness:
  "map_option (\<lambda>g. map pl_time (gs_players g)) (play_live ((new_game [1, 2] clocked_config)\<lparr>gs_started := 900000001\<rparr>)
      [(mw_move first_row, 900000001)]) = Some [1005, 1000]
   \<and> map_option (\<lambda>g. map pl_time (gs_players g)) live_after = Some [105, 1000]"
proof -
  obtain h where h: "replay (new_game [1, 2] clocked_config) [first_row] = Inr h"
    "map pl_time (gs_players h) = [1005, 1000]"
    using replayed_times by (cases "replay (new_game [1, 2] clocked_config) [first_row]") auto
  have t: "mw_played first_row = 900000001" by (simp add: first_row_def)
  have "play_live ((new_game [1, 2] clocked_config)\<lparr>gs_started := 900000001\<rparr>) [(mw_move first_row, 900000001)] = Some h"
    using replay_forgets_first_turn [of "[first_row]" "[1, 2]" clocked_config h] h(1) by (simp add: t zero_time_def)
  then show ?thesis using h(2) live_after_times by (cases live_after) auto
qed

text \<open>A game that was saved and not played yet loads back as it was: its seats, status, configuration and
  empty board, with the visibility defaulted, no rematch and no offers; only the clock of a game
  already being played starts anew.\<close>

theorem saved_game_loads_back:
  assumes "save_new_game False t d rc = Inr d'"
    and "rc_id rc \<notin> fst ` set (db_seats d)" "rc_id rc \<notin> mw_game ` set (db_moves d)"
    and "sorted (map st_index (rc_seats rc))" "rc_state rc = new_game (map st_color (rc_seats rc)) cfg"
  shows "load_game False now d' (rc_id rc) = Inr (Some (rc\<lparr>
      rc_state := (if rc_status rc = StatusPlaying then start_clock (rc_state rc) now else rc_state rc),
      rc_visibility := (if rc_visibility rc = '''' then VisibilityPrivate else rc_visibility rc),
      rc_rematch := '''', rc_created := t, rc_draw_by := -1, rc_offer := None\<rparr>))"
proof -
  let ?row = "\<lparr>gw_id = rc_id rc, gw_status = rc_status rc, gw_config = gs_config (rc_state rc),
            gw_winner = Empty, gw_kind = WinNone,
            gw_visibility = (if rc_visibility rc = '''' then VisibilityPrivate else rc_visibility rc),
            gw_rematch = None, gw_offer = None, gw_draw_by = -1, gw_event_seq = 0, gw_rated_at = None,
            gw_created = t, gw_updated = t\<rparr>"
  have d': "d' = d\<lparr>db_games := db_games d @ [?row], db_seats := db_seats d @ map (Pair (rc_id rc)) (rc_seats rc)\<rparr>"
    and fresh: "game_of d (rc_id rc) = None"
    using assms(1) by (auto simp: save_new_game_def split: if_splits)
  have "game_of d' (rc_id rc) = Some ?row" using fresh by (simp add: d' game_of_def find_append)
  moreover have "filter (\<lambda>x. fst x = rc_id rc) (db_seats d) = []" using assms(2) by (force simp: filter_empty_conv)
  then have "seats_of d' (rc_id rc) = rc_seats rc"
    using assms(4) by (simp add: seats_of_def d' filter_map comp_def sort_key_id_if_sorted)
  moreover have "filter (\<lambda>m. mw_game m = rc_id rc) (db_moves d) = []" using assms(3) by (force simp: filter_empty_conv)
  then have "moves_of d' (rc_id rc) = []" by (simp add: moves_of_def d')
  moreover have "gs_config (rc_state rc) = cfg" using assms(5) by (simp add: new_game_def)
  ultimately show ?thesis
    using assms(5) by (cases rc)
      (simp add: load_game_def load_game_reads_def Let_def replay_def is_zero_time_def start_clock_def clock_enabled_def new_game_def)
qed

theorem saved_game_loads_back_witness:
  "\<exists>d'. save_new_game False 5 empty_db \<lparr>rc_id = ''g'', rc_state = new_game [1, 2] clocked_config, rc_seats = fresh_seats 2,
       rc_status = StatusWaiting, rc_visibility = '''', rc_rematch = '''', rc_created = 1, rc_draw_by = -1,
       rc_offer = None\<rparr> = Inr d'
     \<and> load_game False 9 d' ''g'' = Inr (Some \<lparr>rc_id = ''g'', rc_state = new_game [1, 2] clocked_config,
       rc_seats = fresh_seats 2, rc_status = StatusWaiting, rc_visibility = VisibilityPrivate, rc_rematch = '''',
       rc_created = 5, rc_draw_by = -1, rc_offer = None\<rparr>)"
proof -
  let ?rc = "\<lparr>rc_id = ''g'', rc_state = new_game [1, 2] clocked_config, rc_seats = fresh_seats 2,
       rc_status = StatusWaiting, rc_visibility = '''', rc_rematch = '''', rc_created = 1, rc_draw_by = -1,
       rc_offer = None\<rparr>"
  have two: "[0..<2] = [0, 1 :: nat]" by (simp add: upt_rec)
  obtain d' where save: "save_new_game False 5 empty_db ?rc = Inr d'"
    by (simp add: save_new_game_def empty_db_def game_of_def fresh_seats_def empty_seat_def two)
  have "load_game False 9 d' (rc_id ?rc) = Inr (Some (?rc\<lparr>rc_state := rc_state ?rc, rc_visibility := VisibilityPrivate,
      rc_rematch := '''', rc_created := 5, rc_draw_by := -1, rc_offer := None\<rparr>))"
    using saved_game_loads_back [OF save, of clocked_config 9]
    by (simp add: empty_db_def fresh_seats_def empty_seat_def two)
  with save show ?thesis by (intro exI [of _ d']) simp
qed

section \<open>Loads between writes\<close>

lemma apply_move_history: "apply_move g m now = Done (g', res) \<Longrightarrow> gs_history g' = gs_history g @ [m]"
  by (auto simp: apply_move_Done) (metis fst_conv place_frame(4))

lemma replay_history: "replay g rows = Inr h \<Longrightarrow> gs_history h = gs_history g @ map mw_move rows"
proof (induction rows arbitrary: g)
  case (Cons mw rows)
  obtain g1 res where "apply_move (turn_from g (mw_played mw)) (mw_move mw) (mw_played mw) = Done (g1, res)" "replay g1 rows = Inr h"
    using Cons.prems by (auto simp: replay_Cons split: outcome.splits)
  moreover have "gs_history (turn_from g t) = gs_history g" for t by (simp add: turn_from_def)
  ultimately have "gs_history g1 = gs_history g @ [mw_move mw]" "replay g1 rows = Inr h" using apply_move_history by metis+
  then show ?case using Cons.IH by simp
qed (simp add: replay_def)

text \<open>
  The outcome of a loaded game is the one its row had, and its history the one its moves had. A load whose first query comes before a winning move is
  written and whose last one comes after it has the move on the board and a game that is still being played.
\<close>

lemma mixed_load:
  assumes "load_game_reads bad now dg ds dm gid = Inr (Some rc)"
  shows "\<exists>row. game_of dg gid = Some row \<and> rc_status rc = gw_status row \<and> gs_winner (rc_state rc) = gw_winner row
    \<and> gs_kind (rc_state rc) = gw_kind row \<and> rc_seats rc = seats_of ds gid \<and> gs_history (rc_state rc) = map mw_move (moves_of dm gid)"
proof -
  obtain row where row: "game_of dg gid = Some row" using assms by (auto simp: load_game_reads_def split: if_splits option.splits)
  let ?g0 = "new_game (map st_color (seats_of ds gid)) (gw_config row)"
  obtain h where h: "replay ?g0 (moves_of dm gid) = Inr h"
    using assms by (cases "replay ?g0 (moves_of dm gid)") (auto simp: load_game_reads_def row Let_def split: if_splits)
  have "gs_history h = map mw_move (moves_of dm gid)" using replay_history [OF h] by (simp add: new_game_def)
  then show ?thesis
    using assms row unfolding load_game_reads_def by (intro exI [of _ row]) (auto simp: h Let_def split: if_splits)
qed

end
