(* ===== verification/Wire.thy ===== *)
theory Wire
  imports Play
begin

text \<open>
  What the server sends: the snapshots of \<open>internal/server/dto.go\<close>, the events of \<open>hub.go\<close> and the replay of
  \<open>replay.go\<close>. The rendering as JSON is left to \<open>encoding/json\<close>; a nil pointer or an elided field is
  \<open>None\<close>, and the start of the turn stays a time instead of its RFC 3339 text.
\<close>

section \<open>Snapshots\<close>

record seat_dto =
  sd_index :: int
  sd_color :: color
  sd_name :: string
  sd_user :: string
  sd_occupied :: bool
  sd_bot :: bool

record player_dto =
  pd_color :: color
  pd_gems :: int
  pd_pairs :: int
  pd_time :: int

record thresholds_dto =
  th_pairs :: int
  th_align4 :: int
  th_align5 :: int
  th_initial :: int
  th_incr :: int

record rematch_offer_dto =
  od_accepted :: "int list"
  od_pending :: "int list"

record game_dto =
  gd_id :: string
  gd_status :: status
  gd_side :: int
  gd_cells :: "color list"
  gd_players :: "player_dto list"
  gd_seats :: "seat_dto list"
  gd_turn :: nat
  gd_winner :: color
  gd_kind :: win_kind
  gd_moves :: nat
  gd_thresholds :: thresholds_dto
  gd_started :: "gtime option"
  gd_visibility :: string
  gd_rematch :: string
  gd_last :: "position option"
  gd_offer :: "rematch_offer_dto option"
  gd_draw_by :: int

record capture_dto =
  cd_victim :: color
  cd_capturer :: color
  cd_pair :: "position \<times> position"

definition to_seat_dto :: "seat \<Rightarrow> seat_dto" where
  "to_seat_dto s = \<lparr>sd_index = st_index s, sd_color = st_color s, sd_name = st_name s, sd_user = st_user s,
                   sd_occupied = st_occupied s, sd_bot = st_bot s\<rparr>"

definition to_player_dto :: "player \<Rightarrow> player_dto" where
  "to_player_dto p = \<lparr>pd_color = pl_color p, pd_gems = pl_gems p, pd_pairs = pl_pairs p, pd_time = pl_time p\<rparr>"

definition to_rematch_offer_dto :: "game_record \<Rightarrow> rematch_offer_dto option" where
  "to_rematch_offer_dto rc =
     (case rc_offer rc of
        None \<Rightarrow> None
      | Some ro \<Rightarrow>
          if rc_rematch rc \<noteq> '''' then None
          else let humans = map (int \<circ> fst) (filter (\<lambda>(i, s). st_occupied s \<and> \<not> st_bot s)
                     (zip [0..<length (rc_seats rc)] (rc_seats rc)))
               in Some \<lparr>od_accepted = filter (\<lambda>i. i \<in> ro_accepted ro) humans,
                        od_pending = filter (\<lambda>i. i \<notin> ro_accepted ro) humans\<rparr>)"

text \<open>While a game waits, its thresholds are a preview for the players it has, at least two.\<close>

definition shown_config :: "game_record \<Rightarrow> config" where
  "shown_config rc =
     (let cfg = gs_config (rc_state rc); occupied = length (filter st_occupied (rc_seats rc))
      in if rc_status rc = StatusWaiting then config_for (int (if occupied < 2 then 2 else occupied)) cfg else cfg)"

definition to_game_dto :: "game_record \<Rightarrow> game_dto" where
  "to_game_dto rc =
     (let g = rc_state rc; thr = shown_config rc
      in \<lparr>gd_id = rc_id rc, gd_status = rc_status rc, gd_side = b_side (gs_board g), gd_cells = b_cells (gs_board g),
          gd_players = map to_player_dto (gs_players g), gd_seats = map to_seat_dto (rc_seats rc), gd_turn = gs_turn g,
          gd_winner = gs_winner g, gd_kind = gs_kind g, gd_moves = length (gs_history g),
          gd_thresholds = \<lparr>th_pairs = cf_pairs thr, th_align4 = cf_align4 thr, th_align5 = cf_align5 thr,
                           th_initial = cf_initial thr, th_incr = cf_incr thr\<rparr>,
          gd_started = (if is_zero_time (gs_started g) then None else Some (gs_started g)),
          gd_visibility = (if rc_visibility rc = '''' then VisibilityPrivate else rc_visibility rc),
          gd_rematch = rc_rematch rc,
          gd_last = (if gs_history g = [] then None else Some (mv_pos (last (gs_history g)))),
          gd_offer = to_rematch_offer_dto rc, gd_draw_by = rc_draw_by rc\<rparr>)"

definition to_capture_dto :: "capture \<Rightarrow> capture_dto" where
  "to_capture_dto c = \<lparr>cd_victim = cp_victim c, cd_capturer = cp_capturer c, cd_pair = cp_pair c\<rparr>"

definition to_capture_dtos :: "capture list \<Rightarrow> capture_dto list" where
  "to_capture_dtos cs = map to_capture_dto cs"

section \<open>Events\<close>

datatype payload =
  StatePayload game_dto | MovePayload game_dto "capture_dto list" | ChatPayload message_row
| RatedPayload game_ratings | PresencePayload int bool

record event =
  evt_type :: string
  evt_payload :: payload

definition event_state :: "game_dto \<Rightarrow> event" where
  "event_state g = \<lparr>evt_type = ''state'', evt_payload = StatePayload g\<rparr>"

definition event_move :: "game_dto \<Rightarrow> capture_dto list \<Rightarrow> event" where
  "event_move g caps = \<lparr>evt_type = ''move'', evt_payload = MovePayload g caps\<rparr>"

definition event_chat :: "message_row \<Rightarrow> event" where
  "event_chat m = \<lparr>evt_type = ''chat'', evt_payload = ChatPayload m\<rparr>"

definition event_rated :: "game_ratings \<Rightarrow> event" where
  "event_rated gr = \<lparr>evt_type = ''rated'', evt_payload = RatedPayload gr\<rparr>"

definition event_presence :: "int \<Rightarrow> bool \<Rightarrow> event" where
  "event_presence i online = \<lparr>evt_type = ''presence'', evt_payload = PresencePayload i online\<rparr>"

section \<open>Replays\<close>

record replay_step_dto =
  rs_ordinal :: nat
  rs_player :: color
  rs_pos :: position
  rs_captures :: "capture_dto list"

record replay_dto =
  rd_game :: string
  rd_side :: int
  rd_players :: nat
  rd_steps :: "replay_step_dto list"

text \<open>The loop of \<open>getReplay\<close>: every move is applied at the zero time to a fresh game.\<close>

fun replay_steps :: "nat \<Rightarrow> game_state \<Rightarrow> move list \<Rightarrow> replay_step_dto list option" where
  "replay_steps i g [] = Some []"
| "replay_steps i g (m # ms) =
     (case apply_move g m zero_time of
        Done (g', res) \<Rightarrow>
          map_option ((#) \<lparr>rs_ordinal = i, rs_player = mv_player m, rs_pos = mv_pos m,
                           rs_captures = to_capture_dtos (mr_captures res)\<rparr>) (replay_steps (i + 1) g' ms)
      | _ \<Rightarrow> None)"

definition replay_of :: "game_record \<Rightarrow> replay_dto option" where
  "replay_of rc =
     (let g = rc_state rc; cfg = gs_config g; colors = map pl_color (gs_players g)
      in map_option (\<lambda>steps. \<lparr>rd_game = rc_id rc, rd_side = cf_side cfg, rd_players = length colors, rd_steps = steps\<rparr>)
           (replay_steps 0 (new_game colors cfg) (gs_history g)))"

end
