(* ===== verification/Wire_Props.thy ===== *)
theory Wire_Props
  imports Wire Replay_Props Play_Props
begin

text \<open>
  What clients see: snapshots that give no token away, thresholds that are announced before the game
  starts, and replays that show what happened.
\<close>

section \<open>Snapshots\<close>

lemma to_seat_dto_hash [simp]: "to_seat_dto (s\<lparr>st_hash := h\<rparr>) = to_seat_dto s"
  by (simp add: to_seat_dto_def)

lemma zip_map_hash:
  "filter (\<lambda>p. st_occupied (snd p) \<and> \<not> st_bot (snd p)) (zip is (map (\<lambda>s. s\<lparr>st_hash := h s\<rparr>) ss))
     = map (\<lambda>(i, s). (i, s\<lparr>st_hash := h s\<rparr>)) (filter (\<lambda>p. st_occupied (snd p) \<and> \<not> st_bot (snd p)) (zip is ss))"
proof (induction ss arbitrary: "is")
  case (Cons s ss)
  then show ?case by (cases "is") auto
qed simp

text \<open>C22: What clients are sent tells nothing about the seats' tokens: two records that differ only in the token
  hashes have the same snapshot.\<close>

theorem snapshot_hides_tokens:
  "to_game_dto (rc\<lparr>rc_seats := map (\<lambda>s. s\<lparr>st_hash := h s\<rparr>) (rc_seats rc)\<rparr>) = to_game_dto rc"
proof -
  have "to_rematch_offer_dto (rc\<lparr>rc_seats := map (\<lambda>s. s\<lparr>st_hash := h s\<rparr>) (rc_seats rc)\<rparr>) = to_rematch_offer_dto rc"
    by (simp add: to_rematch_offer_dto_def zip_map_hash comp_def case_prod_unfold Let_def split: option.split)
  moreover have "shown_config (rc\<lparr>rc_seats := map (\<lambda>s. s\<lparr>st_hash := h s\<rparr>) (rc_seats rc)\<rparr>) = shown_config rc"
    by (simp add: shown_config_def filter_map comp_def Let_def)
  ultimately show ?thesis by (simp add: to_game_dto_def Let_def comp_def)
qed

text \<open>The thresholds shown in the waiting room are those the game is played with: starting it does not change them.\<close>

theorem start_keeps_the_shown_thresholds:
  assumes "start_internal env r st = (st', Inr r')"
  shows "gd_thresholds (to_game_dto (rec_of st' r)) = gd_thresholds (to_game_dto (rec_of st r))"
proof -
  have s: "rc_status (rec_of st r) = StatusWaiting" "2 \<le> length (filter st_occupied (rc_seats (rec_of st r)))"
      "rc_status (rec_of st' r) = StatusPlaying"
      "gs_config (rc_state (rec_of st' r))
         = config_for (int (length (filter st_occupied (rc_seats (rec_of st r))))) (gs_config (rc_state (rec_of st r)))"
    using assms by (auto simp: start_internal_def start_clock_def new_game_def Let_def split: if_splits)
  then have "shown_config (rec_of st' r) = shown_config (rec_of st r)" by (simp add: shown_config_def Let_def)
  then show ?thesis by (simp add: to_game_dto_def Let_def)
qed

theorem start_keeps_the_shown_thresholds_witness:
  "th_pairs (gd_thresholds (to_game_dto (rec_of (fst (start_internal sample_env 0 gap_store)) 0)))
     = th_pairs (gd_thresholds (to_game_dto gap_record))"
proof -
  have "\<exists>st'. start_internal sample_env 0 gap_store = (st', Inr 0)"
    by (simp add: start_internal_def gap_facts Let_def) (simp add: gap_record_def empty_seat_def)
  then obtain st' where "start_internal sample_env 0 gap_store = (st', Inr 0)" ..
  from start_keeps_the_shown_thresholds [OF this] this show ?thesis by (simp add: gap_facts)
qed

section \<open>Replays\<close>

text \<open>A live game with the captures of every move.\<close>

fun live_captures :: "game_state \<Rightarrow> (move \<times> gtime) list \<Rightarrow> (game_state \<times> capture list list) option" where
  "live_captures g [] = Some (g, [])"
| "live_captures g ((m, t) # ms) =
     (case apply_move g m t of
        Done (g', res) \<Rightarrow> map_option (\<lambda>(g'', caps). (g'', mr_captures res # caps)) (live_captures g' ms)
      | _ \<Rightarrow> None)"

definition shown_steps :: "nat \<Rightarrow> (move \<times> gtime) list \<Rightarrow> capture list list \<Rightarrow> replay_step_dto list" where
  "shown_steps i ms caps = map (\<lambda>(n, (m, _), cs). \<lparr>rs_ordinal = n, rs_player = mv_player m, rs_pos = mv_pos m,
     rs_captures = to_capture_dtos cs\<rparr>) (zip [i..<i + length ms] (zip ms caps))"

lemma shown_steps_Cons:
  "shown_steps i ((m, t) # ms) (cs # caps) = \<lparr>rs_ordinal = i, rs_player = mv_player m, rs_pos = mv_pos m,
     rs_captures = to_capture_dtos cs\<rparr> # shown_steps (i + 1) ms caps"
proof -
  have "[i..<i + length ((m, t) # ms)] = i # [i + 1..<i + 1 + length ms]" by (simp add: upt_conv_Cons del: upt_Suc)
  then show ?thesis by (simp add: shown_steps_def)
qed

lemma zero_clock:
  assumes "is_zero_time (gs_started h)" "apply_move h m zero_time = Done (h', r)"
  shows "is_zero_time (gs_started h')"
proof -
  obtain p where "(h', r) = place h m p zero_time" using assms(2) apply_move_Done by metis
  then show ?thesis using assms(1) by (auto simp: place_def is_zero_time_def Let_def split: if_splits)
qed

lemma replay_follows_live:
  assumes "agree g h" "is_zero_time (gs_started h)" "live_captures g ms = Some (g', caps)"
  shows "replay_steps i h (map fst ms) = Some (shown_steps i ms caps)"
  using assms
proof (induction ms arbitrary: g h i caps)
  case Nil
  then show ?case by (simp add: shown_steps_def)
next
  case (Cons x ms)
  obtain m t where x: "x = (m, t)" by (cases x)
  obtain g1 r caps' where g1: "apply_move g m t = Done (g1, r)" "live_captures g1 ms = Some (g', caps')"
      "caps = mr_captures r # caps'"
    using Cons.prems(3) by (auto simp: x split: outcome.splits)
  have "charge_clock h (current_player h) zero_time \<noteq> None" using Cons.prems(2) by (simp add: charge_clock_def)
  from agree_accepted [OF Cons.prems(1) g1(1) this] obtain h1 r' where h1: "apply_move h m zero_time = Done (h1, r')" by auto
  have a: "agree g1 h1" "r = r'" using agree_move [OF Cons.prems(1) g1(1) h1] by auto
  have "replay_steps (i + 1) h1 (map fst ms) = Some (shown_steps (i + 1) ms caps')"
    by (rule Cons.IH [OF a(1) zero_clock [OF Cons.prems(2) h1] g1(2)])
  then show ?case by (simp add: x h1 a(2) g1(3) shown_steps_Cons)
qed

lemma live_captures_frame:
  assumes "live_captures g ms = Some (g', caps)"
  shows "gs_config g' = gs_config g \<and> gs_history g' = gs_history g @ map fst ms
    \<and> map pl_color (gs_players g') = map pl_color (gs_players g)"
  using assms
proof (induction ms arbitrary: g caps)
  case (Cons x ms)
  obtain m t where x: "x = (m, t)" by (cases x)
  obtain g1 r caps' where g1: "apply_move g m t = Done (g1, r)" "live_captures g1 ms = Some (g', caps')"
    using Cons.prems by (auto simp: x split: outcome.splits)
  obtain p where p: "accepts g m t p" "(g1, r) = place g m p t" using g1(1) apply_move_Done by metis
  have "pl_color p = pl_color (current_player g)" using p(1) charge_clock_unclocked by (auto simp: accepts_def unclocked_def)
  then have "map pl_color (gs_players g1) = map pl_color (gs_players g)"
  proof -
    have "map pl_color (gs_players g1) = (map pl_color (gs_players g))[gs_turn g := pl_color p]"
      using p(2) by (auto simp: place_def Let_def map_update split: if_splits)
    also have "pl_color p = map pl_color (gs_players g) ! gs_turn g"
      using p(1) \<open>pl_color p = _\<close> by (simp add: accepts_def current_player_def)
    finally show ?thesis by simp
  qed
  then show ?case using Cons.IH [OF g1(2)] apply_move_frame [OF g1(1)] by (simp add: x)
qed simp

lemma ending_players:
  "map pl_color (gs_players (forfeit g c)) = map pl_color (gs_players g)"
  "map pl_color (gs_players (resign g c)) = map pl_color (gs_players g)"
  "map pl_color (gs_players (agree_draw g)) = map pl_color (gs_players g)"
  by (auto simp: forfeit_def resign_def agree_draw_def Let_def split: option.split)

text \<open>The replay of a game shows what happened: for every game that was played from its start, at whatever times and with
  clocks or without, also after it ended by a timeout, a resignation or a draw, the endpoint finds every
  recorded move playable and lists the moves in order with exactly the captures they had.\<close>

theorem replay_shows_live_captures:
  assumes "live_captures (start_clock (new_game colors cfg) t0) ms = Some (g, caps)"
    "rc_state rc \<in> {g, forfeit g c, resign g c, agree_draw g}"
  shows "replay_of rc = Some \<lparr>rd_game = rc_id rc, rd_side = cf_side cfg, rd_players = length colors,
      rd_steps = shown_steps 0 ms caps\<rparr>"
proof -
  have f: "gs_config g = cfg" "gs_history g = map fst ms" "map pl_color (gs_players g) = colors"
    using live_captures_frame [OF assms(1)] by (auto simp: start_clock_def new_game_def comp_def)
  then have "gs_config (rc_state rc) = cfg" "gs_history (rc_state rc) = map fst ms" "map pl_color (gs_players (rc_state rc)) = colors"
    using assms(2) by (auto simp: ending_players)
  moreover have "replay_steps 0 (new_game colors cfg) (map fst ms) = Some (shown_steps 0 ms caps)"
  proof (rule replay_follows_live [OF _ _ assms(1)])
    show "agree (start_clock (new_game colors cfg) t0) (new_game colors cfg)" by (simp add: agree_def start_clock_def)
    show "is_zero_time (gs_started (new_game colors cfg))" by (simp add: new_game_def is_zero_time_def)
  qed
  moreover have "length (gs_players (rc_state rc)) = length colors" using calculation(3) by (metis length_map)
  ultimately show ?thesis by (simp add: replay_of_def Let_def)
qed

theorem replay_shows_live_captures_witness:
  "map_option (map rs_pos \<circ> rd_steps) (replay_of (table_record\<lparr>rc_state := resign (fst sample_result) 1\<rparr>)) = Some [Position 0 1]"
proof -
  have "live_captures (start_clock (new_game [1, 2] sample_config) 1000000) [(sample_mv, 5000000)]
      = Some (fst sample_result, [mr_captures (snd sample_result)])"
    using sample_move unfolding sample_game_def by (simp add: case_prod_unfold)
  from replay_shows_live_captures [OF this, of "table_record\<lparr>rc_state := resign (fst sample_result) 1\<rparr>" 1]
  show ?thesis by (simp add: shown_steps_def sample_mv_def)
qed

end
