(* ===== verification/Events.thy ===== *)
theory Events
  imports Wire
begin

text \<open>
  The fan-out of events between the pods, \<open>internal/server/events.go\<close> and the publishing half of
  \<open>lobby.go\<close>. A pod is its store with the hub of its WebSocket subscribers and what it has put on the
  bus. The rendering of a payload and of an event as JSON, which may fail, are the parameters
  \<open>mj_payload\<close> and \<open>mj_event\<close>.
\<close>

section \<open>State\<close>

record envelope =
  nv_game :: string
  nv_seq :: int
  nv_pod :: string

record lobby_envelope =
  le_user :: string
  le_type :: string
  le_payload :: string

datatype bus_message = GameMsg string envelope | LobbyMsg lobby_envelope | WakeMsg

record pod =
  pd_store :: store
  pd_hub :: hub
  pd_lobby :: hub
  pd_id :: string
  pd_sent :: "bus_message list"

record codec =
  mj_payload :: "payload \<Rightarrow> string option"
  mj_event :: "string \<Rightarrow> int \<Rightarrow> string \<Rightarrow> string option"

text \<open>\<open>Deliver\<close> renders the event and hands it to the subscribers; a failure to render is only logged.\<close>

definition deliver_event :: "codec \<Rightarrow> string \<Rightarrow> string \<Rightarrow> int \<Rightarrow> string \<Rightarrow> hub \<Rightarrow> hub" where
  "deliver_event cd key typ seq body h =
     (case mj_event cd typ seq body of None \<Rightarrow> h | Some msg \<Rightarrow> deliver h key msg)"

definition deliver_local :: "codec \<Rightarrow> string \<Rightarrow> string \<Rightarrow> int \<Rightarrow> string \<Rightarrow> pod \<Rightarrow> pod" where
  "deliver_local cd gid typ seq body p = p\<lparr>pd_hub := deliver_event cd gid typ seq body (pd_hub p)\<rparr>"

definition send :: "bus_message \<Rightarrow> pod \<Rightarrow> pod" where
  "send m p = p\<lparr>pd_sent := pd_sent p @ [m]\<rparr>"

definition on_store :: "(store \<Rightarrow> store) \<Rightarrow> pod \<Rightarrow> pod" where
  "on_store f p = p\<lparr>pd_store := f (pd_store p)\<rparr>"

section \<open>Publishing\<close>

text \<open>\<open>bus_ok\<close> says whether the bus takes the message.\<close>

definition publish :: "codec \<Rightarrow> bool \<Rightarrow> env \<Rightarrow> string \<Rightarrow> event \<Rightarrow> pod \<Rightarrow> pod" where
  "publish cd bus_ok env gid ev p =
     (case mj_payload cd (evt_payload ev) of
        None \<Rightarrow> p
      | Some body \<Rightarrow>
          let st = pd_store p; epoch = lease_epoch st gid
          in case append_event (ev_fail env ''AppendEvent'') (so_db st) gid (evt_type ev) body epoch of
               Inl ErrGameNotFound \<Rightarrow> p
             | Inl ErrStaleLease \<Rightarrow> on_store (invalidate env gid) p
             | Inl _ \<Rightarrow> deliver_local cd gid (evt_type ev) 0 body p
             | Inr (d, seq) \<Rightarrow>
                 let p1 = on_store (\<lambda>st. st\<lparr>so_db := d\<rparr>) p
                 in if seq = 0 \<or> so_bus st = None then deliver_local cd gid (evt_type ev) seq body p1
                    else if bus_ok then send (GameMsg gid \<lparr>nv_game = gid, nv_seq = seq, nv_pod = pd_id p\<rparr>) p1
                    else deliver_local cd gid (evt_type ev) seq body p1)"

text \<open>What every pod does with a message of a game's channel; \<open>None\<close> is an envelope that does not parse.\<close>

definition handle_game_event_notif :: "codec \<Rightarrow> env \<Rightarrow> envelope option \<Rightarrow> pod \<Rightarrow> pod" where
  "handle_game_event_notif cd env msg p =
     (case msg of
        None \<Rightarrow> p
      | Some nv \<Rightarrow>
          let p1 = (if nv_pod nv \<noteq> '''' \<and> nv_pod nv \<noteq> pd_id p then on_store (invalidate env (nv_game nv)) p else p)
          in if \<not> has_subs (pd_hub p1) (nv_game nv) then p1
             else case load_event (ev_fail env ''LoadEvent'') (so_db (pd_store p1)) (nv_game nv) (nv_seq nv) of
                    Inl _ \<Rightarrow> p1
                  | Inr None \<Rightarrow> p1
                  | Inr (Some row) \<Rightarrow> deliver_local cd (nv_game nv) (ew_type row) (ew_seq row) (ew_payload row) p1)"

section \<open>The lobby\<close>

definition publish_lobby :: "codec \<Rightarrow> bool \<Rightarrow> string \<Rightarrow> string \<Rightarrow> string option \<Rightarrow> pod \<Rightarrow> pod" where
  "publish_lobby cd bus_ok user typ rendered p =
     (if user = '''' then p
      else case rendered of
        None \<Rightarrow> p
      | Some body \<Rightarrow>
          if so_bus (pd_store p) = None then p\<lparr>pd_lobby := deliver_event cd user typ 0 body (pd_lobby p)\<rparr>
          else if bus_ok then send (LobbyMsg \<lparr>le_user = user, le_type = typ, le_payload = body\<rparr>) p
          else p)"

definition handle_lobby_notif :: "codec \<Rightarrow> lobby_envelope option \<Rightarrow> pod \<Rightarrow> pod" where
  "handle_lobby_notif cd msg p =
     (case msg of
        None \<Rightarrow> p
      | Some le \<Rightarrow>
          if \<not> has_subs (pd_lobby p) (le_user le) then p
          else p\<lparr>pd_lobby := deliver_event cd (le_user le) (le_type le) 0 (le_payload le) (pd_lobby p)\<rparr>)"

section \<open>Listeners\<close>

text \<open>
  The listeners \<open>New\<close> registers with the store, \<open>internal/server/server.go\<close>: each notice becomes an event. A
  snapshot is taken from the cache, loading the game if needed, and nothing is sent when that fails.
\<close>

definition publish_snapshot :: "codec \<Rightarrow> bool \<Rightarrow> env \<Rightarrow> string \<Rightarrow> (game_dto \<Rightarrow> event) \<Rightarrow> pod \<Rightarrow> pod" where
  "publish_snapshot cd bus_ok env gid mk p =
     (case get_game env gid (pd_store p) of
        (st, Inr (Some r)) \<Rightarrow> publish cd bus_ok env gid (mk (to_game_dto (rec_of st r))) (p\<lparr>pd_store := st\<rparr>)
      | (st, _) \<Rightarrow> p\<lparr>pd_store := st\<rparr>)"

definition run_listener :: "codec \<Rightarrow> bool \<Rightarrow> env \<Rightarrow> notice \<Rightarrow> pod \<Rightarrow> pod" where
  "run_listener cd bus_ok env n p =
     (case n of
        OnState gid \<Rightarrow> publish_snapshot cd bus_ok env gid event_state p
      | OnDrawOffer gid _ \<Rightarrow> publish_snapshot cd bus_ok env gid event_state p
      | OnMove gid res \<Rightarrow> publish_snapshot cd bus_ok env gid (\<lambda>g. event_move g (to_capture_dtos (mr_captures res))) p
      | OnPresence gid i online \<Rightarrow> publish cd bus_ok env gid (event_presence i online) p
      | OnRated gid \<Rightarrow>
          (case ratings_for_game (ev_fail env ''RatingsForGame'') (so_db (pd_store p)) gid of
             Inl _ \<Rightarrow> p
           | Inr gr \<Rightarrow> publish cd bus_ok env gid (event_rated gr) p))"

end
