(* ===== verification/Events_Props.thy ===== *)
theory Events_Props
  imports Events Play_Props
begin

text \<open>
  An event on its way: stored once, announced once, and delivered by every pod that has subscribers for the
  game; a pod that lost the game announces nothing.
\<close>

lemma pod_frame [simp]:
  "pd_store (deliver_local cd gid ty sq body p) = pd_store p" "pd_sent (deliver_local cd gid ty sq body p) = pd_sent p"
  "pd_store (send m p) = pd_store p" "pd_hub (send m p) = pd_hub p" "pd_sent (send m p) = pd_sent p @ [m]"
  "pd_hub (on_store f p) = pd_hub p" "pd_store (on_store f p) = f (pd_store p)" "pd_sent (on_store f p) = pd_sent p"
  "pd_id (on_store f p) = pd_id p"
  by (simp_all add: deliver_local_def send_def on_store_def)

lemma invalidate_frame [simp]:
  "so_games (invalidate env gid s) = (so_games s)(gid := None)" "so_db (invalidate env gid s) = so_db s"
  "so_notes (invalidate env gid s) = so_notes s"
  by (simp_all add: invalidate_def drop_frame spawn_def Let_def)

text \<open>The newest event of a game is found under its number.\<close>

lemma load_new_event:
  assumes wf: "db_wf d" and app: "append_event bad d gid ty payload ep = Inr (d', seq)"
  shows "load_event False d' gid seq
    = Inr (Some \<lparr>ew_game = gid, ew_seq = seq, ew_type = ty, ew_payload = payload, ew_epoch = ep\<rparr>)"
proof -
  obtain r where r: "game_of d gid = Some r" "seq = gw_event_seq r + 1"
    "d' = (update_game gid (\<lambda>r. r\<lparr>gw_event_seq := seq\<rparr>) d)\<lparr>db_events := db_events d @
        [\<lparr>ew_game = gid, ew_seq = seq, ew_type = ty, ew_payload = payload, ew_epoch = ep\<rparr>]\<rparr>"
    using append_event_Inr [OF app] by metis
  have row: "r \<in> set (db_games d)" "gw_id r = gid" using game_of_Some [OF r(1)] by simp_all
  have "map ew_seq (game_events d gid) = [1..gw_event_seq r]" using wf row by (auto simp: db_wf_def log_ok_def)
  then have "ew_seq ` set (game_events d gid) = {1..gw_event_seq r}" by (metis list.set_map set_upto)
  then have "find (\<lambda>e. ew_game e = gid \<and> ew_seq e = seq) (db_events d) = None"
    using r(2) by (force simp: find_None_iff game_events_def)
  then show ?thesis by (simp add: load_event_def r(3) find_append)
qed

lemma publish_appended:
  assumes "mj_payload cd (evt_payload ev) = Some body" "so_bus (pd_store p) \<noteq> None" "seq \<noteq> 0"
    and "append_event (ev_fail env ''AppendEvent'') (so_db (pd_store p)) gid (evt_type ev) body (lease_epoch (pd_store p) gid) = Inr (d, seq)"
  shows "publish cd True env gid ev p
    = send (GameMsg gid \<lparr>nv_game = gid, nv_seq = seq, nv_pod = pd_id p\<rparr>) (on_store (\<lambda>st. st\<lparr>so_db := d\<rparr>) p)"
  using assms by (auto simp: publish_def Let_def)

text \<open>A pod whose lease is stale.\<close>

lemma fenced_publish_is_silent:
  assumes "game_of (so_db (pd_store p)) gid \<noteq> None" "\<not> ev_fail env ''AppendEvent''"
    "\<not> fence_passes (db_leases (so_db (pd_store p))) gid (lease_epoch (pd_store p) gid)"
    "mj_payload cd (evt_payload ev) \<noteq> None"
  shows "publish cd bus_ok env gid ev p = on_store (invalidate env gid) p"
  using assms by (auto simp: publish_def append_event_def Let_def)

text \<open>C14: How an event travels: when it can be stored and the bus takes it, the publishing pod announces it under the next
  number of the game and delivers nothing itself; whichever pod then gets the announcement, the publisher
  included, hands exactly the stored event with that number to its own subscribers of the game, and every
  pod but the publisher drops its cached copy of the game, also when nobody watches there. A pod
  whose lease is stale instead stores, announces and delivers nothing and drops its own copy.\<close>

theorem event_reaches_every_pod:
  assumes "db_wf (so_db (pd_store p))" "game_of (so_db (pd_store p)) gid = Some row"
    "mj_payload cd (evt_payload ev) = Some body" "\<not> ev_fail env ''AppendEvent''" "so_bus (pd_store p) \<noteq> None" "pd_id p \<noteq> ''''"
  defines "p' \<equiv> publish cd True env gid ev p"
    and "fence \<equiv> fence_passes (db_leases (so_db (pd_store p))) gid (lease_epoch (pd_store p) gid)"
  shows "(fence \<longrightarrow> pd_hub p' = pd_hub p
      \<and> (\<exists>nv. pd_sent p' = pd_sent p @ [GameMsg gid nv] \<and> nv_seq nv = gw_event_seq row + 1
         \<and> (\<forall>q env'. so_db (pd_store q) = so_db (pd_store p') \<and> \<not> ev_fail env' ''LoadEvent'' \<longrightarrow>
              (let q' = handle_game_event_notif cd env' (Some nv) q
               in pd_hub q' = (if has_subs (pd_hub q) gid
                    then deliver_event cd gid (evt_type ev) (nv_seq nv) body (pd_hub q) else pd_hub q)
                  \<and> (if pd_id q = pd_id p then pd_store q' = pd_store q else so_games (pd_store q') gid = None)))))
    \<and> (\<not> fence \<longrightarrow> pd_hub p' = pd_hub p \<and> pd_sent p' = pd_sent p \<and> so_db (pd_store p') = so_db (pd_store p)
         \<and> so_games (pd_store p') gid = None)"
proof -
  let ?d = "so_db (pd_store p)" and ?seq = "gw_event_seq row + 1"
  have "0 \<le> gw_event_seq row" using assms(1) game_of_Some [OF assms(2)] by (auto simp: db_wf_def log_ok_def)
  then have seq: "?seq \<noteq> 0" by simp
  have ok: "pd_hub p' = pd_hub p \<and> (\<exists>nv. pd_sent p' = pd_sent p @ [GameMsg gid nv] \<and> nv_seq nv = ?seq
         \<and> (\<forall>q env'. so_db (pd_store q) = so_db (pd_store p') \<and> \<not> ev_fail env' ''LoadEvent'' \<longrightarrow>
              (let q' = handle_game_event_notif cd env' (Some nv) q
               in pd_hub q' = (if has_subs (pd_hub q) gid
                    then deliver_event cd gid (evt_type ev) (nv_seq nv) body (pd_hub q) else pd_hub q)
                  \<and> (if pd_id q = pd_id p then pd_store q' = pd_store q else so_games (pd_store q') gid = None))))"
    if f: fence
  proof -
    obtain d where d: "append_event False ?d gid (evt_type ev) body (lease_epoch (pd_store p) gid) = Inr (d, ?seq)"
      using f assms(2) by (auto simp: append_event_def fence_def Let_def)
    let ?nv = "\<lparr>nv_game = gid, nv_seq = ?seq, nv_pod = pd_id p\<rparr>"
    have p': "p' = send (GameMsg gid ?nv) (on_store (\<lambda>st. st\<lparr>so_db := d\<rparr>) p)"
      unfolding p'_def using publish_appended [OF assms(3,5) seq] d assms(4) by simp
    have found: "load_event False d gid ?seq = Inr (Some \<lparr>ew_game = gid, ew_seq = ?seq, ew_type = evt_type ev,
        ew_payload = body, ew_epoch = lease_epoch (pd_store p) gid\<rparr>)"
      by (rule load_new_event [OF assms(1) d])
    have "let q' = handle_game_event_notif cd env' (Some ?nv) q
               in pd_hub q' = (if has_subs (pd_hub q) gid
                    then deliver_event cd gid (evt_type ev) (nv_seq ?nv) body (pd_hub q) else pd_hub q)
                  \<and> (if pd_id q = pd_id p then pd_store q' = pd_store q else so_games (pd_store q') gid = None)"
      if "so_db (pd_store q) = so_db (pd_store p')" "\<not> ev_fail env' ''LoadEvent''" for q env'
    proof -
      have "so_db (pd_store q) = d" using that(1) by (simp add: p')
      then show ?thesis using that(2) found assms(6)
        by (simp add: handle_game_event_notif_def Let_def) (simp add: deliver_local_def)
    qed
    then show ?thesis by (intro conjI exI [of _ ?nv]) (simp_all add: p')
  qed
  have "pd_hub p' = pd_hub p \<and> pd_sent p' = pd_sent p \<and> so_db (pd_store p') = so_db (pd_store p) \<and> so_games (pd_store p') gid = None"
    if "\<not> fence"
    unfolding p'_def using fenced_publish_is_silent [of p gid env cd ev True] that assms(2-4) by (simp add: fence_def)
  with ok show ?thesis by blast
qed

definition sample_codec :: codec where
  "sample_codec = \<lparr>mj_payload = (\<lambda>_. Some ''body''), mj_event = (\<lambda>ty sq body. Some (ty @ body))\<rparr>"

definition sample_pod :: "string \<Rightarrow> db \<Rightarrow> pod" where
  "sample_pod name d = \<lparr>pd_store = new_store blank_record None False (Some new_bus) d,
     pd_hub = fst (subscribe new_hub ''g''), pd_lobby = new_hub, pd_id = name, pd_sent = []\<rparr>"

theorem event_reaches_every_pod_witness:
  "pd_sent (publish sample_codec True sample_env ''g'' (event_presence 0 True) (sample_pod ''a'' (sample_db [])))
     = [GameMsg ''g'' \<lparr>nv_game = ''g'', nv_seq = 1, nv_pod = ''a''\<rparr>]"
proof -
  let ?p = "sample_pod ''a'' (sample_db [])"
  have wf: "db_wf (so_db (pd_store ?p))"
    using tables.inv_reach [OF sample_reach_db [of 0]] by (simp add: sample_pod_def new_store_def)
  have row: "game_of (so_db (pd_store ?p)) ''g'' = Some (sample_row 0)"
    by (simp add: sample_pod_def new_store_def sample_db_def game_of_def sample_row_def)
  have f: "fence_passes (db_leases (so_db (pd_store ?p))) ''g'' (lease_epoch (pd_store ?p) ''g'')"
    by (simp add: sample_pod_def new_store_def lease_epoch_def fence_passes_def)
  from event_reaches_every_pod [OF wf row, of sample_codec "event_presence 0 True" "''body''" sample_env] f
  obtain nv where nv: "pd_sent (publish sample_codec True sample_env ''g'' (event_presence 0 True) ?p) = [GameMsg ''g'' nv]"
    by (auto simp: sample_codec_def sample_env_def sample_pod_def new_store_def)
  have "GameMsg ''g'' nv = GameMsg ''g'' \<lparr>nv_game = ''g'', nv_seq = 1, nv_pod = ''a''\<rparr>"
    using nv row by (simp add: publish_def sample_codec_def sample_env_def append_event_def f [simplified] Let_def
      sample_pod_def new_store_def lease_epoch_def fence_passes_def sample_row_def)
  then show ?thesis using nv by simp
qed

end
