(* ===== verification/Forward.thy ===== *)
theory Forward
  imports Store "HOL-Library.Word"
begin

text \<open>
  Who handles a command and as whom: routing to the owner of a game (\<open>internal/server/forward.go\<close>) and the
  caller's account (\<open>auth.go\<close>). JSON, the SHA-1 function and the host's authentication are parameters; a proxied
  request is an address to try, and an address that cannot be reached falls through to the next one.
\<close>

unbundle bit_operations_syntax

section \<open>Accounts\<close>

record auth_user =
  au_id :: string
  au_email :: string
  au_name :: string

text \<open>The regular expression of a UUID: 8-4-4-4-12 lower-case hexadecimal digits.\<close>

definition hex_char :: "char \<Rightarrow> bool" where
  "hex_char c \<longleftrightarrow> c \<in> set ''0123456789abcdef''"

fun digit_groups :: "nat list \<Rightarrow> string \<Rightarrow> bool" where
  "digit_groups [] s = (s = [])"
| "digit_groups [n] s = (length s = n \<and> list_all hex_char s)"
| "digit_groups (n # ns) s = (n < length s \<and> list_all hex_char (take n s) \<and> s ! n = CHR ''-''
     \<and> digit_groups ns (drop (n + 1) s))"

definition uuid_re :: "string \<Rightarrow> bool" where
  "uuid_re s = digit_groups [8, 4, 4, 4, 12] s"

text \<open>Lower case of the ASCII letters; other characters do not matter, since none becomes a digit of a UUID.\<close>

definition lower_char :: "char \<Rightarrow> char" where
  "lower_char c = (let n = of_char c :: nat in if 65 \<le> n \<and> n \<le> 90 then char_of (n + 32) else c)"

definition hex_digit :: "nat \<Rightarrow> char" where
  "hex_digit n = ''0123456789abcdef'' ! n"

definition hex_bytes :: "8 word list \<Rightarrow> string" where
  "hex_bytes bs = concat (map (\<lambda>b. [hex_digit (unat b div 16), hex_digit (unat b mod 16)]) bs)"

definition accountNamespace :: "8 word list" where
  "accountNamespace = [0x5c, 0x0d, 0x1e, 0x4f, 0x8a, 0x3b, 0x4c, 0x6d, 0x9e, 0x2f, 0x70, 0x81, 0x92, 0xa3, 0xb4, 0xc5]"

definition account_uuid :: "(8 word list \<Rightarrow> 8 word list) \<Rightarrow> string \<Rightarrow> string" where
  "account_uuid sha1 ident =
     (let l = map lower_char ident
      in if uuid_re l then l
         else let b0 = take 16 (sha1 (accountNamespace @ map (\<lambda>c. word_of_nat (of_char c)) ident));
                  b1 = b0[6 := (b0 ! 6 AND 0x0f) OR 0x50];
                  b = b1[8 := (b1 ! 8 AND 0x3f) OR 0x80]
              in hex_bytes (take 4 b) @ ''-'' @ hex_bytes (take 2 (drop 4 b)) @ ''-'' @ hex_bytes (take 2 (drop 6 b))
                 @ ''-'' @ hex_bytes (take 2 (drop 8 b)) @ ''-'' @ hex_bytes (take 6 (drop 10 b)))"

text \<open>The account header between pods: its value, and what the receiving pod makes of it.\<close>

definition identity_value :: "(auth_user \<Rightarrow> string) \<Rightarrow> auth_user \<Rightarrow> string" where
  "identity_value marshal u = marshal u"

definition identity_from :: "(string \<Rightarrow> auth_user option) \<Rightarrow> string \<Rightarrow> auth_user option" where
  "identity_from unmarshal v =
     (if v = '''' then None
      else case unmarshal v of None \<Rightarrow> None | Some u \<Rightarrow> if uuid_re (au_id u) then Some u else None)"

text \<open>\<open>account\<close> is what the host's authentication says of the request.\<close>

definition identify :: "(8 word list \<Rightarrow> 8 word list) \<Rightarrow> (string \<Rightarrow> auth_user option) \<Rightarrow> bool \<Rightarrow> string \<Rightarrow> auth_user option
    \<Rightarrow> auth_user option" where
  "identify sha1 unmarshal internal header account =
     (if internal then identity_from unmarshal header
      else map_option (\<lambda>a. a\<lparr>au_id := account_uuid sha1 (au_id a)\<rparr>) account)"

text \<open>The header of a request as \<open>proxyTo\<close> sends it on: deleted, then set for a known caller.\<close>

definition proxied_header :: "(auth_user \<Rightarrow> string) \<Rightarrow> auth_user option \<Rightarrow> string \<Rightarrow> string" where
  "proxied_header marshal user header = (case user of None \<Rightarrow> '''' | Some u \<Rightarrow> identity_value marshal u)"

definition guest_allowed :: "bool \<Rightarrow> auth_user option \<Rightarrow> bool" where
  "guest_allowed guestPlay user \<longleftrightarrow> user \<noteq> None \<or> guestPlay"

definition player_token :: "string \<Rightarrow> string \<Rightarrow> string" where
  "player_token header query = (if header \<noteq> '''' then header else query)"

section \<open>Routing\<close>

datatype hop = HopLocal | HopTo string

datatype decision = InvalidBody | Attempts "hop list"

record command =
  cm_game :: string
  cm_forwarded :: bool
  cm_body :: bool

definition owned_route :: "string \<Rightarrow> bool \<Rightarrow> env \<Rightarrow> command \<Rightarrow> store \<Rightarrow> store \<times> decision" where
  "owned_route forwardTo resolver env c st =
     (let gid = cm_game c; t = db_leases (so_db st)
      in if gid = '''' \<or> cm_forwarded c then (st, Attempts [HopLocal])
         else if forwardTo \<noteq> ''''
         then let (owner, addr) = (if resolver \<and> ev_lease env \<noteq> DbFailed then resolver_owner t (ev_dbnow env) gid else ('''', ''''))
              in if \<not> cm_body c then (st, InvalidBody)
                 else if addr = '''' \<or> addr = forwardTo then (st, Attempts [HopTo forwardTo, HopLocal])
                 else (st, Attempts [HopTo addr, HopTo forwardTo, HopLocal])
         else case so_leases st of
                None \<Rightarrow> (st, Attempts [HopLocal])
              | Some m \<Rightarrow>
                  if held m gid \<noteq> None then (st, Attempts [HopLocal])
                  else (case acquire (ev_lease env) (ev_dbnow env) t m gid of
                          (t', m', grant) \<Rightarrow>
                            let st1 = st\<lparr>so_leases := Some m', so_db := (so_db st)\<lparr>db_leases := t'\<rparr>\<rparr>
                            in case grant of
                                 None \<Rightarrow> (st1, Attempts [HopLocal])
                               | Some g \<Rightarrow>
                                   if gr_acquired g then (spawn (Adopt gid) st1, Attempts [HopLocal])
                                   else if gr_addr g = '''' \<or> gr_addr g = mg_addr m then (st1, Attempts [HopLocal])
                                   else if \<not> cm_body c then (st1, InvalidBody)
                                   else (st1, Attempts [HopTo (gr_addr g), HopLocal])))"

definition forward_all :: "string \<Rightarrow> command \<Rightarrow> decision" where
  "forward_all forwardTo c =
     (if forwardTo = '''' \<or> cm_forwarded c then Attempts [HopLocal]
      else if \<not> cm_body c then InvalidBody
      else Attempts [HopTo forwardTo, HopLocal])"

text \<open>Where a list of attempts ends up: the first address that can be reached, or here.\<close>

fun served_by :: "(string \<Rightarrow> bool) \<Rightarrow> hop list \<Rightarrow> hop" where
  "served_by reachable [] = HopLocal"
| "served_by reachable (HopLocal # hs) = HopLocal"
| "served_by reachable (HopTo a # hs) = (if reachable a then HopTo a else served_by reachable hs)"

end
