(* ===== verification/Forward_Props.thy ===== *)
theory Forward_Props
  imports Forward Store_Props Utf8
begin

text \<open>
  A command reaches the pod that owns its game in at most one hop between game pods, and its caller is
  the account the first pod authenticated.
\<close>

section \<open>Accounts\<close>

lemma length_hex_bytes [simp]: "length (hex_bytes bs) = 2 * length bs"
  by (induction bs) (simp_all add: hex_bytes_def)

lemma hex_digit_char: "n < 16 \<Longrightarrow> hex_char (hex_digit n)"
  unfolding hex_char_def hex_digit_def by (rule nth_mem) simp

lemma hex_bytes_chars: "c \<in> set (hex_bytes bs) \<Longrightarrow> hex_char c"
proof -
  assume "c \<in> set (hex_bytes bs)"
  then obtain b where "b \<in> set bs" "c = hex_digit (unat b div 16) \<or> c = hex_digit (unat b mod 16)"
    by (auto simp: hex_bytes_def)
  moreover have "unat b < 256" using unsigned_less [where ?'a = nat, of b] by simp
  ultimately show ?thesis by (auto intro!: hex_digit_char)
qed

lemma hex_bytes_all [simp]: "list_all hex_char (hex_bytes bs)"
  using hex_bytes_chars by (simp add: list_all_iff)

lemma digit_groups_chars: "digit_groups ns s \<Longrightarrow> list_all (\<lambda>c. hex_char c \<or> c = CHR ''-'') s"
proof (induction ns s rule: digit_groups.induct)
  case (2 n s)
  then show ?case by (auto simp: list_all_iff)
next
  case (3 n m ns s)
  then have s: "n < length s" "list_all hex_char (take n s)" "s ! n = CHR ''-''" "digit_groups (m # ns) (drop (n + 1) s)"
    by simp_all
  have "s = take n s @ s ! n # drop (n + 1) s"
    unfolding Suc_eq_plus1 [symmetric] using s(1) by (rule id_take_nth_drop)
  moreover have "list_all (\<lambda>c. hex_char c \<or> c = CHR ''-'') (take n s @ s ! n # drop (n + 1) s)"
    using s(2,3) 3(1) [OF s(4)] by (auto simp: list_all_iff)
  ultimately show ?case by simp
qed simp

lemma digit_groups_append:
  "length a = n \<Longrightarrow> list_all hex_char a \<Longrightarrow> digit_groups (m # ns) s \<Longrightarrow> digit_groups (n # m # ns) (a @ CHR ''-'' # s)"
  by (simp add: nth_append)

lemma lower_hex: "hex_char c \<Longrightarrow> lower_char c = c"
  by (auto simp: hex_char_def lower_char_def)

lemma lower_uuid: "uuid_re s \<Longrightarrow> map lower_char s = s"
proof (rule map_idI)
  fix c assume c: "uuid_re s" "c \<in> set s"
  have "hex_char c \<or> c = CHR ''-''"
    using digit_groups_chars [OF c(1) [unfolded uuid_re_def]] c(2) unfolding list_all_iff by (rule bspec)
  moreover have "lower_char (CHR ''-'') = CHR ''-''" by (simp add: lower_char_def)
  ultimately show "lower_char c = c" using lower_hex by auto
qed

text \<open>A UUID is plain ASCII.\<close>

lemma hex_ascii: "hex_char c \<Longrightarrow> byte c < 0x80"
  by (auto simp: hex_char_def byte_def)

lemma uuid_ascii: "uuid_re s \<Longrightarrow> to_valid s = s"
proof (rule to_valid_ascii)
  assume "uuid_re s"
  then have "list_all (\<lambda>c. hex_char c \<or> c = CHR ''-'') s" unfolding uuid_re_def by (rule digit_groups_chars)
  moreover have "byte (CHR ''-'') < 0x80" by (simp add: byte_def)
  ultimately show "list_all (\<lambda>c. byte c < 0x80) s" using hex_ascii by (auto simp: list_all_iff)
qed

lemma account_uuid_ok:
  fixes sha1 :: "8 word list \<Rightarrow> 8 word list"
  assumes "\<And>bs. length (sha1 bs) = 20"
  shows "uuid_re (account_uuid sha1 ident)"
proof (cases "uuid_re (map lower_char ident)")
  case False
  then show ?thesis
    using assms unfolding account_uuid_def uuid_re_def Let_def
    by (simp del: digit_groups.simps) (intro digit_groups_append; simp)
qed (simp add: account_uuid_def)

lemma high_nibble: "unat w div 16 = unat (drop_bit 4 w)" for w :: "8 word"
  by (simp add: drop_bit_eq_div unat_div)

lemma high_nibble_version: "unat ((b AND 0x0f) OR 0x50 :: 8 word) div 16 = 5"
  unfolding high_nibble by simp

lemma high_nibble_variant: "unat ((b AND 0x3f) OR 0x80 :: 8 word) div 16 \<in> {8, 9, 10, 11}"
proof -
  have "drop_bit 4 ((b AND 0x3f) OR 0x80) = (drop_bit 4 b AND 3) OR 8" by simp
  moreover obtain n where n: "n < 4" "drop_bit 4 b AND 3 = word_of_nat n"
  proof
    have "(3 :: 8 word) = mask 2" by (simp add: mask_eq_exp_minus_1)
    then have "drop_bit 4 b AND 3 = take_bit 2 (drop_bit 4 b)" by (simp only: take_bit_eq_mask)
    then have "unat (drop_bit 4 b AND 3) = take_bit 2 (unat (drop_bit 4 b))" by (simp only: unsigned_take_bit_eq)
    then show "unat (drop_bit 4 b AND 3) < 4" by (simp add: take_bit_eq_mod)
    show "drop_bit 4 b AND 3 = word_of_nat (unat (drop_bit 4 b AND 3))" by simp
  qed
  then have "n = 0 \<or> n = 1 \<or> n = 2 \<or> n = 3" by auto
  ultimately show ?thesis unfolding high_nibble using n(2) by auto
qed

lemma uuid_length: "uuid_re s \<Longrightarrow> length s = 36"
  by (auto simp: uuid_re_def)

lemma uuid_text:
  assumes "length b = 16"
  shows "(hex_bytes (take 4 b) @ ''-'' @ hex_bytes (take 2 (drop 4 b)) @ ''-'' @ hex_bytes (take 2 (drop 6 b))
      @ ''-'' @ hex_bytes (take 2 (drop 8 b)) @ ''-'' @ hex_bytes (take 6 (drop 10 b))) ! 14 = hex_digit (unat (b ! 6) div 16)"
    "(hex_bytes (take 4 b) @ ''-'' @ hex_bytes (take 2 (drop 4 b)) @ ''-'' @ hex_bytes (take 2 (drop 6 b))
      @ ''-'' @ hex_bytes (take 2 (drop 8 b)) @ ''-'' @ hex_bytes (take 6 (drop 10 b))) ! 19 = hex_digit (unat (b ! 8) div 16)"
proof -
  have "hex_bytes (take 2 (drop k b)) ! 0 = hex_digit (unat (b ! k) div 16)" if "k < 16" for k
    using that assms by (simp add: hex_bytes_def flip: Cons_nth_drop_Suc)
  from this [of 6] this [of 8] assms
  show "(hex_bytes (take 4 b) @ ''-'' @ hex_bytes (take 2 (drop 4 b)) @ ''-'' @ hex_bytes (take 2 (drop 6 b))
      @ ''-'' @ hex_bytes (take 2 (drop 8 b)) @ ''-'' @ hex_bytes (take 6 (drop 10 b))) ! 14 = hex_digit (unat (b ! 6) div 16)"
    "(hex_bytes (take 4 b) @ ''-'' @ hex_bytes (take 2 (drop 4 b)) @ ''-'' @ hex_bytes (take 2 (drop 6 b))
      @ ''-'' @ hex_bytes (take 2 (drop 8 b)) @ ''-'' @ hex_bytes (take 6 (drop 10 b))) ! 19 = hex_digit (unat (b ! 8) div 16)"
    by (simp_all add: nth_append)
qed

text \<open>C27: Every account id is a UUID in canonical lower case: an id that is one already is only put in lower case, and any other id becomes
  a version 5 UUID of the RFC 4122 variant.\<close>

theorem account_ids_are_uuids:
  fixes sha1 :: "8 word list \<Rightarrow> 8 word list"
  assumes "\<And>bs. length (sha1 bs) = 20"
  shows "uuid_re (account_uuid sha1 ident) \<and> length (account_uuid sha1 ident) = 36
    \<and> (uuid_re (map lower_char ident) \<longrightarrow> account_uuid sha1 ident = map lower_char ident)
    \<and> (\<not> uuid_re (map lower_char ident) \<longrightarrow>
         account_uuid sha1 ident ! 14 = CHR ''5'' \<and> account_uuid sha1 ident ! 19 \<in> set ''89ab'')"
proof (cases "uuid_re (map lower_char ident)")
  case True
  then have "length (map lower_char ident) = 36" by (rule uuid_length)
  with True show ?thesis by (simp add: account_uuid_def)
next
  case False
  let ?raw = "take 16 (sha1 (accountNamespace @ map (\<lambda>c. word_of_nat (of_char c)) ident))"
  let ?b = "?raw[6 := (?raw ! 6 AND 0x0f) OR 0x50, 8 := (?raw[6 := (?raw ! 6 AND 0x0f) OR 0x50] ! 8 AND 0x3f) OR 0x80]"
  have l: "length ?raw = 16" using assms by simp
  have "account_uuid sha1 ident ! 14 = hex_digit (unat (?b ! 6) div 16)" "account_uuid sha1 ident ! 19 = hex_digit (unat (?b ! 8) div 16)"
    using False uuid_text [of ?b] l unfolding account_uuid_def Let_def by simp_all
  moreover have "?b ! 6 = (?raw ! 6 AND 0x0f) OR 0x50" "?b ! 8 = (?raw ! 8 AND 0x3f) OR 0x80" using l by simp_all
  ultimately have "account_uuid sha1 ident ! 14 = hex_digit 5" "account_uuid sha1 ident ! 19 \<in> hex_digit ` {8, 9, 10, 11}"
    using high_nibble_version high_nibble_variant by (simp_all only: image_eqI)
  then show ?thesis using False account_uuid_ok [OF assms, where ident = ident] uuid_length by (auto simp: hex_digit_def)
qed

theorem account_ids_are_uuids_witness: "uuid_re (account_uuid (\<lambda>_. replicate 20 7) ''ada'')"
  using account_ids_are_uuids [of "\<lambda>_. replicate 20 7" "''ada''"] by simp

text \<open>
  What the fields of an account are after \<open>json.Marshal\<close> and \<open>json.Unmarshal\<close>: \<open>encoding/json\<close> writes strings as well-formed UTF-8, with the
  replacement character for every byte that is not.
\<close>

definition json_user :: "auth_user \<Rightarrow> auth_user" where
  "json_user u = \<lparr>au_id = to_valid (au_id u), au_email = to_valid (au_email u), au_name = to_valid (au_name u)\<rparr>"

definition plain_text :: "auth_user \<Rightarrow> bool" where
  "plain_text u \<longleftrightarrow> utf8_valid (au_email u) \<and> utf8_valid (au_name u)"

lemma json_user_id: "uuid_re (au_id u) \<Longrightarrow> au_id (json_user u) = au_id u"
  by (simp add: json_user_def uuid_ascii)

lemma json_user_plain: "uuid_re (au_id u) \<Longrightarrow> plain_text u \<Longrightarrow> json_user u = u"
  by (simp add: json_user_def plain_text_def uuid_ascii to_valid_id)

lemma identified_uuid:
  fixes sha1 :: "8 word list \<Rightarrow> 8 word list"
  assumes "\<And>bs. length (sha1 bs) = 20" "identify sha1 unmarshal internal header account = Some u"
  shows "uuid_re (au_id u)"
  using assms(2) account_uuid_ok [of sha1, OF assms(1)]
  by (auto simp: identify_def identity_from_def split: if_splits option.splits)

lemma identity_received:
  fixes sha1 :: "8 word list \<Rightarrow> 8 word list"
  assumes "\<And>bs. length (sha1 bs) = 20" "\<And>u. unmarshal' (marshal u) = Some (json_user u)" "\<And>u. marshal u \<noteq> ''''"
    "user = identify sha1 unmarshal internal header account"
  shows "identify sha1' unmarshal' True (proxied_header marshal user header') account' = map_option json_user user"
proof (cases user)
  case (Some u)
  have "uuid_re (au_id u)" by (rule identified_uuid [of sha1, OF assms(1)]) (use Some assms(4) in simp)
  then show ?thesis
    using Some assms(2,3) json_user_id by (simp add: identify_def [of sha1'] proxied_header_def identity_from_def identity_value_def)
qed (simp add: identify_def [of sha1'] proxied_header_def identity_from_def)

text \<open>C21: The account a command runs under is the one the first pod authenticated: whatever identity header a client sends along, the pod that
  receives the forwarded command sees the account that was resolved at the edge, or nobody if there was none, with the
  same id. Its address and name are the same too when they are well-formed UTF-8; in others, which a proxy in front can supply,
  every stray byte has become a replacement character. Account ids are always UUIDs, so the receiving pod never rejects one,
  and making one out of an id again does not change it. The two pods use the JSON of Go's library.\<close>

theorem identity_survives_forwarding:
  fixes sha1 :: "8 word list \<Rightarrow> 8 word list"
  assumes "\<And>bs. length (sha1 bs) = 20" "\<And>u. unmarshal (marshal u) = Some (json_user u)" "\<And>u. marshal u \<noteq> ''''"
  shows "(let user = identify sha1 unmarshal False header account;
            received = identify sha1 unmarshal True (proxied_header marshal user header) account'
          in map_option au_id received = map_option au_id user
           \<and> map_option au_name received = map_option (to_valid \<circ> au_name) user
           \<and> map_option au_email received = map_option (to_valid \<circ> au_email) user
           \<and> ((\<forall>u. user = Some u \<longrightarrow> plain_text u) \<longrightarrow> received = user))
    \<and> account_uuid sha1 (account_uuid sha1 ident) = account_uuid sha1 ident"
proof -
  have "account_uuid sha1 (account_uuid sha1 ident) = account_uuid sha1 ident"
    using lower_uuid [OF account_uuid_ok [of sha1 ident, OF assms(1)]] account_uuid_ok [of sha1 ident, OF assms(1)]
    by (simp add: account_uuid_def [of sha1 "account_uuid sha1 ident"])
  moreover
  define user where "user = identify sha1 unmarshal False header account"
  have uuid: "uuid_re (au_id u)" if "user = Some u" for u
    by (rule identified_uuid [of sha1, OF assms(1)]) (use that in \<open>simp add: user_def\<close>)
  have "identify sha1 unmarshal True (proxied_header marshal user header) account' = map_option json_user user"
    by (rule identity_received [of sha1, OF assms]) (rule user_def)
  ultimately show ?thesis
    using uuid json_user_id json_user_plain unfolding Let_def user_def [symmetric]
    by (cases user) (simp_all add: json_user_def)
qed

text \<open>A rendering of accounts in which nothing but stray bytes is lost.\<close>

definition sample_marshal :: "auth_user \<Rightarrow> string" where
  "sample_marshal u = concat (map (\<lambda>c. [CHR ''x'', c]) (to_valid (au_id u))) @ ''.''
     @ concat (map (\<lambda>c. [CHR ''x'', c]) (to_valid (au_email u))) @ ''.'' @ concat (map (\<lambda>c. [CHR ''x'', c]) (to_valid (au_name u))) @ ''.''"

fun sample_field :: "string \<Rightarrow> (string \<times> string) option" where
  "sample_field (a # rest) =
     (if a = CHR ''.'' then Some ('''', rest)
      else case rest of [] \<Rightarrow> None | c # rest' \<Rightarrow> map_option (\<lambda>(f, r). (c # f, r)) (sample_field rest'))"
| "sample_field [] = None"

definition sample_unmarshal :: "string \<Rightarrow> auth_user option" where
  "sample_unmarshal s = (case sample_field s of None \<Rightarrow> None | Some (i, r) \<Rightarrow>
     (case sample_field r of None \<Rightarrow> None | Some (e, r') \<Rightarrow>
       (case sample_field r' of None \<Rightarrow> None | Some (n, _) \<Rightarrow> Some \<lparr>au_id = i, au_email = e, au_name = n\<rparr>)))"

lemma sample_field_ok: "sample_field (concat (map (\<lambda>c. [CHR ''x'', c]) s) @ CHR ''.'' # r) = Some (s, r)"
  by (induction s) simp_all

lemma sample_codec_ok: "sample_unmarshal (sample_marshal u) = Some (json_user u)" "sample_marshal u \<noteq> ''''"
  by (simp_all add: sample_unmarshal_def sample_marshal_def sample_field_ok json_user_def)

theorem identity_survives_forwarding_witness:
  "map_option au_name (identify (\<lambda>_. replicate 20 7) sample_unmarshal True (proxied_header sample_marshal
     (identify (\<lambda>_. replicate 20 7) sample_unmarshal False ''forged'' (Some \<lparr>au_id = ''jo'', au_email = '''', au_name = ''Jo'' @ [CHR 0xEB]\<rparr>))
     ''forged'') None)
   = Some (''Jo'' @ RuneError)"
proof -
  have "to_valid (''Jo'' @ [CHR 0xEB]) = ''Jo'' @ RuneError" by code_simp
  then show ?thesis
    using identity_survives_forwarding [of "\<lambda>_. replicate 20 7" sample_unmarshal sample_marshal "''forged''"
        "Some \<lparr>au_id = ''jo'', au_email = '''', au_name = ''Jo'' @ [CHR 0xEB]\<rparr>" None, OF _ sample_codec_ok]
    by (simp add: Let_def identify_def [of _ _ False])
qed

section \<open>Routing\<close>

text \<open>A live lease of another pod, and a game anybody may claim.\<close>

definition live_elsewhere :: "env \<Rightarrow> store \<Rightarrow> manager \<Rightarrow> string \<Rightarrow> lease_row \<Rightarrow> bool" where
  "live_elsewhere env st m gid l \<longleftrightarrow> db_leases (so_db st) gid = Some l \<and> lr_owner l \<noteq> mg_owner m
     \<and> ev_dbnow env \<le> lr_expires l"

lemma acquire_live:
  assumes "live_elsewhere env st m gid l"
  shows "acquire DbFine (ev_dbnow env) (db_leases (so_db st)) m gid = (db_leases (so_db st), m,
      Some \<lparr>gr_epoch = lr_epoch l, gr_acquired = False, gr_owner = lr_owner l, gr_addr = lr_addr l\<rparr>)"
  using assms by (auto simp: live_elsewhere_def acquire_def acquire_sql_def claim_row_def)

lemma acquire_free:
  assumes "\<nexists>l. live_elsewhere env st m gid l"
  shows "\<exists>l. acquire DbFine (ev_dbnow env) (db_leases (so_db st)) m gid
      = ((db_leases (so_db st))(gid \<mapsto> l), m\<lparr>mg_held := (mg_held m)(gid \<mapsto> lr_epoch l)\<rparr>, Some (granted (lr_epoch l)))
    \<and> lr_owner l = mg_owner m \<and> lr_addr l = mg_addr m"
  using assms by (cases "db_leases (so_db st) gid")
    (auto simp: live_elsewhere_def acquire_def acquire_sql_def claim_row_def not_le)

text \<open>Where a command for a game runs. A game pod that does not hold the game asks the lease table: if another pod's
  lease is live, the command goes to that pod when its address can be reached and is handled
  here otherwise, and the table is left alone; if not, the pod becomes the owner, remembers the epoch it was granted, takes up the
  game's duties and handles the command itself. A forwarded command is always handled where it arrives, so no
  command is passed on twice between game pods. A gateway changes nothing and tries
  the live owner, then the pool, then itself.\<close>

theorem commands_go_to_the_owner:
  assumes "cm_game c \<noteq> ''''" "cm_body c" "ev_lease env = DbFine" "pool \<noteq> ''''"
    "so_leases st = Some m" "held m (cm_game c) = None"
  shows "(\<not> cm_forwarded c \<and> (\<exists>l. live_elsewhere env st m (cm_game c) l \<and> lr_addr l = addr) \<and> addr \<notin> {'''', mg_addr m} \<longrightarrow>
       (\<exists>hs. owned_route '''' resolver env c st = (st, Attempts hs)
         \<and> served_by reachable hs = (if reachable addr then HopTo addr else HopLocal)))
    \<and> (\<not> cm_forwarded c \<and> (\<nexists>l. live_elsewhere env st m (cm_game c) l) \<longrightarrow>
       (\<exists>st' l m'. owned_route '''' resolver env c st = (st', Attempts [HopLocal])
         \<and> db_leases (so_db st') (cm_game c) = Some l \<and> lr_owner l = mg_owner m
         \<and> so_leases st' = Some m' \<and> held m' (cm_game c) = Some (lr_epoch l) \<and> Adopt (cm_game c) \<in> set (so_tasks st')))
    \<and> (cm_forwarded c \<longrightarrow> owned_route forwardTo resolver env c st = (st, Attempts [HopLocal]))
    \<and> (\<not> cm_forwarded c \<longrightarrow>
       (\<exists>hs. owned_route pool True env c st = (st, Attempts hs)
         \<and> served_by reachable hs = (let a = snd (resolver_owner (db_leases (so_db st)) (ev_dbnow env) (cm_game c))
             in if a \<noteq> '''' \<and> reachable a then HopTo a else if reachable pool then HopTo pool else HopLocal)))"
proof -
  have same: "st\<lparr>so_leases := Some m, so_db := (so_db st)\<lparr>db_leases := db_leases (so_db st)\<rparr>\<rparr> = st"
    using assms(5) by (cases st) simp
  have live: "\<exists>hs. owned_route '''' resolver env c st = (st, Attempts hs)
      \<and> served_by reachable hs = (if reachable addr then HopTo addr else HopLocal)"
    if "\<not> cm_forwarded c" "live_elsewhere env st m (cm_game c) l" "lr_addr l = addr" "addr \<notin> {'''', mg_addr m}" for l
    using that assms acquire_live [OF that(2)] by (simp add: owned_route_def same Let_def)
  have free: "\<exists>st' l m'. owned_route '''' resolver env c st = (st', Attempts [HopLocal])
         \<and> db_leases (so_db st') (cm_game c) = Some l \<and> lr_owner l = mg_owner m
         \<and> so_leases st' = Some m' \<and> held m' (cm_game c) = Some (lr_epoch l) \<and> Adopt (cm_game c) \<in> set (so_tasks st')"
    if "\<not> cm_forwarded c" "\<nexists>l. live_elsewhere env st m (cm_game c) l"
    using acquire_free [OF that(2)] that(1) assms by (auto simp: owned_route_def Let_def spawn_def held_def)
  have gate: "\<exists>hs. owned_route pool True env c st = (st, Attempts hs)
         \<and> served_by reachable hs = (let a = snd (resolver_owner (db_leases (so_db st)) (ev_dbnow env) (cm_game c))
             in if a \<noteq> '''' \<and> reachable a then HopTo a else if reachable pool then HopTo pool else HopLocal)"
    if "\<not> cm_forwarded c"
    using that assms by (auto simp: owned_route_def Let_def split: prod.split)
  have "cm_forwarded c \<longrightarrow> owned_route forwardTo resolver env c st = (st, Attempts [HopLocal])"
    by (simp add: owned_route_def Let_def)
  with live free gate show ?thesis by blast
qed

definition idle_store :: "lease_table \<Rightarrow> store" where
  "idle_store t = new_store blank_record (Some (new_manager ''pod-a'')) False None (empty_db\<lparr>db_leases := t\<rparr>)"

theorem commands_go_to_the_owner_witness:
  "\<exists>hs. owned_route '''' False sample_env \<lparr>cm_game = ''g'', cm_forwarded = False, cm_body = True\<rparr>
        (idle_store [''g'' \<mapsto> \<lparr>lr_owner = ''pod-b'', lr_addr = ''10.0.0.2'', lr_epoch = 2, lr_expires = 99\<rparr>])
      = (idle_store [''g'' \<mapsto> \<lparr>lr_owner = ''pod-b'', lr_addr = ''10.0.0.2'', lr_epoch = 2, lr_expires = 99\<rparr>], Attempts hs)
    \<and> served_by (\<lambda>_. True) hs = HopTo ''10.0.0.2''"
proof -
  let ?l = "\<lparr>lr_owner = ''pod-b'', lr_addr = ''10.0.0.2'', lr_epoch = 2, lr_expires = 99\<rparr>"
  let ?st = "idle_store [''g'' \<mapsto> ?l]" and ?m = "new_manager ''pod-a''"
  have "live_elsewhere sample_env ?st ?m ''g'' ?l"
    by (simp add: live_elsewhere_def idle_store_def new_store_def new_manager_def sample_env_def)
  moreover have "so_leases ?st = Some ?m" by (simp add: idle_store_def new_store_def)
  ultimately show ?thesis
    using commands_go_to_the_owner [of "\<lparr>cm_game = ''g'', cm_forwarded = False, cm_body = True\<rparr>" sample_env "''pool''" ?st ?m
        "''10.0.0.2''" False "\<lambda>_. True"]
    by (auto simp: held_def new_manager_def sample_env_def)
qed

end
