(* ===== verification/Rate_Limit.thy ===== *)
theory Rate_Limit
  imports Utf8
begin

text \<open>
  Rate limiting, \<open>internal/server/ratelimit.go\<close>: one token bucket per caller and limit. The bucket is
  \<open>golang.org/x/time/rate\<close>'s and a parameter: \<open>take now l\<close> is the bucket after a request and whether it
  was allowed, \<open>fresh key\<close> the bucket a key starts with. A key begins with the name of the limit,
  so its rate and burst are the same at every call.
\<close>

section \<open>Definitions\<close>

record 'l rl_entry =
  re_lim :: 'l
  re_seen :: gtime

record 'l rate_limiter =
  rl_buckets :: "string \<Rightarrow> 'l rl_entry option"
  rl_swept :: gtime

definition new_rate_limiter :: "gtime \<Rightarrow> 'l rate_limiter" where
  "new_rate_limiter now = \<lparr>rl_buckets = Map.empty, rl_swept = now\<rparr>"

definition minute :: duration where "minute = 60 * 1000000000"

text \<open>Once a minute the buckets nobody used for ten minutes are dropped.\<close>

definition sweep :: "gtime \<Rightarrow> 'l rate_limiter \<Rightarrow> 'l rate_limiter" where
  "sweep now rl =
     (if time_sub now (rl_swept rl) > minute
      then rl\<lparr>rl_buckets := (\<lambda>k. case rl_buckets rl k of
                None \<Rightarrow> None | Some e \<Rightarrow> if time_sub now (re_seen e) > 10 * minute then None else Some e),
              rl_swept := now\<rparr>
      else rl)"

definition allow :: "(gtime \<Rightarrow> 'l \<Rightarrow> 'l \<times> bool) \<Rightarrow> (string \<Rightarrow> 'l) \<Rightarrow> gtime \<Rightarrow> string \<Rightarrow> 'l rate_limiter
    \<Rightarrow> 'l rate_limiter \<times> bool" where
  "allow take_token fresh now key rl =
     (let rl1 = sweep now rl;
          l = (case rl_buckets rl1 key of Some e \<Rightarrow> re_lim e | None \<Rightarrow> fresh key);
          (l', ok) = take_token now l
      in (rl1\<lparr>rl_buckets := (rl_buckets rl1)(key \<mapsto> \<lparr>re_lim = l', re_seen = now\<rparr>)\<rparr>, ok))"

text \<open>The caller: the account, or the client's address as the proxies in front report it.\<close>

definition client_ip :: "(string \<Rightarrow> string option) \<Rightarrow> string \<Rightarrow> string \<Rightarrow> string" where
  "client_ip splitHostPort xff remote =
     (if xff \<noteq> '''' then trim_space (takeWhile (\<lambda>c. c \<noteq> CHR '','') xff)
      else case splitHostPort remote of Some host \<Rightarrow> host | None \<Rightarrow> remote)"

definition rate_key :: "(string \<Rightarrow> string option) \<Rightarrow> string option \<Rightarrow> string \<Rightarrow> string \<Rightarrow> string" where
  "rate_key splitHostPort user xff remote =
     (case user of Some u \<Rightarrow> ''u:'' @ u | None \<Rightarrow> ''ip:'' @ client_ip splitHostPort xff remote)"

definition limit_key :: "string \<Rightarrow> string \<Rightarrow> string" where
  "limit_key name key = name @ ''|'' @ key"

section \<open>Runs\<close>

text \<open>A sequence of requests with the decision on each, and a bucket used alone.\<close>

fun run_requests :: "(gtime \<Rightarrow> 'l \<Rightarrow> 'l \<times> bool) \<Rightarrow> (string \<Rightarrow> 'l) \<Rightarrow> 'l rate_limiter \<Rightarrow> (gtime \<times> string) list \<Rightarrow> bool list" where
  "run_requests take_token fresh rl [] = []"
| "run_requests take_token fresh rl ((now, key) # rs) =
     (case allow take_token fresh now key rl of (rl', ok) \<Rightarrow> ok # run_requests take_token fresh rl' rs)"

fun run_bucket :: "(gtime \<Rightarrow> 'l \<Rightarrow> 'l \<times> bool) \<Rightarrow> 'l \<Rightarrow> gtime list \<Rightarrow> bool list" where
  "run_bucket take_token l [] = []"
| "run_bucket take_token l (t # ts) = (case take_token t l of (l', ok) \<Rightarrow> ok # run_bucket take_token l' ts)"

definition times_of :: "string \<Rightarrow> (gtime \<times> string) list \<Rightarrow> gtime list" where
  "times_of key rs = map fst (filter (\<lambda>r. snd r = key) rs)"

definition decisions_of :: "string \<Rightarrow> (gtime \<times> string) list \<Rightarrow> bool list \<Rightarrow> bool list" where
  "decisions_of key rs oks = map snd (filter (\<lambda>(r, _). snd r = key) (zip rs oks))"

text \<open>Requests in the order of the clock, and no pause of more than ten minutes between two of a caller.\<close>

fun no_pause :: "gtime list \<Rightarrow> bool" where
  "no_pause (a # b # ts) = (time_sub b a \<le> 10 * minute \<and> no_pause (b # ts))"
| "no_pause _ = True"

section \<open>Properties\<close>

lemma length_run_requests [simp]: "length (run_requests take_token fresh rl rs) = length rs"
  by (induction rs arbitrary: rl) (auto split: prod.split)

lemma sweep_keeps:
  assumes "rl_buckets rl k = Some e" "time_sub now (re_seen e) \<le> 10 * minute"
  shows "rl_buckets (sweep now rl) k = Some e"
  using assms by (simp add: sweep_def)

lemma sweep_none: "rl_buckets rl k = None \<Longrightarrow> rl_buckets (sweep now rl) k = None"
  by (simp add: sweep_def)

lemma time_sub_mono: "t \<le> t' \<Longrightarrow> time_sub t s \<le> time_sub t' s"
  by (auto simp: time_sub_def)

lemma decisions_Cons:
  "decisions_of key ((now, k) # rs) (ok # oks) = (if k = key then ok # decisions_of key rs oks else decisions_of key rs oks)"
  by (simp add: decisions_of_def)

lemma times_Cons: "times_of key ((now, k) # rs) = (if k = key then now # times_of key rs else times_of key rs)"
  by (simp add: times_of_def)

lemma times_sorted: "sorted (map fst rs) \<Longrightarrow> t \<in> set (times_of key rs) \<Longrightarrow> rs = (t0, k) # rs' \<Longrightarrow> t0 \<le> t"
  by (auto simp: times_of_def split: if_splits)

text \<open>A caller's bucket as long as it is in use: other callers and sweeps leave it alone.\<close>

lemma run_in_use:
  assumes "rl_buckets rl key = Some \<lparr>re_lim = l, re_seen = s\<rparr>" "sorted (map fst rs)" "no_pause (s # times_of key rs)"
  shows "decisions_of key rs (run_requests take_token fresh rl rs) = run_bucket take_token l (times_of key rs)"
  using assms
proof (induction rs arbitrary: rl l s)
  case Nil
  then show ?case by (simp add: decisions_of_def times_of_def)
next
  case (Cons x rs)
  obtain now k where x: "x = (now, k)" by (cases x)
  obtain rl' ok where a: "allow take_token fresh now k rl = (rl', ok)" by (cases "allow take_token fresh now k rl")
  have srt: "sorted (map fst rs)" using Cons.prems(2) by simp
  show ?case
  proof (cases "times_of key (x # rs)")
    case Nil
    then have "k \<noteq> key" "times_of key rs = []" by (auto simp: x times_Cons split: if_splits)
    then have "filter (\<lambda>(r, _). snd r = key) (zip rs oks) = []" for oks :: "bool list"
      by (auto simp: times_of_def filter_empty_conv dest!: set_zip_leftD)
    then show ?thesis using \<open>k \<noteq> key\<close> Nil by (simp add: x a decisions_of_def)
  next
    case (Cons t ts)
    have "now \<le> t" using times_sorted [OF Cons.prems(2), of t key now k rs] Cons x by simp
    then have "time_sub now s \<le> 10 * minute"
      using Cons.prems(3) Cons time_sub_mono [of now t s] by simp
    then have kept: "rl_buckets (sweep now rl) key = Some \<lparr>re_lim = l, re_seen = s\<rparr>"
      using sweep_keeps [OF Cons.prems(1)] by simp
    show ?thesis
    proof (cases "k = key")
      case True
      obtain l' where l': "take_token now l = (l', ok)" "rl_buckets rl' key = Some \<lparr>re_lim = l', re_seen = now\<rparr>"
        using a kept True by (auto simp: allow_def Let_def split: prod.splits)
      have "no_pause (now # times_of key rs)" using Cons.prems(3) True by (simp add: x times_Cons)
      from Cons.IH [OF l'(2) srt this] l'(1) a True show ?thesis by (simp add: x decisions_Cons times_Cons)
    next
      case False
      then have "rl_buckets rl' key = Some \<lparr>re_lim = l, re_seen = s\<rparr>"
        using a kept by (auto simp: allow_def Let_def split: prod.splits)
      from Cons.IH [OF this srt] Cons.prems(3) a False show ?thesis by (simp add: x decisions_Cons times_Cons)
    qed
  qed
qed

lemma run_unused:
  assumes "rl_buckets rl key = None" "sorted (map fst rs)" "no_pause (times_of key rs)"
  shows "decisions_of key rs (run_requests take_token fresh rl rs) = run_bucket take_token (fresh key) (times_of key rs)"
  using assms
proof (induction rs arbitrary: rl)
  case Nil
  then show ?case by (simp add: decisions_of_def times_of_def)
next
  case (Cons x rs)
  obtain now k where x: "x = (now, k)" by (cases x)
  obtain rl' ok where a: "allow take_token fresh now k rl = (rl', ok)" by (cases "allow take_token fresh now k rl")
  have srt: "sorted (map fst rs)" using Cons.prems(2) by simp
  note unused = sweep_none [OF Cons.prems(1), of now]
  show ?case
  proof (cases "k = key")
    case True
    obtain l' where l': "take_token now (fresh key) = (l', ok)" "rl_buckets rl' key = Some \<lparr>re_lim = l', re_seen = now\<rparr>"
      using a unused True by (auto simp: allow_def Let_def split: prod.splits)
    have "no_pause (now # times_of key rs)" using Cons.prems(3) True by (simp add: x times_Cons)
    from run_in_use [OF l'(2) srt this, of take_token fresh] l'(1) a True show ?thesis by (simp add: x decisions_Cons times_Cons)
  next
    case False
    then have "rl_buckets rl' key = None" using a unused by (auto simp: allow_def Let_def split: prod.splits)
    from Cons.IH [OF this srt] Cons.prems(3) a False show ?thesis by (simp add: x decisions_Cons times_Cons)
  qed
qed

text \<open>C23: Each caller is limited on its own: for requests in the order of the clock, the decisions on one key are those of its
  token bucket used alone, whatever other callers do and whenever buckets are swept, as long as the
  caller does not pause for more than ten minutes.\<close>

theorem callers_are_limited_separately:
  assumes "sorted (map fst rs)" "no_pause (times_of key rs)"
  shows "decisions_of key rs (run_requests take_token fresh (new_rate_limiter t0) rs)
    = run_bucket take_token (fresh key) (times_of key rs)"
  using run_unused [OF _ assms, of "new_rate_limiter t0"] by (simp add: new_rate_limiter_def)

text \<open>A bucket of two tokens that is never refilled, used by two callers.\<close>

theorem callers_are_limited_separately_witness:
  "decisions_of ''a'' [(1, ''a''), (2, ''b''), (3, ''a''), (4, ''b''), (5, ''a'')]
     (run_requests (\<lambda>_ n. if n = 0 then (0, False) else (n - 1, True)) (\<lambda>_. 2 :: nat) (new_rate_limiter 0)
        [(1, ''a''), (2, ''b''), (3, ''a''), (4, ''b''), (5, ''a'')]) = [True, True, False]"
  using callers_are_limited_separately [of "[(1, ''a''), (2, ''b''), (3, ''a''), (4, ''b''), (5, ''a'')]" "''a''"
      "\<lambda>_ n. if n = 0 then (0, False) else (n - 1, True)" "\<lambda>_. 2 :: nat" 0]
  by (simp add: times_of_def minute_def time_sub_def)

end
