(* ===== verification/Search.thy ===== *)
theory Search
  imports Repo
begin

text \<open>
  The search of profiles by name, \<open>SearchProfiles\<close> of \<open>internal/server/repo_postgres.go\<close>. The case folding and the collation are the
  database's: \<open>lower\<close> folds a character and \<open>rank\<close> orders names. \<open>LIKE\<close> patterns are PostgreSQL's: \<open>%\<close> stands for any text, \<open>_\<close> for one
  character, and a backslash takes the next character literally.
\<close>

fun like :: "(char \<Rightarrow> char) \<Rightarrow> string \<Rightarrow> string \<Rightarrow> bool" where
  "like lower [] s = (s = [])"
| "like lower (p # ps) s =
     (if p = CHR ''%'' then like lower ps s \<or> (case s of [] \<Rightarrow> False | _ # cs \<Rightarrow> like lower (p # ps) cs)
      else case s of
             [] \<Rightarrow> False
           | c # cs \<Rightarrow>
               if p = CHR ''_'' then like lower ps cs
               else if p = CHR 0x5C then (case ps of [] \<Rightarrow> False | q # qs \<Rightarrow> lower q = lower c \<and> like lower qs cs)
               else lower p = lower c \<and> like lower ps cs)"

definition search_profiles :: "bool \<Rightarrow> (char \<Rightarrow> char) \<Rightarrow> (string \<Rightarrow> nat) \<Rightarrow> db \<Rightarrow> string \<Rightarrow> int \<Rightarrow> (string \<times> string \<times> int) list result" where
  "search_profiles bad lower rank d prefix limit0 =
     (if prefix = '''' then Inr []
      else let limit = (if limit0 \<le> 0 \<or> limit0 > 50 then 20 else limit0)
           in if bad then Inl ErrDatabase
              else Inr (take (nat limit) (map (\<lambda>(u, name). (u, name, rating_or_1200 d u RatingMode1v1))
                (sort_key (\<lambda>(u, name). rank name)
                  (filter (\<lambda>(u, name). like lower (prefix @ ''%'') name) (db_profiles d))))))"

end
