(* ===== verification/Search_Props.thy ===== *)
theory Search_Props
  imports Search Repo_Props "HOL-Library.Sublist"
begin

text \<open>What a search finds: for a plain text the names that start with it, and what the characters of the pattern language do.\<close>

definition plain_text :: "string \<Rightarrow> bool" where
  "plain_text s \<longleftrightarrow> list_all (\<lambda>c. c \<noteq> CHR ''%'' \<and> c \<noteq> CHR ''_'' \<and> c \<noteq> CHR 0x5C) s"

lemma like_any: "like lower ''%'' s"
  by (induction s) simp_all

lemma like_prefix: "plain_text p \<Longrightarrow> like lower (p @ ''%'') s \<longleftrightarrow> prefix (map lower p) (map lower s)"
proof (induction p arbitrary: s)
  case (Cons c p)
  then show ?case by (cases s) (auto simp: plain_text_def)
qed (simp add: like_any del: like.simps)

lemma like_anywhere: "like lower (CHR ''%'' # p) s \<longleftrightarrow> (\<exists>k \<le> length s. like lower p (drop k s))"
proof (induction s)
  case (Cons c s)
  show ?case
  proof
    assume "like lower (CHR ''%'' # p) (c # s)"
    then consider "like lower p (c # s)" | "like lower (CHR ''%'' # p) s" by auto
    then show "\<exists>k \<le> length (c # s). like lower p (drop k (c # s))"
    proof cases
      case 1
      then show ?thesis by (intro exI [of _ 0]) simp
    next
      case 2
      then obtain k where "k \<le> length s" "like lower p (drop k s)" using Cons.IH by blast
      then show ?thesis by (intro exI [of _ "Suc k"]) simp
    qed
  next
    assume "\<exists>k \<le> length (c # s). like lower p (drop k (c # s))"
    then obtain k where k: "k \<le> Suc (length s)" "like lower p (drop k (c # s))" by auto
    then show "like lower (CHR ''%'' # p) (c # s)" using Cons.IH by (cases k) auto
  qed
qed simp

text \<open>The search by name. For a text without the characters of the pattern language it lists exactly the profiles whose name starts with
  it, case aside, in the database's order, at most as many as asked for, and never more than fifty; the empty text lists none. But
  the text goes into the pattern as it is: a percent sign in front finds names that hold the rest anywhere, and the percent
  sign alone lists the whole table up to the limit, which is what the check for the empty text is there to prevent.\<close>

theorem search_lists_the_prefix:
  "\<exists>found. search_profiles False lower rank d q n = Inr found \<and> length found \<le> 50
     \<and> (if q = '''' then found = []
        else \<exists>rows. found = take (if 0 < n \<and> n \<le> 50 then nat n else 20)
               (map (\<lambda>(u, name). (u, name, rating_or_1200 d u RatingMode1v1)) rows)
             \<and> sorted (map (\<lambda>(u, name). rank name) rows)
             \<and> mset rows = filter_mset (\<lambda>(u, name).
                 if plain_text q then prefix (map lower q) (map lower name)
                 else if q = ''%'' then True
                 else like lower (q @ ''%'') name) (mset (db_profiles d)))"
proof (cases "q = ''''")
  case False
  define rows where "rows = sort_key (\<lambda>(u, name). rank name) (filter (\<lambda>(u, name). like lower (q @ ''%'') name) (db_profiles d))"
  have percent: "like lower ''%%'' name" for name
    by (subst like_anywhere) (auto simp: like_any simp del: like.simps)
  have "(\<lambda>(u, name). like lower (q @ ''%'') name) = (\<lambda>(u :: string, name).
      if plain_text q then prefix (map lower q) (map lower name) else if q = ''%'' then True else like lower (q @ ''%'') name)"
    using like_prefix percent by (auto simp: fun_eq_iff simp del: like.simps)
  then have "mset rows = filter_mset (\<lambda>(u, name). if plain_text q then prefix (map lower q) (map lower name)
      else if q = ''%'' then True else like lower (q @ ''%'') name) (mset (db_profiles d))"
    unfolding rows_def by (simp only: mset_sort mset_filter)
  moreover have "sorted (map (\<lambda>(u, name). rank name) rows)" by (simp add: rows_def)
  moreover have "search_profiles False lower rank d q n = Inr (take (if 0 < n \<and> n \<le> 50 then nat n else 20)
      (map (\<lambda>(u, name). (u, name, rating_or_1200 d u RatingMode1v1)) rows))"
    using False by (auto simp: search_profiles_def rows_def Let_def)
  moreover have "length (take (if 0 < n \<and> n \<le> 50 then nat n else 20) xs) \<le> 50" for xs :: "(string \<times> string \<times> int) list"
    by auto
  ultimately show ?thesis unfolding if_not_P [OF False] by blast
qed (simp add: search_profiles_def)

end
