(* ===== verification/Handlers.thy ===== *)
theory Handlers
  imports Events Forward Rate_Limit Rematch
begin

text \<open>
  The HTTP handlers over the store, \<open>internal/server/server.go\<close>, \<open>users.go\<close>, \<open>chat.go\<close>, \<open>lobby.go\<close> and
  \<open>replay.go\<close>. A request arrives decoded: the token and the caller's account are resolved, a body or a path
  segment that does not parse is \<open>None\<close>. A response is a status and what is rendered as JSON; a nil dereference
  ends the request without one (\<open>Crashed\<close>). Metrics and logging are left out.
\<close>

section \<open>Responses\<close>

datatype body =
  GameBody game_dto | JoinBody game_dto seat_dto string | MoveBody game_dto "capture_dto list"
| FailBody app_error | TextBody string | EventsBody "event_row list" | RatingsBody game_ratings
| MessageBody message_row | MessagesBody "message_row list" | ReplayBody replay_dto
| ProfileBody string string string | GamesBody "user_game list" | PublicBody public_profile | StatsBody user_stats
| LeaderboardBody "leaderboard_entry list" | QueuedBody int string | MatchedBody string | NoBody
| SearchBody "(string \<times> string \<times> int) list" | ConfigBody "(string \<times> string) option" | StatusBody string

datatype response = Resp nat body | Crashed

definition status_for_join_error :: "app_error \<Rightarrow> nat" where
  "status_for_join_error e =
     (case e of
        ErrGameNotFound \<Rightarrow> 404 | ErrSeatTaken \<Rightarrow> 409 | ErrNoFreeSeat \<Rightarrow> 409 | ErrSeatReserved \<Rightarrow> 403
      | ErrNotPlaying \<Rightarrow> 409 | ErrAnonymousOnPublic \<Rightarrow> 401 | _ \<Rightarrow> 400)"

definition status_for_move_error :: "app_error \<Rightarrow> nat" where
  "status_for_move_error e =
     (case e of
        ErrGameNotFound \<Rightarrow> 404 | ErrBadToken \<Rightarrow> 401 | ErrNotPlaying \<Rightarrow> 409
      | ErrEngine ErrOutOfBounds \<Rightarrow> 400 | ErrEngine ErrCellOccupied \<Rightarrow> 400 | ErrEngine ErrWrongTurn \<Rightarrow> 400
      | ErrEngine ErrNoGemsLeft \<Rightarrow> 400 | ErrEngine ErrGameOver \<Rightarrow> 409 | _ \<Rightarrow> 500)"

definition status_for_invite_seat_error :: "app_error \<Rightarrow> nat" where
  "status_for_invite_seat_error e =
     (case e of
        ErrGameNotFound \<Rightarrow> 404 | ErrBadSeatIndex \<Rightarrow> 400 | ErrSeatTaken \<Rightarrow> 409 | ErrSeatNotInvited \<Rightarrow> 409
      | ErrNotPlaying \<Rightarrow> 409 | ErrBotsOnPublic \<Rightarrow> 409 | _ \<Rightarrow> 500)"

definition status_for_start_error :: "app_error \<Rightarrow> nat" where
  "status_for_start_error e =
     (case e of
        ErrGameNotFound \<Rightarrow> 404 | ErrBadToken \<Rightarrow> 401 | ErrNotHost \<Rightarrow> 403 | ErrNotPlaying \<Rightarrow> 409
      | ErrPublicCannotStart \<Rightarrow> 409 | ErrTooFewToStart \<Rightarrow> 409 | _ \<Rightarrow> 500)"

definition status_for_leave_error :: "app_error \<Rightarrow> nat" where
  "status_for_leave_error e =
     (case e of ErrGameNotFound \<Rightarrow> 404 | ErrBadToken \<Rightarrow> 401 | ErrNotPlaying \<Rightarrow> 409 | _ \<Rightarrow> 500)"

definition status_for_add_bot_error :: "app_error \<Rightarrow> nat" where
  "status_for_add_bot_error e =
     (case e of
        ErrGameNotFound \<Rightarrow> 404 | ErrBadSeatIndex \<Rightarrow> 400 | ErrSeatTaken \<Rightarrow> 409 | ErrNotPlaying \<Rightarrow> 409
      | ErrBotsOnPublic \<Rightarrow> 409 | _ \<Rightarrow> 500)"

definition status_for_remove_bot_error :: "app_error \<Rightarrow> nat" where
  "status_for_remove_bot_error e =
     (case e of
        ErrGameNotFound \<Rightarrow> 404 | ErrBadSeatIndex \<Rightarrow> 400 | ErrSeatNotBot \<Rightarrow> 409 | ErrNotPlaying \<Rightarrow> 409
      | ErrBotsOnPublic \<Rightarrow> 409 | _ \<Rightarrow> 500)"

definition status_for_decline_invite_error :: "app_error \<Rightarrow> nat" where
  "status_for_decline_invite_error e =
     (case e of
        ErrGameNotFound \<Rightarrow> 404 | ErrBadSeatIndex \<Rightarrow> 400 | ErrNotInvitee \<Rightarrow> 403 | ErrSeatNotInvited \<Rightarrow> 409
      | ErrNotPlaying \<Rightarrow> 409 | ErrBotsOnPublic \<Rightarrow> 409 | _ \<Rightarrow> 500)"

definition status_for_concession_error :: "app_error \<Rightarrow> nat" where
  "status_for_concession_error e =
     (case e of
        ErrGameNotFound \<Rightarrow> 404 | ErrBadToken \<Rightarrow> 401 | ErrNotPlaying \<Rightarrow> 409 | ErrDrawNotOffered \<Rightarrow> 409
      | ErrCannotAcceptOwnDrawOffer \<Rightarrow> 409 | _ \<Rightarrow> 500)"

definition status_for_draw_error :: "app_error \<Rightarrow> nat" where
  "status_for_draw_error e =
     (case e of
        ErrGameNotFound \<Rightarrow> 404 | ErrBadToken \<Rightarrow> 401 | ErrNotPlaying \<Rightarrow> 409 | ErrDrawAlreadyOffered \<Rightarrow> 409
      | ErrDrawNotOffered \<Rightarrow> 409 | ErrDrawUnsupported \<Rightarrow> 409 | _ \<Rightarrow> 500)"

definition status_for_rematch_error :: "app_error \<Rightarrow> nat" where
  "status_for_rematch_error e =
     (case e of
        ErrGameNotFound \<Rightarrow> 404 | ErrBadToken \<Rightarrow> 401 | ErrNotFinished \<Rightarrow> 409 | ErrNoRematchOffer \<Rightarrow> 409 | _ \<Rightarrow> 500)"

definition status_for_resolve_seat_error :: "app_error \<Rightarrow> nat" where
  "status_for_resolve_seat_error e =
     (case e of ErrGameNotFound \<Rightarrow> 404 | ErrSeatNotForUser \<Rightarrow> 403 | _ \<Rightarrow> 500)"

definition status_for_chat_error :: "app_error \<Rightarrow> nat" where
  "status_for_chat_error e =
     (case e of ErrGameNotFound \<Rightarrow> 404 | ErrBadToken \<Rightarrow> 401 | ErrEmptyMessage \<Rightarrow> 400 | _ \<Rightarrow> 500)"

lemmas status_defs_http = status_for_join_error_def status_for_move_error_def status_for_invite_seat_error_def
  status_for_start_error_def status_for_leave_error_def status_for_add_bot_error_def status_for_remove_bot_error_def
  status_for_decline_invite_error_def status_for_concession_error_def status_for_draw_error_def
  status_for_rematch_error_def status_for_resolve_seat_error_def status_for_chat_error_def

section \<open>Shared pieces\<close>

text \<open>What handlers are given beside the pod: rendering, whether the bus works, and the environment.\<close>

record ctx =
  cx_codec :: codec
  cx_bus :: bool
  cx_env :: env

definition dto_of :: "pod \<Rightarrow> nat \<Rightarrow> game_dto" where
  "dto_of p r = to_game_dto (rec_of (pd_store p) r)"

definition broadcast :: "ctx \<Rightarrow> string \<Rightarrow> event \<Rightarrow> pod \<Rightarrow> pod" where
  "broadcast cx gid ev p = publish (cx_codec cx) (cx_bus cx) (cx_env cx) gid ev p"

text \<open>The end of most handlers: on success the snapshot is broadcast and returned.\<close>

definition answer_and :: "ctx \<Rightarrow> (app_error \<Rightarrow> nat) \<Rightarrow> string \<Rightarrow> (pod \<Rightarrow> pod) \<Rightarrow> store \<times> nat result \<Rightarrow> pod
    \<Rightarrow> pod \<times> response" where
  "answer_and cx statusFor gid after x p =
     (case x of
        (st, Inl e) \<Rightarrow> (p\<lparr>pd_store := st\<rparr>, Resp (statusFor e) (FailBody e))
      | (st, Inr r) \<Rightarrow> let p1 = p\<lparr>pd_store := st\<rparr>; dto = dto_of p1 r
                       in (after (broadcast cx gid (event_state dto) p1), Resp 200 (GameBody dto)))"

definition answer_game :: "ctx \<Rightarrow> (app_error \<Rightarrow> nat) \<Rightarrow> string \<Rightarrow> store \<times> nat result \<Rightarrow> pod \<Rightarrow> pod \<times> response" where
  "answer_game cx statusFor gid x p = answer_and cx statusFor gid (\<lambda>p. p) x p"

definition token_command :: "ctx \<Rightarrow> (app_error \<Rightarrow> nat) \<Rightarrow> string \<Rightarrow> string \<Rightarrow> (store \<Rightarrow> store \<times> nat result) \<Rightarrow> pod
    \<Rightarrow> pod \<times> response" where
  "token_command cx statusFor gid token f p =
     (if token = '''' then (p, Resp 401 (TextBody ''missing player token''))
      else answer_game cx statusFor gid (f (pd_store p)) p)"

definition seat_command :: "ctx \<Rightarrow> (app_error \<Rightarrow> nat) \<Rightarrow> string \<Rightarrow> int option \<Rightarrow> (int \<Rightarrow> store \<Rightarrow> store \<times> nat result) \<Rightarrow> pod
    \<Rightarrow> pod \<times> response" where
  "seat_command cx statusFor gid idx f p =
     (case idx of
        None \<Rightarrow> (p, Resp 400 (TextBody ''invalid seat index''))
      | Some i \<Rightarrow> answer_game cx statusFor gid (f i (pd_store p)) p)"

definition display_name_for :: "env \<Rightarrow> db \<Rightarrow> auth_user \<Rightarrow> string" where
  "display_name_for env d u =
     (let prof = (case profile_of (ev_fail env ''Profile'') d (au_id u) of Inr (Some n) \<Rightarrow> n | _ \<Rightarrow> '''');
          local = takeWhile (\<lambda>c. c \<noteq> CHR ''@'') (au_email u)
      in if prof \<noteq> '''' then prof
         else if au_name u \<noteq> '''' then au_name u
         else if local \<noteq> '''' \<and> local \<noteq> au_email u then local
         else if au_email u \<noteq> '''' then au_email u
         else ''Joueur'')"

text \<open>The name a player joins under: the given one, else the account's; and the account's id.\<close>

definition join_name :: "env \<Rightarrow> db \<Rightarrow> auth_user option \<Rightarrow> string \<Rightarrow> string" where
  "join_name env d user given =
     (let name = trim_space given
      in case user of Some u \<Rightarrow> if name = '''' then display_name_for env d u else name | None \<Rightarrow> name)"

definition user_id :: "auth_user option \<Rightarrow> string" where
  "user_id user = (case user of Some u \<Rightarrow> au_id u | None \<Rightarrow> '''')"

section \<open>Creating and joining\<close>

definition http_create_game :: "ctx \<Rightarrow> bool \<Rightarrow> auth_user option \<Rightarrow> (int \<times> string \<times> string) option \<Rightarrow> pod \<Rightarrow> pod \<times> response" where
  "http_create_game cx guestPlay user req p =
     (if \<not> guest_allowed guestPlay user then (p, Resp 401 (TextBody ''an account is required to play here''))
      else case req of
        None \<Rightarrow> (p, Resp 400 (TextBody ''invalid body''))
      | Some (players, visibility, given) \<Rightarrow>
          let vis = (if visibility = '''' then VisibilityPrivate else visibility);
              name = join_name (cx_env cx) (so_db (pd_store p)) user given
          in if players < 2 \<or> players > int MaxPlayers then (p, Resp 400 (TextBody ''players must be in [2, 6]''))
             else if vis \<noteq> VisibilityPrivate then (p, Resp 400 (TextBody ''only private games are creatable directly''))
             else if name = '''' then (p, Resp 400 (TextBody ''name required for anonymous create''))
             else case create (cx_env cx) (nat players) vis (pd_store p) of
                    (st, Inl e) \<Rightarrow> (p\<lparr>pd_store := st\<rparr>, Resp 500 (TextBody ''could not create game''))
                  | (st, Inr r) \<Rightarrow>
                      let gid = rc_id (rec_of st r)
                      in case join (cx_env cx) gid name (user_id user) 0 st of
                           (st2, Inl e) \<Rightarrow> (p\<lparr>pd_store := st2\<rparr>, Resp (status_for_join_error e) (FailBody e))
                         | (st2, Inr (s, token)) \<Rightarrow>
                             let p1 = p\<lparr>pd_store := st2\<rparr>; dto = dto_of p1 r
                             in (broadcast cx gid (event_state dto) p1, Resp 201 (JoinBody dto (to_seat_dto s) token)))"

text \<open>\<open>joinGame\<close> takes its snapshot from a second \<open>Get\<close> whose result it does not check.\<close>

definition http_join_game :: "ctx \<Rightarrow> bool \<Rightarrow> auth_user option \<Rightarrow> string \<Rightarrow> (string \<times> int option) option \<Rightarrow> pod \<Rightarrow> pod \<times> response" where
  "http_join_game cx guestPlay user gid req p =
     (if \<not> guest_allowed guestPlay user then (p, Resp 401 (TextBody ''an account is required to play here''))
      else let (given, seat) = (case req of Some x \<Rightarrow> x | None \<Rightarrow> ('''', None));
               name = join_name (cx_env cx) (so_db (pd_store p)) user given
           in if name = '''' then (p, Resp 400 (TextBody ''name required for anonymous join''))
              else case join (cx_env cx) gid name (user_id user) (case seat of Some i \<Rightarrow> i | None \<Rightarrow> -1) (pd_store p) of
                     (st, Inl e) \<Rightarrow> (p\<lparr>pd_store := st\<rparr>, Resp (status_for_join_error e) (FailBody e))
                   | (st, Inr (s, token)) \<Rightarrow>
                       (case get_game (cx_env cx) gid st of
                          (st2, Inr (Some r)) \<Rightarrow>
                            let p1 = p\<lparr>pd_store := st2\<rparr>; dto = dto_of p1 r
                            in (broadcast cx gid (event_state dto) p1, Resp 201 (JoinBody dto (to_seat_dto s) token))
                        | (st2, _) \<Rightarrow> (p\<lparr>pd_store := st2\<rparr>, Crashed)))"

definition http_resolve_seat :: "ctx \<Rightarrow> auth_user option \<Rightarrow> string \<Rightarrow> pod \<Rightarrow> pod \<times> response" where
  "http_resolve_seat cx user gid p =
     (case user of
        None \<Rightarrow> (p, Resp 401 (TextBody ''authentication required''))
      | Some u \<Rightarrow>
          (case resolve_seat (cx_env cx) gid (au_id u) (pd_store p) of
             (st, Inl e) \<Rightarrow> (p\<lparr>pd_store := st\<rparr>, Resp (status_for_resolve_seat_error e) (FailBody e))
           | (st, Inr (s, token)) \<Rightarrow>
               (case get_game (cx_env cx) gid st of
                  (st2, Inr (Some r)) \<Rightarrow>
                    let p1 = p\<lparr>pd_store := st2\<rparr>; dto = dto_of p1 r
                    in (broadcast cx gid (event_state dto) p1, Resp 200 (JoinBody dto (to_seat_dto s) token))
                | (st2, _) \<Rightarrow> (p\<lparr>pd_store := st2\<rparr>, Resp 500 (TextBody ''could not reload game'')))))"

section \<open>Seats and start\<close>

definition http_add_bot :: "ctx \<Rightarrow> string \<Rightarrow> int option \<Rightarrow> pod \<Rightarrow> pod \<times> response" where
  "http_add_bot cx gid idx p = seat_command cx status_for_add_bot_error gid idx (add_bot (cx_env cx) gid) p"

definition http_remove_bot :: "ctx \<Rightarrow> string \<Rightarrow> int option \<Rightarrow> pod \<Rightarrow> pod \<times> response" where
  "http_remove_bot cx gid idx p = seat_command cx status_for_remove_bot_error gid idx (remove_bot (cx_env cx) gid) p"

text \<open>The lobby payloads are only rendered; \<open>render\<close> stands for that.\<close>

datatype lobby_payload =
  MatchPayload string | InvitePayload string int string string | QueuePayload nat nat "int option"

definition http_invite_seat :: "ctx \<Rightarrow> (lobby_payload \<Rightarrow> string option) \<Rightarrow> auth_user option \<Rightarrow> string \<Rightarrow> int option
    \<Rightarrow> (string \<times> string) option \<Rightarrow> pod \<Rightarrow> pod \<times> response" where
  "http_invite_seat cx render user gid idx req p =
     (case idx of
        None \<Rightarrow> (p, Resp 400 (TextBody ''invalid seat index''))
      | Some i \<Rightarrow>
          (case req of
             None \<Rightarrow> (p, Resp 400 (TextBody ''invalid body''))
           | Some (uid0, name0) \<Rightarrow>
               let uid = trim_space uid0; name = trim_space name0
               in if uid = '''' \<or> name = '''' then (p, Resp 400 (TextBody ''userId and displayName are required''))
                  else answer_and cx status_for_invite_seat_error gid
                         (\<lambda>p1. let from_name = (case user of
                                 Some u \<Rightarrow> display_name_for (cx_env cx) (so_db (pd_store p1)) u | None \<Rightarrow> '''')
                           in publish_lobby (cx_codec cx) (cx_bus cx) uid ''invite_received''
                                (render (InvitePayload gid i from_name (user_id user))) p1)
                         (invite_seat (cx_env cx) gid i uid name (pd_store p)) p))"

definition http_cancel_seat_invite :: "ctx \<Rightarrow> (lobby_payload \<Rightarrow> string option) \<Rightarrow> string \<Rightarrow> int option \<Rightarrow> pod \<Rightarrow> pod \<times> response" where
  "http_cancel_seat_invite cx render gid idx p =
     (case idx of
        None \<Rightarrow> (p, Resp 400 (TextBody ''invalid seat index''))
      | Some i \<Rightarrow>
          let (st, invitee) =
                (case get_game (cx_env cx) gid (pd_store p) of
                   (st, Inr (Some r)) \<Rightarrow>
                     (st, let rc = rec_of st r
                          in if 0 \<le> i \<and> i < int (length (rc_seats rc)) \<and> \<not> st_occupied (seat_at rc i) \<and> \<not> st_bot (seat_at rc i)
                             then st_user (seat_at rc i) else '''')
                 | (st, _) \<Rightarrow> (st, ''''))
          in answer_and cx status_for_invite_seat_error gid
               (\<lambda>p1. if invitee \<noteq> ''''
                     then publish_lobby (cx_codec cx) (cx_bus cx) invitee ''invite_cancelled''
                            (render (InvitePayload gid i '''' '''')) p1
                     else p1)
               (cancel_seat_invite (cx_env cx) gid i st) p)"

definition http_decline_invite :: "ctx \<Rightarrow> auth_user option \<Rightarrow> string \<Rightarrow> int option \<Rightarrow> pod \<Rightarrow> pod \<times> response" where
  "http_decline_invite cx user gid idx p =
     (case idx of
        None \<Rightarrow> (p, Resp 400 (TextBody ''invalid seat index''))
      | Some i \<Rightarrow>
          (case user of
             None \<Rightarrow> (p, Resp 401 (TextBody ''authentication required to decline an invitation''))
           | Some u \<Rightarrow> answer_game cx status_for_decline_invite_error gid
                         (decline_seat_invite (cx_env cx) gid i (au_id u) (pd_store p)) p))"

definition http_start_game :: "ctx \<Rightarrow> string \<Rightarrow> string \<Rightarrow> pod \<Rightarrow> pod \<times> response" where
  "http_start_game cx gid token p = token_command cx status_for_start_error gid token (start (cx_env cx) gid token) p"

definition http_leave_seat :: "ctx \<Rightarrow> string \<Rightarrow> string \<Rightarrow> pod \<Rightarrow> pod \<times> response" where
  "http_leave_seat cx gid token p = token_command cx status_for_leave_error gid token (leave_seat (cx_env cx) gid token) p"

section \<open>Playing\<close>

definition http_post_move :: "ctx \<Rightarrow> string \<Rightarrow> string \<Rightarrow> (int \<times> int) option \<Rightarrow> pod \<Rightarrow> pod \<times> response" where
  "http_post_move cx gid token req p =
     (if token = '''' then (p, Resp 401 (TextBody ''missing player token''))
      else case req of
        None \<Rightarrow> (p, Resp 400 (TextBody ''invalid body''))
      | Some (q, r0) \<Rightarrow>
          (case play_move (cx_env cx) gid token q r0 (pd_store p) of
             (st, Inl EnginePanic) \<Rightarrow> (p\<lparr>pd_store := st\<rparr>, Crashed)
           | (st, Inl e) \<Rightarrow> (p\<lparr>pd_store := st\<rparr>, Resp (status_for_move_error e) (FailBody e))
           | (st, Inr (r, out)) \<Rightarrow>
               let p1 = p\<lparr>pd_store := st\<rparr>; dto = dto_of p1 r; caps = to_capture_dtos (mr_captures out)
               in (broadcast cx gid (event_move dto caps) p1, Resp 200 (MoveBody dto caps))))"

definition http_resign :: "ctx \<Rightarrow> string \<Rightarrow> string \<Rightarrow> pod \<Rightarrow> pod \<times> response" where
  "http_resign cx gid token p = token_command cx status_for_concession_error gid token (resign_game (cx_env cx) gid token) p"

definition http_accept_draw :: "ctx \<Rightarrow> string \<Rightarrow> string \<Rightarrow> pod \<Rightarrow> pod \<times> response" where
  "http_accept_draw cx gid token p = token_command cx status_for_concession_error gid token (accept_draw (cx_env cx) gid token) p"

text \<open>Offering and declining a draw answer without a broadcast; the store's listener does it.\<close>

definition draw_command :: "string \<Rightarrow> (store \<Rightarrow> store \<times> nat result) \<Rightarrow> pod \<Rightarrow> pod \<times> response" where
  "draw_command token f p =
     (if token = '''' then (p, Resp 401 (TextBody ''missing player token''))
      else case f (pd_store p) of
             (st, Inl e) \<Rightarrow> (p\<lparr>pd_store := st\<rparr>, Resp (status_for_draw_error e) (FailBody e))
           | (st, Inr r) \<Rightarrow> let p1 = p\<lparr>pd_store := st\<rparr> in (p1, Resp 200 (GameBody (dto_of p1 r))))"

definition http_offer_draw :: "ctx \<Rightarrow> string \<Rightarrow> string \<Rightarrow> pod \<Rightarrow> pod \<times> response" where
  "http_offer_draw cx gid token p = draw_command token (offer_draw (cx_env cx) gid token) p"

definition http_decline_draw :: "ctx \<Rightarrow> string \<Rightarrow> string \<Rightarrow> pod \<Rightarrow> pod \<times> response" where
  "http_decline_draw cx gid token p = draw_command token (decline_draw (cx_env cx) gid token) p"

definition http_offer_rematch :: "ctx \<Rightarrow> string \<Rightarrow> string \<Rightarrow> pod \<Rightarrow> pod \<times> response" where
  "http_offer_rematch cx gid token p = token_command cx status_for_rematch_error gid token (offer_rematch (cx_env cx) gid token) p"

definition http_decline_rematch :: "ctx \<Rightarrow> string \<Rightarrow> string \<Rightarrow> pod \<Rightarrow> pod \<times> response" where
  "http_decline_rematch cx gid token p = token_command cx status_for_rematch_error gid token (decline_rematch (cx_env cx) gid token) p"

definition http_post_chat :: "ctx \<Rightarrow> string \<Rightarrow> string \<Rightarrow> string option \<Rightarrow> pod \<Rightarrow> pod \<times> response" where
  "http_post_chat cx gid token req p =
     (if token = '''' then (p, Resp 401 (TextBody ''seat token required to post''))
      else case req of
        None \<Rightarrow> (p, Resp 400 (TextBody ''invalid body''))
      | Some text \<Rightarrow>
          (case post_message (cx_env cx) gid token text (pd_store p) of
             (st, Inl e) \<Rightarrow> (p\<lparr>pd_store := st\<rparr>, Resp (status_for_chat_error e) (FailBody e))
           | (st, Inr m) \<Rightarrow> (broadcast cx gid (event_chat m) (p\<lparr>pd_store := st\<rparr>), Resp 201 (MessageBody m))))"

section \<open>Reading\<close>

definition read_game :: "ctx \<Rightarrow> string \<Rightarrow> (game_record \<Rightarrow> response) \<Rightarrow> pod \<Rightarrow> pod \<times> response" where
  "read_game cx gid f p =
     (case get_game (cx_env cx) gid (pd_store p) of
        (st, Inl _) \<Rightarrow> (p\<lparr>pd_store := st\<rparr>, Resp 500 (TextBody ''could not load game''))
      | (st, Inr None) \<Rightarrow> (p\<lparr>pd_store := st\<rparr>, Resp 404 (TextBody ''game not found''))
      | (st, Inr (Some r)) \<Rightarrow> (p\<lparr>pd_store := st\<rparr>, f (rec_of st r)))"

definition http_get_game :: "ctx \<Rightarrow> string \<Rightarrow> pod \<Rightarrow> pod \<times> response" where
  "http_get_game cx gid p = read_game cx gid (\<lambda>rc. Resp 200 (GameBody (to_game_dto rc))) p"

definition http_get_replay :: "ctx \<Rightarrow> string \<Rightarrow> pod \<Rightarrow> pod \<times> response" where
  "http_get_replay cx gid p =
     read_game cx gid (\<lambda>rc. case replay_of rc of Some d \<Rightarrow> Resp 200 (ReplayBody d)
                            | None \<Rightarrow> Resp 500 (TextBody ''replay failed'')) p"

definition catchupLimit :: nat where "catchupLimit = 1000"

text \<open>\<open>since\<close> is the parsed query parameter: absent, not a number, or a number.\<close>

definition http_get_game_events :: "ctx \<Rightarrow> string \<Rightarrow> int option option \<Rightarrow> pod \<Rightarrow> response" where
  "http_get_game_events cx gid since p =
     (case (case since of None \<Rightarrow> Some 0 | Some (Some n) \<Rightarrow> if n < 0 then None else Some n | Some None \<Rightarrow> None) of
        None \<Rightarrow> Resp 400 (TextBody ''since must be a non-negative integer'')
      | Some n \<Rightarrow>
          (case events_since (ev_fail (cx_env cx) ''EventsSince'') (so_db (pd_store p)) gid n catchupLimit of
             Inl _ \<Rightarrow> Resp 500 (TextBody ''could not load events'')
           | Inr rows \<Rightarrow> Resp 200 (EventsBody rows)))"

definition http_get_game_ratings :: "ctx \<Rightarrow> string \<Rightarrow> pod \<Rightarrow> response" where
  "http_get_game_ratings cx gid p =
     (case ratings_for_game (ev_fail (cx_env cx) ''RatingsForGame'') (so_db (pd_store p)) gid of
        Inl ErrGameNotFound \<Rightarrow> Resp 404 (TextBody ''game not found'')
      | Inl _ \<Rightarrow> Resp 500 (TextBody ''could not load ratings'')
      | Inr gr \<Rightarrow> Resp 200 (RatingsBody gr))"

definition http_get_chat :: "ctx \<Rightarrow> string \<Rightarrow> pod \<Rightarrow> response" where
  "http_get_chat cx gid p =
     (case messages_for_game (ev_fail (cx_env cx) ''MessagesForGame'') (so_db (pd_store p)) gid 200 of
        Inl _ \<Rightarrow> Resp 500 (TextBody ''could not load messages'')
      | Inr ms \<Rightarrow> Resp 200 (MessagesBody ms))"

section \<open>Accounts\<close>

definition store_ensure_profile :: "env \<Rightarrow> string \<Rightarrow> string \<Rightarrow> db \<Rightarrow> db result" where
  "store_ensure_profile env user fallback d =
     (if user = '''' \<or> fallback = '''' then Inr d else ensure_profile (ev_fail env ''EnsureProfile'') d user fallback)"

definition http_get_me :: "ctx \<Rightarrow> auth_user option \<Rightarrow> pod \<Rightarrow> pod \<times> response" where
  "http_get_me cx user p =
     (case user of
        None \<Rightarrow> (p, Resp 401 (TextBody ''authentication required''))
      | Some u \<Rightarrow>
          let d = so_db (pd_store p)
          in case profile_of (ev_fail (cx_env cx) ''Profile'') d (au_id u) of
               Inl _ \<Rightarrow> (p, Resp 500 (TextBody ''could not load profile''))
             | Inr (Some name) \<Rightarrow> (p, Resp 200 (ProfileBody (au_id u) (au_email u) name))
             | Inr None \<Rightarrow>
                 let fallback = display_name_for (cx_env cx) d u
                 in case store_ensure_profile (cx_env cx) (au_id u) fallback d of
                      Inl _ \<Rightarrow> (p, Resp 200 (ProfileBody (au_id u) (au_email u) ''''))
                    | Inr d' \<Rightarrow> (on_store (\<lambda>st. st\<lparr>so_db := d'\<rparr>) p, Resp 200 (ProfileBody (au_id u) (au_email u) fallback)))"

definition normalize_display_name :: "string \<Rightarrow> string" where
  "normalize_display_name s =
     (let out = filter (\<lambda>r. r \<notin> {[CHR 0x0A], [CHR 0x0D], [CHR 0x09]}) (runes s)
      in concat (take 40 (between (\<lambda>r. r = '' '') out)))"

definition http_put_profile :: "ctx \<Rightarrow> auth_user option \<Rightarrow> string option \<Rightarrow> pod \<Rightarrow> pod \<times> response" where
  "http_put_profile cx user req p =
     (case user of
        None \<Rightarrow> (p, Resp 401 (TextBody ''authentication required''))
      | Some u \<Rightarrow>
          (case req of
             None \<Rightarrow> (p, Resp 400 (TextBody ''invalid body''))
           | Some given \<Rightarrow>
               let name = normalize_display_name given
               in if name = '''' then (p, Resp 400 (TextBody ''displayName cannot be empty''))
                  else case upsert_profile (ev_fail (cx_env cx) ''UpsertProfile'') (so_db (pd_store p)) (au_id u) name of
                         Inl _ \<Rightarrow> (p, Resp 500 (TextBody ''could not save profile''))
                       | Inr d \<Rightarrow> (on_store (\<lambda>st. st\<lparr>so_db := d\<rparr>) p, Resp 200 (ProfileBody (au_id u) (au_email u) name))))"

definition user_read :: "auth_user option \<Rightarrow> (auth_user \<Rightarrow> body result) \<Rightarrow> string \<Rightarrow> response" where
  "user_read user f failed =
     (case user of
        None \<Rightarrow> Resp 401 (TextBody ''authentication required'')
      | Some u \<Rightarrow> (case f u of Inl _ \<Rightarrow> Resp 500 (TextBody failed) | Inr b \<Rightarrow> Resp 200 b))"

definition http_get_my_games :: "ctx \<Rightarrow> auth_user option \<Rightarrow> pod \<Rightarrow> response" where
  "http_get_my_games cx user p =
     user_read user (\<lambda>u. map_sum id GamesBody (games_for_user (ev_fail (cx_env cx) ''GamesForUser'') (so_db (pd_store p)) (au_id u) 50))
       ''could not load history''"

definition http_get_my_stats :: "ctx \<Rightarrow> auth_user option \<Rightarrow> pod \<Rightarrow> response" where
  "http_get_my_stats cx user p =
     user_read user (\<lambda>u. map_sum id StatsBody (stats_for_user (ev_fail (cx_env cx) ''StatsForUser'') (so_db (pd_store p)) (au_id u)))
       ''could not load stats''"

definition http_get_public_profile :: "ctx \<Rightarrow> string \<Rightarrow> pod \<Rightarrow> response" where
  "http_get_public_profile cx uid p =
     (if uid = '''' then Resp 400 (TextBody ''userId required'')
      else case public_profile_of (ev_fail (cx_env cx) ''PublicProfile'') (so_db (pd_store p)) uid of
             Inl ErrProfileNotFound \<Rightarrow> Resp 404 (TextBody ''profile not found'')
           | Inl _ \<Rightarrow> Resp 500 (TextBody ''could not load profile'')
           | Inr prof \<Rightarrow> Resp 200 (PublicBody prof))"

text \<open>\<open>limit\<close> is the parsed query parameter, \<open>None\<close> when absent or not a number.\<close>

definition http_get_leaderboard :: "ctx \<Rightarrow> int option \<Rightarrow> string \<Rightarrow> pod \<Rightarrow> response" where
  "http_get_leaderboard cx limit mode0 p =
     (let mode = (if mode0 = '''' then RatingMode1v1 else mode0)
      in if mode \<noteq> RatingMode1v1 \<and> mode \<noteq> RatingModeMulti then Resp 400 (TextBody ''mode must be 1v1 or multi'')
         else case leaderboard_of (cx_env cx) mode (case limit of Some n \<Rightarrow> n | None \<Rightarrow> 50) (pd_store p) of
                Inl _ \<Rightarrow> Resp 500 (TextBody ''could not load leaderboard'')
              | Inr es \<Rightarrow> Resp 200 (LeaderboardBody es))"

section \<open>Matchmaking\<close>

text \<open>The rating a player queues with: the stored one of the mode if there is any game behind it.\<close>

definition queue_rating :: "env \<Rightarrow> db \<Rightarrow> string \<Rightarrow> string \<Rightarrow> int" where
  "queue_rating env d user mode =
     (let r = rating_for d user mode
      in if \<not> ev_fail env ''RatingFor'' \<and> rw_games r > 0 then rw_rating r else DefaultRating)"

text \<open>The doorbell of the elected matcher, rung after a ticket was stored.\<close>

definition wake_matcher :: "ctx \<Rightarrow> pod \<Rightarrow> pod" where
  "wake_matcher cx p = (if so_bus (pd_store p) \<noteq> None \<and> cx_bus cx then send WakeMsg p else p)"

definition http_enqueue_matchmake :: "ctx \<Rightarrow> auth_user option \<Rightarrow> int option \<Rightarrow> pod \<Rightarrow> pod \<times> response" where
  "http_enqueue_matchmake cx user req p =
     (case user of
        None \<Rightarrow> (p, Resp 401 (TextBody ''authentication required''))
      | Some u \<Rightarrow>
          (case req of
             None \<Rightarrow> (p, Resp 400 (TextBody ''invalid body''))
           | Some players \<Rightarrow>
               if players < 2 \<or> players > 6 then (p, Resp 400 (TextBody ''players must be in [2, 6]''))
               else let mode = (if players = 2 then RatingMode1v1 else RatingModeMulti); d = so_db (pd_store p)
                    in case enqueue_matchmake (ev_fail (cx_env cx) ''EnqueueMatchmake'') (ev_dbnow (cx_env cx)) d (au_id u)
                              (nat players) mode (queue_rating (cx_env cx) d (au_id u) mode) of
                         Inl _ \<Rightarrow> (p, Resp 500 (TextBody ''could not enqueue''))
                       | Inr d' \<Rightarrow> (wake_matcher cx (on_store (\<lambda>st. st\<lparr>so_db := d'\<rparr>) p), Resp 202 (QueuedBody players mode))))"

definition http_cancel_matchmake :: "ctx \<Rightarrow> auth_user option \<Rightarrow> pod \<Rightarrow> pod \<times> response" where
  "http_cancel_matchmake cx user p =
     (case user of
        None \<Rightarrow> (p, Resp 401 (TextBody ''authentication required''))
      | Some u \<Rightarrow>
          (case cancel_matchmake (ev_fail (cx_env cx) ''CancelMatchmake'') (so_db (pd_store p)) (au_id u) of
             Inl _ \<Rightarrow> (p, Resp 500 (TextBody ''could not cancel''))
           | Inr d \<Rightarrow> (on_store (\<lambda>st. st\<lparr>so_db := d\<rparr>) p, Resp 204 NoBody)))"

definition http_current_matchmade :: "ctx \<Rightarrow> auth_user option \<Rightarrow> pod \<Rightarrow> response" where
  "http_current_matchmade cx user p =
     user_read user (\<lambda>u. map_sum id MatchedBody
         (current_matchmade_game (ev_fail (cx_env cx) ''CurrentMatchmadeGame'') (so_db (pd_store p)) (au_id u)))
       ''could not look up match''"

definition fan_matched :: "ctx \<Rightarrow> (lobby_payload \<Rightarrow> string option) \<Rightarrow> matched_seat list \<Rightarrow> pod \<Rightarrow> pod" where
  "fan_matched cx render seats p =
     foldl (\<lambda>p s. publish_lobby (cx_codec cx) (cx_bus cx) (mt_user s) ''match_found'' (render (MatchPayload (mt_game s))) p) p seats"

definition fan_queue_update :: "ctx \<Rightarrow> (lobby_payload \<Rightarrow> string option) \<Rightarrow> queue_update list \<Rightarrow> pod \<Rightarrow> pod" where
  "fan_queue_update cx render us p =
     foldl (\<lambda>p u. publish_lobby (cx_codec cx) (cx_bus cx) (uu_user u) ''queue_update''
       (render (QueuePayload (uu_players u) (uu_count u) (uu_eta u))) p) p us"

end
