(* ===== verification/Handlers_Props.thy ===== *)
theory Handlers_Props
  imports Handlers Wire_Props Events_Props
begin

text \<open>
  What requests are answered with: strangers change nothing, a created game belongs to its creator, and how
  every outcome of a move is reported.
\<close>

lemma pod_store_id [simp]: "p\<lparr>pd_store := pd_store p\<rparr> = p"
  by simp

section \<open>Strangers\<close>

text \<open>
  A refusal: a client error, and a pod that is as it was, or as loading the game left it. Loading a game that is not in memory takes it
  in, watches it, claims its lease and takes up its clock and its bot.
\<close>

definition refused :: "pod \<Rightarrow> store \<Rightarrow> pod \<times> response \<Rightarrow> bool" where
  "refused p loaded x \<longleftrightarrow> (fst x = p \<or> fst x = p\<lparr>pd_store := loaded\<rparr>) \<and> (\<exists>n b. snd x = Resp n b \<and> n \<in> {400, 401, 409})"

lemma token_command_refused:
  assumes "token = '''' \<or> (\<exists>e. f (pd_store p) = (loaded, Inl e) \<and> statusFor e \<in> {400, 401, 409})"
  shows "refused p loaded (token_command cx statusFor gid token f p)"
  using assms by (auto simp: refused_def token_command_def answer_game_def answer_and_def)

lemma draw_command_refused:
  assumes "token = '''' \<or> (\<exists>e. f (pd_store p) = (loaded, Inl e) \<and> status_for_draw_error e \<in> {400, 401, 409})"
  shows "refused p loaded (draw_command token f p)"
  using assms by (auto simp: refused_def draw_command_def)

lemma loaded_get: "get_game env gid st = (st1, Inr (Some r)) \<Longrightarrow> with_game env gid st k = k r st1"
  by (simp add: with_game_def get_or_not_found_def)

lemma loading_changes:
  assumes "get_game env gid st = (st1, Inr (Some r))"
  shows "so_games st gid \<noteq> None \<longrightarrow> st1 = st" "(so_db st1)\<lparr>db_leases := t\<rparr> = (so_db st)\<lparr>db_leases := t\<rparr>" "so_notes st1 = so_notes st"
    "r' < so_next st \<Longrightarrow> rec_of st1 r' = rec_of st r'" "so_presence st1 = so_presence st" "so_refs st1 = so_refs st"
  using assms
  by (auto simp: get_game_def alloc_def watch_def ensure_lease_def arm_clock_def maybe_schedule_bot_def spawn_def rec_of_def Let_def
      split: option.splits sum.splits prod.splits if_splits)

text \<open>C12: Without the token of one of its seats nobody starts, leaves, plays, resigns, answers a draw or a rematch, or writes in the
  chat of a game: such a request is refused with a client error. If the process has the game in memory, the whole pod stays as it was, its
  database, timers, subscribers and messages on the bus included. If it has not, the request may make it load the game, which
  changes no table but the leases, no record it has already, no count and no grace timer, and tells the listeners nothing. Only the
  request for a rematch is not checked once the game has one.\<close>

theorem strangers_change_nothing:
  assumes "get_game (cx_env cx) gid (pd_store p) = (loaded, Inr (Some r))"
    "token = '''' \<or> seat_by_token (ev_hash (cx_env cx)) (rec_of loaded r) token = None"
  shows "refused p loaded (http_start_game cx gid token p) \<and> refused p loaded (http_leave_seat cx gid token p)
    \<and> refused p loaded (http_post_move cx gid token req p) \<and> refused p loaded (http_resign cx gid token p)
    \<and> refused p loaded (http_accept_draw cx gid token p) \<and> refused p loaded (http_offer_draw cx gid token p)
    \<and> refused p loaded (http_decline_draw cx gid token p) \<and> refused p loaded (http_decline_rematch cx gid token p)
    \<and> refused p loaded (http_post_chat cx gid token text p)
    \<and> (rc_rematch (rec_of loaded r) = '''' \<longrightarrow> refused p loaded (http_offer_rematch cx gid token p))
    \<and> (so_games (pd_store p) gid \<noteq> None \<longrightarrow> p\<lparr>pd_store := loaded\<rparr> = p)
    \<and> (so_db loaded)\<lparr>db_leases := t\<rparr> = (so_db (pd_store p))\<lparr>db_leases := t\<rparr> \<and> so_notes loaded = so_notes (pd_store p)
    \<and> (\<forall>r' < so_next (pd_store p). rec_of loaded r' = rec_of (pd_store p) r')
    \<and> so_presence loaded = so_presence (pd_store p) \<and> so_refs loaded = so_refs (pd_store p)"
proof -
  note defs = loaded_get [OF assms(1)] Let_def status_defs_http
  have "refused p loaded (http_start_game cx gid token p)"
    unfolding http_start_game_def by (rule token_command_refused) (use assms(2) in \<open>auto simp: start_def defs\<close>)
  moreover have "refused p loaded (http_leave_seat cx gid token p)"
    unfolding http_leave_seat_def by (rule token_command_refused) (use assms(2) in \<open>auto simp: leave_seat_def defs\<close>)
  moreover have "refused p loaded (http_resign cx gid token p)"
    unfolding http_resign_def by (rule token_command_refused) (use assms(2) in \<open>auto simp: resign_game_def defs\<close>)
  moreover have "refused p loaded (http_accept_draw cx gid token p)"
    unfolding http_accept_draw_def by (rule token_command_refused) (use assms(2) in \<open>auto simp: accept_draw_def defs\<close>)
  moreover have "refused p loaded (http_offer_draw cx gid token p)"
    unfolding http_offer_draw_def by (rule draw_command_refused) (use assms(2) in \<open>auto simp: offer_draw_def defs\<close>)
  moreover have "refused p loaded (http_decline_draw cx gid token p)"
    unfolding http_decline_draw_def by (rule draw_command_refused) (use assms(2) in \<open>auto simp: decline_draw_def defs\<close>)
  moreover have "refused p loaded (http_decline_rematch cx gid token p)"
    unfolding http_decline_rematch_def by (rule token_command_refused) (use assms(2) in \<open>auto simp: decline_rematch_def defs\<close>)
  moreover have "refused p loaded (http_offer_rematch cx gid token p)" if "rc_rematch (rec_of loaded r) = ''''"
    unfolding http_offer_rematch_def by (rule token_command_refused) (use assms(2) that in \<open>auto simp: offer_rematch_def defs\<close>)
  moreover have "refused p loaded (http_post_move cx gid token req p)"
    using assms(2) by (auto simp: http_post_move_def refused_def play_move_def defs split: option.split)
  moreover have "refused p loaded (http_post_chat cx gid token text p)"
    using assms(2) by (auto simp: http_post_chat_def refused_def post_message_def defs split: option.split)
  ultimately show ?thesis using loading_changes [OF assms(1)] by auto
qed

text \<open>A pod with a game of two at the table.\<close>

definition table_pod :: pod where
  "table_pod = \<lparr>pd_store = table_store None Map.empty, pd_hub = new_hub, pd_lobby = new_hub, pd_id = ''a'', pd_sent = []\<rparr>"

definition table_ctx :: ctx where
  "table_ctx = \<lparr>cx_codec = sample_codec, cx_bus = True, cx_env = table_env\<rparr>"

theorem strangers_change_nothing_witness:
  "http_resign table_ctx ''g'' ''zz'' table_pod = (table_pod, Resp 401 (FailBody ErrBadToken))"
proof -
  have t: "seat_by_token (ev_hash (cx_env table_ctx)) (rec_of (pd_store table_pod) 0) ''zz'' = None"
    by (simp add: table_ctx_def table_pod_def seat_by_token_def table_seats_def empty_seat_def)
  have g: "so_games (pd_store table_pod) ''g'' = Some 0" by (simp add: table_pod_def)
  then have "get_game (cx_env table_ctx) ''g'' (pd_store table_pod) = (pd_store table_pod, Inr (Some 0))" by (simp add: get_game_def)
  from strangers_change_nothing [OF this, of "''zz''"] t
  have "refused table_pod (pd_store table_pod) (http_resign table_ctx ''g'' ''zz'' table_pod)" by simp
  then show ?thesis
    using t by (simp add: refused_def http_resign_def token_command_def answer_game_def answer_and_def resign_game_def
        cached_get [OF g] Let_def status_for_concession_error_def)
qed

section \<open>Creating a game\<close>

text \<open>The part of the handler after its guards.\<close>

definition create_and_join :: "ctx \<Rightarrow> nat \<Rightarrow> string \<Rightarrow> auth_user option \<Rightarrow> pod \<Rightarrow> pod \<times> response" where
  "create_and_join cx n name user p =
     (case create (cx_env cx) n VisibilityPrivate (pd_store p) of
        (st, Inl e) \<Rightarrow> (p\<lparr>pd_store := st\<rparr>, Resp 500 (TextBody ''could not create game''))
      | (st, Inr r) \<Rightarrow>
          let gid = rc_id (rec_of st r)
          in case join (cx_env cx) gid name (user_id user) 0 st of
               (st2, Inl e) \<Rightarrow> (p\<lparr>pd_store := st2\<rparr>, Resp (status_for_join_error e) (FailBody e))
             | (st2, Inr (s, token)) \<Rightarrow>
                 let p1 = p\<lparr>pd_store := st2\<rparr>; dto = dto_of p1 r
                 in (broadcast cx gid (event_state dto) p1, Resp 201 (JoinBody dto (to_seat_dto s) token)))"

lemma publish_keeps:
  assumes "fence_passes (db_leases (so_db (pd_store p))) gid (lease_epoch (pd_store p) gid)"
  shows "\<exists>d. pd_store (publish cd bus_ok env gid ev p) = (pd_store p)\<lparr>so_db := d\<rparr>"
proof -
  have id: "\<exists>d. s = s\<lparr>so_db := d\<rparr>" for s :: store by (rule exI [of _ "so_db s"]) simp
  show ?thesis
    using assms id
    by (auto simp: publish_def append_event_def Let_def split: option.split sum.split app_error.split)
qed

text \<open>A lease that was just asked for lets the next write through.\<close>

lemma fresh_lease_fence:
  assumes "\<And>m. so_leases st = Some m \<Longrightarrow> held m gid = None"
  shows "fence_passes (db_leases (so_db (ensure_lease env gid st))) gid (lease_epoch (ensure_lease env gid st) gid)"
proof (cases "so_leases st")
  case None
  then show ?thesis by (simp add: ensure_lease_def lease_epoch_def fence_passes_def)
next
  case (Some m)
  then have "held m gid = None" using assms by simp
  then show ?thesis using Some
    by (auto simp: ensure_lease_def lease_epoch_def fence_passes_def ensure_held_def acquire_def acquire_sql_def held_def
        split: db_event.split option.split prod.split)
qed

definition new_record :: "env \<Rightarrow> nat \<Rightarrow> game_record" where
  "new_record env n = \<lparr>rc_id = ev_id env, rc_state = new_game (fresh_colors n) (default_config (int n)),
     rc_seats = fresh_seats n, rc_status = StatusWaiting, rc_visibility = VisibilityPrivate, rc_rematch = '''',
     rc_created = ev_now env, rc_draw_by = -1, rc_offer = None\<rparr>"

lemma new_record_fields [simp]:
  "rc_id (new_record env n) = ev_id env" "rc_status (new_record env n) = StatusWaiting"
  "rc_visibility (new_record env n) = VisibilityPrivate" "rc_seats (new_record env n) = fresh_seats n"
  by (simp_all add: new_record_def)

lemma create_private:
  assumes "create env n VisibilityPrivate st = (st', Inr r)" "\<And>m. so_leases st = Some m \<Longrightarrow> held m (ev_id env) = None"
  shows "rec_of st' r = new_record env n" "so_games st' (ev_id env) = Some r"
    "fence_passes (db_leases (so_db st')) (ev_id env) (lease_epoch st' (ev_id env))"
proof -
  obtain d where r: "r = so_next st" and st': "st' = ensure_lease env (ev_id env) (watch env (ev_id env)
      ((alloc (new_record env n) st)\<lparr>so_db := d, so_games := (so_games st)(ev_id env \<mapsto> r)\<rparr>))"
    using assms(1) by (auto simp: create_def visibility_defs new_record_def Let_def split: sum.splits)
  show "rec_of st' r = new_record env n" by (simp add: st') (simp add: r alloc_def rec_of_def)
  show "so_games st' (ev_id env) = Some r"
    by (auto simp: st' ensure_lease_def watch_def split: option.split prod.split)
  show "fence_passes (db_leases (so_db st')) (ev_id env) (lease_epoch st' (ev_id env))"
    unfolding st' by (rule fresh_lease_fence) (use assms(2) in \<open>simp add: watch_def alloc_def\<close>)
qed

lemma first_seat [simp]: "0 < n \<Longrightarrow> seat_at (new_record env n) 0 = empty_seat 0 1"
  by (simp add: seat_at_def new_record_def fresh_seats_def)

lemma join_first_eq:
  assumes "so_games st gid = Some r" "rec_of st r = new_record env n" "2 \<le> n"
    "s = (empty_seat 0 1)\<lparr>st_name := name, st_hash := ev_hash env (ev_tokens env 0), st_user := user, st_occupied := True\<rparr>"
  shows "join env gid name user 0 st =
    (case update_seat (ev_fail env ''UpdateSeat'') (ev_dbnow env) (so_db st) (ev_id env) s StatusWaiting of
      Inl e \<Rightarrow> (set_rec r (put_seat (new_record env n) 0 s) st, Inl e)
    | Inr d \<Rightarrow> ((set_rec r (put_seat (new_record env n) 0 s) st)\<lparr>so_db := d\<rparr>, Inr (s, ev_tokens env 0)))"
proof -
  have seat: "seat_at (new_record env n) 0 = empty_seat 0 1" "fresh_seats n ! 1 = empty_seat 1 2"
    using assms(3) by (simp_all add: seat_at_def new_record_def fresh_seats_def)
  have len: "length (fresh_seats n) = n" by (simp add: fresh_seats_def)
  have free: "\<not> st_occupied (fresh_seats n ! 1)" using seat(2) by (simp add: empty_seat_def)
  have "fresh_seats n ! 1 \<in> set ((fresh_seats n)[0 := s])"
    using assms(3) len by (auto simp: in_set_conv_nth intro!: exI [of _ "Suc 0"])
  then have "\<not> all_seated (put_seat (new_record env n) 0 s)"
    using free by (auto simp: all_seated_def put_seat_def new_record_def list_all_iff)
  then have full: "start_if_full env (put_seat (new_record env n) 0 s) = (put_seat (new_record env n) 0 s, False)"
    by (simp add: start_if_full_def)
  have ok: "join_seat (new_record env n) user 0 = Inr 0"
  proof -
    have "fresh_seats n \<noteq> []" using assms(3) len by auto
    then show ?thesis
      using assms(3) by (simp add: join_seat_def seat(1)) (simp add: new_record_def empty_seat_def visibility_defs)
  qed
  have id: "rc_id (put_seat (new_record env n) 0 s) = ev_id env"
    "rc_status (put_seat (new_record env n) 0 s) = StatusWaiting"
    "seat_at (put_seat (new_record env n) 0 s) 0 = s"
    using assms(3) by (simp_all add: put_seat_def seat_at_def new_record_def len)
  show ?thesis
    unfolding join_def cached_get [OF assms(1)] Let_def assms(2) ok seat(1) assms(4) [symmetric]
    by (simp add: seat(1) assms(4) [symmetric] full persist_seat_def id split: sum.split)
qed

lemma join_first_seat:
  assumes "so_games st gid = Some r" "rec_of st r = new_record env n" "2 \<le> n"
    "join env gid name user 0 st = (st', Inr (s, token))"
  shows "s = (empty_seat 0 1)\<lparr>st_name := name, st_hash := ev_hash env token, st_user := user, st_occupied := True\<rparr>"
    "rec_of st' r = (new_record env n)\<lparr>rc_seats := (fresh_seats n)[0 := s]\<rparr>"
    "so_games st' = so_games st" "so_leases st' = so_leases st" "db_leases (so_db st') = db_leases (so_db st)"
proof -
  let ?s = "(empty_seat 0 1)\<lparr>st_name := name, st_hash := ev_hash env (ev_tokens env 0), st_user := user, st_occupied := True\<rparr>"
  note j = join_first_eq [OF assms(1,2,3) refl, of name user]
  obtain d where d: "update_seat (ev_fail env ''UpdateSeat'') (ev_dbnow env) (so_db st) (ev_id env) ?s StatusWaiting = Inr d"
      and st': "st' = (set_rec r (put_seat (new_record env n) 0 ?s) st)\<lparr>so_db := d\<rparr>" and s: "s = ?s" "token = ev_tokens env 0"
  proof (cases "update_seat (ev_fail env ''UpdateSeat'') (ev_dbnow env) (so_db st) (ev_id env) ?s StatusWaiting")
    case (Inl e)
    then show ?thesis using assms(4) unfolding j by simp
  next
    case (Inr d)
    show ?thesis by (rule that [OF Inr]) (use assms(4) in \<open>auto simp: j Inr\<close>)
  qed
  show "s = (empty_seat 0 1)\<lparr>st_name := name, st_hash := ev_hash env token, st_user := user, st_occupied := True\<rparr>"
    using s by simp
  show "rec_of st' r = (new_record env n)\<lparr>rc_seats := (fresh_seats n)[0 := s]\<rparr>"
    by (simp add: st' s) (simp add: put_seat_def new_record_def)
  show "so_games st' = so_games st" "so_leases st' = so_leases st" by (simp_all add: st')
  show "db_leases (so_db st') = db_leases (so_db st)"
    using d by (auto simp: st' update_seat_def split: if_splits)
qed

text \<open>C13: A request that creates a game is answered with a private waiting game of the players asked for, whose creator has the
  first seat, under a non-empty name and with the token of the answer, and every other seat empty. Only an account creates
  games where guests are not allowed. The game is in the memory of the pod exactly as it is answered, so the creator's
  token is the one that opens the first seat.\<close>

theorem created_game_is_the_callers:
  assumes "http_create_game cx guestPlay user (Some (players, vis, given)) p = (p', Resp 201 (JoinBody dto s token))"
    "ev_hash (cx_env cx) token \<noteq> ''''"
    "\<And>m. so_leases (pd_store p) = Some m \<Longrightarrow> held m (ev_id (cx_env cx)) = None"
  shows "\<exists>r rc. so_games (pd_store p') (ev_id (cx_env cx)) = Some r \<and> rec_of (pd_store p') r = rc \<and> dto = to_game_dto rc
      \<and> rc_id rc = ev_id (cx_env cx) \<and> rc_status rc = StatusWaiting \<and> rc_visibility rc = VisibilityPrivate
      \<and> int (length (rc_seats rc)) = players \<and> 2 \<le> players \<and> players \<le> 6
      \<and> seat_by_token (ev_hash (cx_env cx)) rc token = Some 0 \<and> s = to_seat_dto (rc_seats rc ! 0)
      \<and> st_name (rc_seats rc ! 0) \<noteq> '''' \<and> st_user (rc_seats rc ! 0) = user_id user
      \<and> (\<forall>i < length (rc_seats rc). st_occupied (rc_seats rc ! i) \<longleftrightarrow> i = 0)
      \<and> (user = None \<longrightarrow> guestPlay)"
proof -
  let ?env = "cx_env cx" let ?gid = "ev_id (cx_env cx)"
  obtain n where n: "players = int n" "2 \<le> n" "n \<le> 6" and name: "join_name ?env (so_db (pd_store p)) user given \<noteq> ''''"
    and guest: "user = None \<longrightarrow> guestPlay"
    and run: "create_and_join cx n (join_name ?env (so_db (pd_store p)) user given) user p = (p', Resp 201 (JoinBody dto s token))"
  proof -
    show thesis
      by (rule that [of "nat players"]) (use assms(1) [unfolded http_create_game_def Let_def] in
          \<open>auto simp: create_and_join_def [unfolded Let_def] guest_allowed_def MaxPlayers_def split: if_splits\<close>)
  qed
  obtain st r where c: "create ?env n VisibilityPrivate (pd_store p) = (st, Inr r)"
  proof (cases "create ?env n VisibilityPrivate (pd_store p)")
    case (Pair st x)
    then show thesis using run that by (cases x) (auto simp: create_and_join_def)
  qed
  note new = create_private [OF c assms(3)]
  obtain st2 q where j: "join ?env ?gid (join_name ?env (so_db (pd_store p)) user given) (user_id user) 0 st = (st2, Inr (q, token))"
    and out: "p' = broadcast cx ?gid (event_state (to_game_dto (rec_of st2 r))) (p\<lparr>pd_store := st2\<rparr>)"
      "dto = to_game_dto (rec_of st2 r)" "s = to_seat_dto q"
  proof (cases "join ?env ?gid (join_name ?env (so_db (pd_store p)) user given) (user_id user) 0 st")
    case (Pair st2 x)
    then show thesis using run that by (cases x) (auto simp: create_and_join_def c new(1) Let_def dto_of_def)
  qed
  note seated = join_first_seat [OF new(2) new(1) n(2) j]
  have "lease_epoch st2 ?gid = lease_epoch st ?gid" by (simp add: lease_epoch_def seated)
  then obtain d where kept: "pd_store p' = st2\<lparr>so_db := d\<rparr>"
    using publish_keeps [of "p\<lparr>pd_store := st2\<rparr>" ?gid] new(3) seated(5) by (fastforce simp: out(1) broadcast_def)
  let ?rc = "(new_record ?env n)\<lparr>rc_seats := (fresh_seats n)[0 := q]\<rparr>"
  have len: "length (fresh_seats n) = n" by (simp add: fresh_seats_def)
  have "seat_by_token (ev_hash ?env) ?rc token = Some 0"
    using seated(1) assms(2) n(2) len by (cases "fresh_seats n") (auto simp: seat_by_token_def)
  moreover have "st_occupied ((fresh_seats n)[0 := q] ! i) \<longleftrightarrow> i = 0" if "i < n" for i
    using that seated(1) len by (cases i) (simp_all add: fresh_seats_def empty_seat_def)
  moreover have "(fresh_seats n)[0 := q] ! 0 = q" using n(2) len by simp
  moreover have "so_games (pd_store p') ?gid = Some r" "rec_of (pd_store p') r = ?rc"
    using kept new(2) seated(2,3) by (simp_all add: rec_of_def)
  ultimately show ?thesis
    using n name guest out seated(1,2) len by (intro exI [of _ r] exI [of _ ?rc]) simp
qed

definition solo_pod :: pod where
  "solo_pod = \<lparr>pd_store = sample_store, pd_hub = new_hub, pd_lobby = new_hub, pd_id = ''a'', pd_sent = []\<rparr>"

definition solo_ctx :: ctx where
  "solo_ctx = \<lparr>cx_codec = sample_codec, cx_bus = True, cx_env = sample_env\<rparr>"

theorem created_game_is_the_callers_witness:
  "\<exists>p' dto s. http_create_game solo_ctx True None (Some (2, '''', ''Ann'')) solo_pod = (p', Resp 201 (JoinBody dto s ''tok''))
     \<and> (\<exists>r. so_games (pd_store p') ''g'' = Some r \<and> seat_by_token (ev_hash sample_env) (rec_of (pd_store p') r) ''tok'' = Some 0)"
proof -
  have c: "create sample_env 2 VisibilityPrivate sample_store = (created_store, Inr 0)"
    by (simp add: created_store_def create_def sample_store_def new_store_def sample_env_def save_new_game_def
      empty_db_def game_of_def two_seats empty_seat_def visibility_defs Let_def)
  have m: "rec_of created_store 0 = new_record sample_env 2"
    using create_private(1) [OF c] by (simp add: sample_store_def new_store_def)
  have g: "so_games created_store ''g'' = Some 0" by (simp add: created_facts)
  have name: "join_name sample_env d None ''Ann'' = ''Ann''" for d by (simp add: join_name_def trim_space_print byte_def)
  have env: "ev_fail sample_env x = False" "ev_id sample_env = ''g''" "ev_tokens sample_env i = ''tok''" "ev_hash sample_env x \<noteq> ''''"
    for x i by (simp_all add: sample_env_def)
  obtain p' dto s where out: "http_create_game solo_ctx True None (Some (2, '''', ''Ann'')) solo_pod = (p', Resp 201 (JoinBody dto s ''tok''))"
    using c by (auto simp: http_create_game_def solo_ctx_def solo_pod_def guest_allowed_def name MaxPlayers_def visibility_defs Let_def
        user_id_def join_first_eq [OF g m le_refl refl] created_facts(9) update_seat_def env)
  have "so_leases (pd_store solo_pod) = None" by (simp add: solo_pod_def sample_store_def new_store_def)
  then show ?thesis
    using created_game_is_the_callers [OF out] env(4) out by (fastforce simp: solo_ctx_def env(2))
qed

end
