(* ===== verification/Sockets.thy ===== *)
theory Sockets
  imports Handlers
begin

text \<open>
  WebSocket connections, \<open>internal/server/ws.go\<close> and \<open>wsLobby\<close> of \<open>lobby.go\<close>. A connection is served by two
  goroutines: the handler writes what its subscription receives, the reader waits for the client's \<open>hello\<close>. The
  library's handshake and writes are inputs that succeed or not; pings are writes that may fail. A connection keeps the
  record it was opened with, which an invalidation of the cache does not replace; the id of the record is the id it
  is cached under, so one field \<open>sk_game\<close> stands for both.
\<close>

section \<open>Connections of a game\<close>

record socket =
  sk_game :: string
  sk_rec :: nat
  sk_seat :: int
  sk_reading :: bool
  sk_writing :: bool
  sk_sent :: "string list"

text \<open>A lobby connection keeps the user and what was written. Connections are named by their subscription.\<close>

record sockets =
  ss_pod :: pod
  ss_conns :: "nat \<Rightarrow> socket option"
  ss_lobby :: "nat \<Rightarrow> (string \<times> string list) option"

definition new_sockets :: "pod \<Rightarrow> sockets" where
  "new_sockets p = \<lparr>ss_pod = p, ss_conns = Map.empty, ss_lobby = Map.empty\<rparr>"

text \<open>The interest hooks of the game hub reach the bus when there is one.\<close>

definition hook_pod :: "env \<Rightarrow> hook \<Rightarrow> pod \<Rightarrow> pod" where
  "hook_pod env hk p = on_store (\<lambda>st. st\<lparr>so_bus := map_option (run_hook (ev_bus env) hk) (so_bus st)\<rparr>) p"

text \<open>\<open>sendEvent\<close>: an event that does not render is not sent, and a failed write is ignored.\<close>

definition first_message :: "ctx \<Rightarrow> bool \<Rightarrow> int \<Rightarrow> event \<Rightarrow> string list" where
  "first_message cx written seq ev =
     (case mj_payload (cx_codec cx) (evt_payload ev) of
        None \<Rightarrow> []
      | Some body \<Rightarrow>
          (case mj_event (cx_codec cx) (evt_type ev) seq body of
             None \<Rightarrow> []
           | Some msg \<Rightarrow> if written then [msg] else []))"

text \<open>
  Opening: the game is loaded before the handshake, the subscription comes before the snapshot, and the snapshot carries the
  number of the last event. \<open>None\<close> as an answer means the library has answered.
\<close>

definition ws_game :: "ctx \<Rightarrow> bool \<Rightarrow> bool \<Rightarrow> string \<Rightarrow> sockets \<Rightarrow> sockets \<times> response option" where
  "ws_game cx accepted written gid ss =
     (let p = ss_pod ss
      in case get_game (cx_env cx) gid (pd_store p) of
           (st, Inl _) \<Rightarrow> (ss\<lparr>ss_pod := p\<lparr>pd_store := st\<rparr>\<rparr>, Some (Resp 500 (TextBody ''could not load game'')))
         | (st, Inr None) \<Rightarrow> (ss\<lparr>ss_pod := p\<lparr>pd_store := st\<rparr>\<rparr>, Some (Resp 404 (TextBody ''game not found'')))
         | (st, Inr (Some r)) \<Rightarrow>
             if \<not> accepted then (ss\<lparr>ss_pod := p\<lparr>pd_store := st\<rparr>\<rparr>, None)
             else let (h, sub, hk) = subscribe (pd_hub p) gid;
                      p1 = hook_pod (cx_env cx) hk (p\<lparr>pd_store := st, pd_hub := h\<rparr>);
                      seq = (case current_event_seq (ev_fail (cx_env cx) ''CurrentEventSeq'') (so_db st) gid of
                               Inl _ \<Rightarrow> 0 | Inr n \<Rightarrow> n);
                      sent = first_message cx written seq (event_state (to_game_dto (rec_of st r)))
                  in (ss\<lparr>ss_pod := p1,
                         ss_conns := (ss_conns ss)(sub \<mapsto> \<lparr>sk_game = gid, sk_rec = r, sk_seat = -1,
                           sk_reading = True, sk_writing = True, sk_sent = sent\<rparr>)\<rparr>, None))"

text \<open>A message of the client, \<open>None\<close> if it does not parse: the first \<open>hello\<close> with a token of a seat registers the seat.\<close>

definition ws_message :: "ctx \<Rightarrow> nat \<Rightarrow> (string \<times> string) option \<Rightarrow> sockets \<Rightarrow> sockets" where
  "ws_message cx sub msg ss =
     (case (ss_conns ss sub, msg) of
        (Some c, Some (ty, token)) \<Rightarrow>
          if sk_reading c \<and> ty = ''hello'' \<and> sk_seat c < 0 \<and> token \<noteq> ''''
          then let rc = rec_of (pd_store (ss_pod ss)) (sk_rec c)
               in case seat_by_token (ev_hash (cx_env cx)) rc token of
                    None \<Rightarrow> ss
                  | Some k \<Rightarrow>
                      let i = st_index (rc_seats rc ! k)
                      in ss\<lparr>ss_pod := on_store (seat_connected (sk_game c) i) (ss_pod ss),
                            ss_conns := (ss_conns ss)(sub \<mapsto> c\<lparr>sk_seat := i\<rparr>)\<rparr>
          else ss
      | _ \<Rightarrow> ss)"

text \<open>The reader ends when the connection does, or when the handler ended: a registered seat is reported.\<close>

definition ws_reader_ends :: "ctx \<Rightarrow> nat \<Rightarrow> sockets \<Rightarrow> sockets" where
  "ws_reader_ends cx sub ss =
     (case ss_conns ss sub of
        None \<Rightarrow> ss
      | Some c \<Rightarrow>
          if \<not> sk_reading c then ss
          else ss\<lparr>ss_pod := (if sk_seat c \<ge> 0 then on_store (seat_disconnected (cx_env cx) (sk_game c) (sk_seat c)) (ss_pod ss)
                             else ss_pod ss),
                  ss_conns := (ss_conns ss)(sub \<mapsto> c\<lparr>sk_reading := False\<rparr>)\<rparr>)"

text \<open>The handler ends when the context is cancelled or a write or a ping fails.\<close>

definition ws_writer_ends :: "ctx \<Rightarrow> nat \<Rightarrow> sockets \<Rightarrow> sockets" where
  "ws_writer_ends cx sub ss =
     (case ss_conns ss sub of
        None \<Rightarrow> ss
      | Some c \<Rightarrow>
          if \<not> sk_writing c then ss
          else let (h, hk) = unsubscribe (pd_hub (ss_pod ss)) (sk_game c) sub
               in ss\<lparr>ss_pod := hook_pod (cx_env cx) hk ((ss_pod ss)\<lparr>pd_hub := h\<rparr>),
                     ss_conns := (ss_conns ss)(sub \<mapsto> c\<lparr>sk_writing := False\<rparr>)\<rparr>)"

definition ws_write :: "ctx \<Rightarrow> bool \<Rightarrow> nat \<Rightarrow> sockets \<Rightarrow> sockets" where
  "ws_write cx written sub ss =
     (case ss_conns ss sub of
        None \<Rightarrow> ss
      | Some c \<Rightarrow>
          (case hb_buffer (pd_hub (ss_pod ss)) sub of
             [] \<Rightarrow> ss
           | msg # _ \<Rightarrow>
               if \<not> sk_writing c then ss
               else let ss1 = ss\<lparr>ss_pod := (ss_pod ss)\<lparr>pd_hub := receive (pd_hub (ss_pod ss)) sub\<rparr>\<rparr>
                    in if written then ss1\<lparr>ss_conns := (ss_conns ss)(sub \<mapsto> c\<lparr>sk_sent := sk_sent c @ [msg]\<rparr>)\<rparr>
                       else ws_writer_ends cx sub ss1))"

section \<open>Connections of the lobby\<close>

definition ws_lobby :: "bool \<Rightarrow> auth_user option \<Rightarrow> sockets \<Rightarrow> sockets \<times> response option" where
  "ws_lobby accepted user ss =
     (case user of
        None \<Rightarrow> (ss, Some (Resp 401 (TextBody ''authentication required'')))
      | Some u \<Rightarrow>
          if \<not> accepted then (ss, None)
          else let (h, sub, _) = subscribe (pd_lobby (ss_pod ss)) (au_id u)
               in (ss\<lparr>ss_pod := (ss_pod ss)\<lparr>pd_lobby := h\<rparr>, ss_lobby := (ss_lobby ss)(sub \<mapsto> (au_id u, []))\<rparr>, None))"

definition lobby_ends :: "nat \<Rightarrow> sockets \<Rightarrow> sockets" where
  "lobby_ends sub ss =
     (case ss_lobby ss sub of
        None \<Rightarrow> ss
      | Some (user, _) \<Rightarrow>
          ss\<lparr>ss_pod := (ss_pod ss)\<lparr>pd_lobby := fst (unsubscribe (pd_lobby (ss_pod ss)) user sub)\<rparr>,
             ss_lobby := (ss_lobby ss)(sub := None)\<rparr>)"

definition lobby_write :: "bool \<Rightarrow> nat \<Rightarrow> sockets \<Rightarrow> sockets" where
  "lobby_write written sub ss =
     (case (ss_lobby ss sub, hb_buffer (pd_lobby (ss_pod ss)) sub) of
        (Some (user, sent), msg # _) \<Rightarrow>
          let ss1 = ss\<lparr>ss_pod := (ss_pod ss)\<lparr>pd_lobby := receive (pd_lobby (ss_pod ss)) sub\<rparr>\<rparr>
          in if written then ss1\<lparr>ss_lobby := (ss_lobby ss)(sub \<mapsto> (user, sent @ [msg]))\<rparr> else lobby_ends sub ss1
      | _ \<Rightarrow> ss)"

end
