(* ===== verification/Sockets_Props.thy ===== *)
theory Sockets_Props
  imports Sockets Handlers_Props Timers_Props
begin

text \<open>
  Presence: what the counts of a process say about its connections, and whom the grace timer hits.
\<close>

section \<open>Connections and counts\<close>

definition live :: "(nat \<Rightarrow> socket option) \<Rightarrow> string \<Rightarrow> int \<Rightarrow> nat set" where
  "live cs gid i = {k. \<exists>c. cs k = Some c \<and> sk_reading c \<and> sk_game c = gid \<and> sk_seat c = i}"

lemma live_upd:
  "live (cs(k \<mapsto> c)) gid i
    = (if sk_reading c \<and> sk_game c = gid \<and> sk_seat c = i then insert k (live cs gid i) else live cs gid i - {k})"
  by (auto simp: live_def)

lemma live_same:
  assumes "cs k = Some c" "sk_reading c' = sk_reading c" "sk_game c' = sk_game c" "sk_seat c' = sk_seat c"
  shows "live (cs(k \<mapsto> c')) = live cs"
  using assms by (intro ext) (auto simp: live_def)

lemma conns_connected:
  "conns (seat_connected gid i st) g j = conns st g j + (if g = gid \<and> j = i then 1 else 0)"
  by (auto simp: seat_connected_def conns_def set_conns_def notify_def Let_def split: option.splits)

lemma conns_disconnected:
  "conns (seat_disconnected env gid i st) g j = conns st g j - (if g = gid \<and> j = i \<and> 0 < conns st gid i then 1 else 0)"
  by (auto simp: seat_disconnected_def conns_def set_conns_def notify_def Let_def split: option.splits)

lemma conns_cong: "so_refs st = so_refs st' \<Longrightarrow> conns st = conns st'"
  by (intro ext) (simp add: conns_def)

lemma get_game_refs: "get_game env gid st = (st', x) \<Longrightarrow> so_refs st' = so_refs st"
  by (auto simp: get_game_def Let_def alloc_def watch_def ensure_lease_def arm_clock_def maybe_schedule_bot_def spawn_def
      split: option.splits sum.splits prod.splits if_splits)

text \<open>
  The steps of a process: the operations of its connections, the end of a game, which drops its counts, and anything else the process
  does, which neither subscribes nor touches a count. The second component collects the games that ended.
\<close>

inductive serving_step :: "sockets \<times> string set \<Rightarrow> sockets \<times> string set \<Rightarrow> bool" where
  sv_open: "serving_step (ss, en) (fst (ws_game cx accepted written gid ss), en)"
| sv_message: "serving_step (ss, en) (ws_message cx sub msg ss, en)"
| sv_reader: "serving_step (ss, en) (ws_reader_ends cx sub ss, en)"
| sv_writer: "serving_step (ss, en) (ws_writer_ends cx sub ss, en)"
| sv_write: "serving_step (ss, en) (ws_write cx written sub ss, en)"
| sv_lobby: "serving_step (ss, en) (fst (ws_lobby accepted user ss), en)"
| sv_lobby_ends: "serving_step (ss, en) (lobby_ends sub ss, en)"
| sv_lobby_write: "serving_step (ss, en) (lobby_write written sub ss, en)"
| sv_ended: "serving_step (ss, en) (ss\<lparr>ss_pod := on_store (game_ended gid) (ss_pod ss)\<rparr>, insert gid en)"
| sv_other: "so_refs (pd_store p) = so_refs (pd_store (ss_pod ss)) \<Longrightarrow> hb_next (pd_hub p) = hb_next (pd_hub (ss_pod ss))
    \<Longrightarrow> serving_step (ss, en) (ss\<lparr>ss_pod := p\<rparr>, en)"

inductive_cases serving_stepE: "serving_step (ss, en) s'"

definition serving_start :: "sockets \<times> string set \<Rightarrow> bool" where
  "serving_start s \<longleftrightarrow> (\<exists>p. s = (new_sockets p, {}) \<and> so_refs (pd_store p) = Map.empty)"

definition serving_inv :: "sockets \<times> string set \<Rightarrow> bool" where
  "serving_inv s \<longleftrightarrow> (case s of (ss, en) \<Rightarrow>
     (\<forall>k. ss_conns ss k \<noteq> None \<longrightarrow> k < hb_next (pd_hub (ss_pod ss)))
     \<and> (\<forall>g i. 0 \<le> i \<longrightarrow> 0 \<le> conns (pd_store (ss_pod ss)) g i
          \<and> conns (pd_store (ss_pod ss)) g i \<le> int (card (live (ss_conns ss) g i))
          \<and> (g \<notin> en \<longrightarrow> conns (pd_store (ss_pod ss)) g i = int (card (live (ss_conns ss) g i)))))"

lemma live_finite:
  assumes "\<And>k. ss_conns ss k \<noteq> None \<Longrightarrow> k < n"
  shows "finite (live (ss_conns ss) g i)"
  by (rule finite_subset [of _ "{..<n}"]) (use assms in \<open>auto simp: live_def\<close>)

text \<open>A step that leaves the counts and the registered connections alone.\<close>

lemma serving_inv_frame:
  assumes "serving_inv (ss, en)" "so_refs (pd_store (ss_pod ss')) = so_refs (pd_store (ss_pod ss))"
    "hb_next (pd_hub (ss_pod ss)) \<le> hb_next (pd_hub (ss_pod ss'))"
    "\<And>k. ss_conns ss' k \<noteq> None \<Longrightarrow> ss_conns ss k \<noteq> None \<or> k < hb_next (pd_hub (ss_pod ss'))"
    "\<And>g i. 0 \<le> i \<Longrightarrow> live (ss_conns ss') g i = live (ss_conns ss) g i"
  shows "serving_inv (ss', en)"
  using assms conns_cong [OF assms(2)] unfolding serving_inv_def prod.case by (metis order_less_le_trans)

lemma hook_pod_frame [simp]:
  "so_refs (pd_store (hook_pod env hk p)) = so_refs (pd_store p)" "pd_hub (hook_pod env hk p) = pd_hub p"
  by (simp_all add: hook_pod_def on_store_def)

lemma hub_next [simp]:
  "unsubscribe h key sub = (h', hk) \<Longrightarrow> hb_next h' = hb_next h" "hb_next (receive h sub) = hb_next h"
  by (auto simp: unsubscribe_def receive_def Let_def)

lemma serving_inv_open:
  assumes "serving_inv (ss, en)"
  shows "serving_inv (fst (ws_game cx accepted written gid ss), en)"
proof (cases "get_game (cx_env cx) gid (pd_store (ss_pod ss))")
  case (Pair st x)
  note refs = get_game_refs [OF Pair]
  have keep: "serving_inv (ss\<lparr>ss_pod := (ss_pod ss)\<lparr>pd_store := st\<rparr>\<rparr>, en)"
    by (rule serving_inv_frame [OF assms]) (simp_all add: refs)
  obtain h sub hk where sub: "subscribe (pd_hub (ss_pod ss)) gid = (h, sub, hk)" by (metis prod_cases3)
  then have nxt: "sub = hb_next (pd_hub (ss_pod ss))" "hb_next h = Suc sub" by (auto simp: subscribe_def Let_def)
  have fresh: "hb_next (pd_hub (ss_pod ss)) \<notin> live (ss_conns ss) g i" for g i
    using assms by (auto simp: serving_inv_def live_def)
  show ?thesis
    unfolding ws_game_def Let_def Pair sub
    by (cases x; cases "projr x"; cases accepted)
      (auto simp: keep refs nxt live_upd fresh intro!: serving_inv_frame [OF assms] split: option.split)
qed

lemma serving_inv_message:
  assumes inv: "serving_inv (ss, en)"
  shows "serving_inv (ws_message cx sub msg ss, en)"
proof (cases "ws_message cx sub msg ss = ss")
  case False
  then obtain c ty token k where c: "ss_conns ss sub = Some c" "sk_reading c" "sk_seat c < 0"
    and run: "ws_message cx sub msg ss = ss\<lparr>ss_pod := on_store (seat_connected (sk_game c) k) (ss_pod ss),
                            ss_conns := (ss_conns ss)(sub \<mapsto> c\<lparr>sk_seat := k\<rparr>)\<rparr>"
    unfolding ws_message_def Let_def by (auto split: option.splits prod.splits if_splits)
  have other: "sub \<notin> live (ss_conns ss) g i" if "0 \<le> i" for g i using c that by (auto simp: live_def)
  have fin: "finite (live (ss_conns ss) g i)" for g i
    using inv by (intro live_finite [of _ "hb_next (pd_hub (ss_pod ss))"]) (simp add: serving_inv_def)
  have "live ((ss_conns ss)(sub \<mapsto> c\<lparr>sk_seat := k\<rparr>)) g i
      = (if g = sk_game c \<and> i = k then insert sub (live (ss_conns ss) g i) else live (ss_conns ss) g i)" if "0 \<le> i" for g i
    using c other [OF that] by (auto simp: live_upd)
  then show ?thesis
    using inv c other fin unfolding run serving_inv_def by (auto simp: on_store_def conns_connected)
qed (use inv in simp)

lemma serving_inv_reader:
  assumes inv: "serving_inv (ss, en)"
  shows "serving_inv (ws_reader_ends cx sub ss, en)"
proof (cases "ws_reader_ends cx sub ss = ss")
  case False
  then obtain c where c: "ss_conns ss sub = Some c" "sk_reading c"
    and run: "ws_reader_ends cx sub ss
      = ss\<lparr>ss_pod := (if sk_seat c \<ge> 0 then on_store (seat_disconnected (cx_env cx) (sk_game c) (sk_seat c)) (ss_pod ss) else ss_pod ss),
           ss_conns := (ss_conns ss)(sub \<mapsto> c\<lparr>sk_reading := False\<rparr>)\<rparr>"
    unfolding ws_reader_ends_def by (auto split: option.splits if_splits)
  have fin: "finite (live (ss_conns ss) g i)" for g i
    using inv by (intro live_finite [of _ "hb_next (pd_hub (ss_pod ss))"]) (simp add: serving_inv_def)
  have own: "sub \<in> live (ss_conns ss) g i \<longleftrightarrow> g = sk_game c \<and> i = sk_seat c" for g i using c by (auto simp: live_def)
  have card: "int (card (live (ss_conns ss) g i - {sub})) = int (card (live (ss_conns ss) g i)) - (if g = sk_game c \<and> i = sk_seat c then 1 else 0)"
    for g i
  proof (cases "g = sk_game c \<and> i = sk_seat c")
    case True
    then have "Suc (card (live (ss_conns ss) g i - {sub})) = card (live (ss_conns ss) g i)"
      using own [of g i] fin [of g i] by (intro card_Suc_Diff1) auto
    then show ?thesis unfolding if_P [OF True] by linarith
  next
    case False
    then show ?thesis using own by simp
  qed
  let ?N = "conns (pd_store (ss_pod ss))" and ?C = "\<lambda>g i. int (card (live (ss_conns ss) g i))"
  let ?N' = "conns (pd_store (ss_pod (ws_reader_ends cx sub ss)))" and ?C' = "\<lambda>g i. int (card (live (ss_conns (ws_reader_ends cx sub ss)) g i))"
  have old: "0 \<le> ?N g i \<and> ?N g i \<le> ?C g i \<and> (g \<notin> en \<longrightarrow> ?N g i = ?C g i)" if "0 \<le> i" for g i
    using inv that by (simp add: serving_inv_def)
  have one: "1 \<le> ?C (sk_game c) (sk_seat c)" using card [of "sk_game c" "sk_seat c"] by simp
  have C: "?C' g i = ?C g i - (if g = sk_game c \<and> i = sk_seat c then 1 else 0)" for g i
    unfolding run using card [of g i] by (simp add: live_upd)
  have N: "?N' g i = ?N g i - (if g = sk_game c \<and> i = sk_seat c \<and> 0 < ?N g i then 1 else 0)" if "0 \<le> i" for g i
    unfolding run using that by (auto simp: on_store_def conns_disconnected)
  have "0 \<le> ?N' g i \<and> ?N' g i \<le> ?C' g i \<and> (g \<notin> en \<longrightarrow> ?N' g i = ?C' g i)" if "0 \<le> i" for g i
    using old [OF that, of g] one unfolding C N [OF that] by (cases "g = sk_game c \<and> i = sk_seat c") auto
  moreover have "\<forall>k. ss_conns (ws_reader_ends cx sub ss) k \<noteq> None \<longrightarrow> k < hb_next (pd_hub (ss_pod (ws_reader_ends cx sub ss)))"
    using inv c(1) unfolding run by (auto simp: serving_inv_def on_store_def)
  ultimately show ?thesis by (simp add: serving_inv_def)
qed (use inv in simp)

lemma serving_inv_writer:
  assumes "serving_inv (ss, en)"
  shows "serving_inv (ws_writer_ends cx sub ss, en)"
  unfolding ws_writer_ends_def
  by (auto simp: assms Let_def live_same intro!: serving_inv_frame [OF assms] split: option.split prod.split if_splits)

lemma serving_inv_write:
  assumes "serving_inv (ss, en)"
  shows "serving_inv (ws_write cx written sub ss, en)"
proof -
  let ?ss = "ss\<lparr>ss_pod := (ss_pod ss)\<lparr>pd_hub := receive (pd_hub (ss_pod ss)) sub\<rparr>\<rparr>"
  have "serving_inv (?ss, en)" by (rule serving_inv_frame [OF assms]) simp_all
  from serving_inv_writer [OF this] show ?thesis
    unfolding ws_write_def
    by (auto simp: assms Let_def live_same intro!: serving_inv_frame [OF assms] split: option.split list.split if_splits)
qed

lemma lobby_frame:
  "ss_conns (fst (ws_lobby accepted user ss)) = ss_conns ss" "ss_conns (lobby_ends sub ss) = ss_conns ss"
  "ss_conns (lobby_write written sub ss) = ss_conns ss"
  "pd_store (ss_pod (fst (ws_lobby accepted user ss))) = pd_store (ss_pod ss)" "pd_store (ss_pod (lobby_ends sub ss)) = pd_store (ss_pod ss)"
  "pd_store (ss_pod (lobby_write written sub ss)) = pd_store (ss_pod ss)"
  "pd_hub (ss_pod (fst (ws_lobby accepted user ss))) = pd_hub (ss_pod ss)" "pd_hub (ss_pod (lobby_ends sub ss)) = pd_hub (ss_pod ss)"
  "pd_hub (ss_pod (lobby_write written sub ss)) = pd_hub (ss_pod ss)"
  by (auto simp: ws_lobby_def lobby_ends_def lobby_write_def Let_def split: option.split prod.split list.split)

lemma serving_inv_lobby:
  assumes "serving_inv (ss, en)"
  shows "serving_inv (fst (ws_lobby accepted user ss), en)" "serving_inv (lobby_ends sub ss, en)"
    "serving_inv (lobby_write written sub ss, en)"
  by (rule serving_inv_frame [OF assms]; simp add: lobby_frame)+

lemma serving_inv_ended:
  assumes "serving_inv (ss, en)"
  shows "serving_inv (ss\<lparr>ss_pod := on_store (game_ended gid) (ss_pod ss)\<rparr>, insert gid en)"
proof -
  have "conns (game_ended gid st) g i = (if g = gid then 0 else conns st g i)" for st g i
    by (simp add: conns_def game_ended_def)
  then show ?thesis using assms by (auto simp: serving_inv_def on_store_def)
qed

interpretation serving: machine serving_start serving_step serving_inv
proof unfold_locales
  show "serving_inv s" if "serving_start s" for s
    using that by (auto simp: serving_start_def serving_inv_def new_sockets_def conns_def live_def)
  show "serving_inv s'" if "serving_inv s" "serving_step s s'" for s s'
    using that(2,1)
    by (cases rule: serving_step.cases)
      (auto intro: serving_inv_open serving_inv_message serving_inv_reader serving_inv_writer serving_inv_write serving_inv_ended
        serving_inv_lobby serving_inv_frame)
qed

text \<open>C19: While a game is not over, the presence a process keeps is exact: the count of a seat is the number of open connections that
  registered for it, in whatever order connections open, authenticate and close, so a seat is online exactly when one of
  them is left. When a registered connection ends, the grace timer of its seat starts and the listeners are told that the seat is offline, if
  it was the last one; otherwise nothing is scheduled and nobody is told anything.\<close>

theorem presence_counts_connections:
  assumes "reach serving_start serving_step (ss, en)" "gid \<notin> en" "0 \<le> i"
  shows "conns (pd_store (ss_pod ss)) gid i = int (card (live (ss_conns ss) gid i))
    \<and> (seat_online (pd_store (ss_pod ss)) gid i \<longleftrightarrow> live (ss_conns ss) gid i \<noteq> {})
    \<and> (k \<in> live (ss_conns ss) gid i \<longrightarrow>
         (let st = pd_store (ss_pod ss); st' = pd_store (ss_pod (ws_reader_ends cx k ss))
          in so_presence st' = (if live (ss_conns ss) gid i = {k}
               then presence_schedule gid i (so_grace st) (ev_now (cx_env cx)) (so_presence st) else so_presence st)
           \<and> so_notes st' = so_notes st @ (if live (ss_conns ss) gid i = {k} then [OnPresence gid i False] else [])
           \<and> (seat_online st' gid i \<longleftrightarrow> live (ss_conns ss) gid i \<noteq> {k})))"
proof -
  let ?st = "pd_store (ss_pod ss)" let ?l = "live (ss_conns ss) gid i"
  have inv: "serving_inv (ss, en)" by (rule serving.inv_reach [OF assms(1)])
  have count: "conns ?st gid i = int (card ?l)" using inv assms(2,3) by (simp add: serving_inv_def)
  have fin: "finite ?l"
    using inv by (intro live_finite [of _ "hb_next (pd_hub (ss_pod ss))"]) (simp add: serving_inv_def)
  have online: "seat_online st gid i \<longleftrightarrow> 0 < conns st gid i" for st
    by (auto simp: seat_online_def conns_def split: option.split)
  have "so_presence (pd_store (ss_pod (ws_reader_ends cx k ss)))
        = (if ?l = {k} then presence_schedule gid i (so_grace ?st) (ev_now (cx_env cx)) (so_presence ?st) else so_presence ?st)
      \<and> so_notes (pd_store (ss_pod (ws_reader_ends cx k ss))) = so_notes ?st @ (if ?l = {k} then [OnPresence gid i False] else [])
      \<and> (seat_online (pd_store (ss_pod (ws_reader_ends cx k ss))) gid i \<longleftrightarrow> ?l \<noteq> {k})" if k: "k \<in> ?l"
  proof -
    obtain c where c: "ss_conns ss k = Some c" "sk_reading c" "sk_game c = gid" "sk_seat c = i" using k by (auto simp: live_def)
    have run: "pd_store (ss_pod (ws_reader_ends cx k ss)) = seat_disconnected (cx_env cx) gid i ?st"
      using c assms(3) by (simp add: ws_reader_ends_def on_store_def)
    have one: "card ?l = 1 \<longleftrightarrow> ?l = {k}" using k by (auto simp: card_1_singleton_iff)
    have pos: "0 < card ?l" using k fin by (auto simp: card_gt_0_iff)
    then have refs: "so_refs ?st gid \<noteq> None" using count by (auto simp: conns_def split: option.splits)
    have "so_presence (seat_disconnected (cx_env cx) gid i ?st)
        = (if card ?l = 1 then presence_schedule gid i (so_grace ?st) (ev_now (cx_env cx)) (so_presence ?st) else so_presence ?st)
      \<and> so_notes (seat_disconnected (cx_env cx) gid i ?st) = so_notes ?st @ (if card ?l = 1 then [OnPresence gid i False] else [])"
      using pos refs by (auto simp: seat_disconnected_def count Let_def set_conns_def notify_def)
    moreover have "0 < conns (seat_disconnected (cx_env cx) gid i ?st) gid i \<longleftrightarrow> card ?l \<noteq> 1"
      using pos by (auto simp: conns_disconnected count)
    ultimately show ?thesis unfolding run online one by simp
  qed
  then show ?thesis
    using count fin by (simp add: online card_gt_0_iff Let_def)
qed

text \<open>A player opens a connection to the game of two and says hello.\<close>

definition hello_run :: sockets where
  "hello_run = ws_message table_ctx 0 (Some (''hello'', ''a'')) (fst (ws_game table_ctx True True ''g'' (new_sockets table_pod)))"

lemma hello_facts:
  "reach serving_start serving_step (hello_run, {})" "live (ss_conns hello_run) ''g'' 0 = {0}"
proof -
  have "so_refs (pd_store table_pod) = Map.empty" by (simp add: table_pod_def table_store_def new_store_def)
  then have start: "serving_start (new_sockets table_pod, {})" by (auto simp: serving_start_def)
  show "reach serving_start serving_step (hello_run, {})"
    unfolding hello_run_def by (rule reach_step, rule reach_step, rule reach_start, rule start, rule sv_open, rule sv_message)
  let ?ss = "fst (ws_game table_ctx True True ''g'' (new_sockets table_pod))"
  have "get_game table_env ''g'' (table_store None Map.empty) = (table_store None Map.empty, Inr (Some 0))"
    by (simp add: get_game_def)
  moreover obtain h where "subscribe new_hub ''g'' = (h, 0, OnFirst ''g'')"
    by (simp add: subscribe_def new_hub_def Let_def)
  moreover have "rec_of (st\<lparr>so_bus := b\<rparr>) = rec_of st" for st :: store and b by (simp add: rec_of_def fun_eq_iff)
  ultimately obtain c where c: "ss_conns ?ss = [0 \<mapsto> c]" "sk_reading c" "sk_game c = ''g''" "sk_seat c = -1" "sk_rec c = 0"
    and r: "rec_of (pd_store (ss_pod ?ss)) 0 = table_record"
    by (simp add: ws_game_def table_ctx_def table_pod_def new_sockets_def hook_pod_def on_store_def Let_def split: prod.splits)
  have "seat_by_token (ev_hash table_env) table_record ''a'' = Some 0" by (rule table_tokens)
  then have "ss_conns hello_run = [0 \<mapsto> c\<lparr>sk_seat := 0\<rparr>]"
    using c r by (simp add: hello_run_def ws_message_def table_ctx_def empty_seat_def Let_def)
  then show "live (ss_conns hello_run) ''g'' 0 = {0}"
    using c by (auto simp: live_def)
qed

theorem presence_counts_connections_witness:
  "seat_online (pd_store (ss_pod hello_run)) ''g'' 0
   \<and> \<not> seat_online (pd_store (ss_pod (ws_reader_ends table_ctx 0 hello_run))) ''g'' 0"
  using presence_counts_connections [OF hello_facts(1), of "''g''" 0 0 table_ctx] by (simp add: hello_facts(2) Let_def)

section \<open>Whom the grace timer hits\<close>

lemma nth_of_filter:
  assumes "i < length xs" "P (xs ! i)" "\<exists>j < i. \<not> P (xs ! j)"
  obtains k where "k < i" "k < length (filter P xs)" "filter P xs ! k = xs ! i"
proof
  let ?k = "length (filter P (take i xs))"
  have xs: "filter P xs = filter P (take i xs) @ xs ! i # filter P (drop (Suc i) xs)"
    using id_take_nth_drop [OF assms(1)] assms(2) by (metis filter.simps(2) filter_append)
  obtain j where j: "j < i" "\<not> P (xs ! j)" using assms(3) by blast
  then have "xs ! j \<in> set (take i xs)" using assms(1) by (auto simp: in_set_conv_nth intro!: exI [of _ j])
  from length_filter_less [of _ _ P, OF this j(2)] show "?k < i" using assms(1) by simp
  show "?k < length (filter P xs)" "filter P xs ! ?k = xs ! i" by (simp_all add: xs)
qed

lemma start_internal_record:
  assumes "start_internal env r st = (st', Inr r')"
  shows "rec_of st' r = (rec_of st r)\<lparr>rc_seats := renumber (filter st_occupied (rc_seats (rec_of st r))), rc_status := StatusPlaying,
      rc_state := start_clock (new_game (map st_color (renumber (filter st_occupied (rc_seats (rec_of st r)))))
        (config_for (int (length (filter st_occupied (rc_seats (rec_of st r))))) (gs_config (rc_state (rec_of st r))))) (ev_now env)\<rparr>"
    "so_games st' = so_games st" "so_refs st' = so_refs st" "so_presence st' = so_presence st" "so_grace st' = so_grace st"
proof -
  let ?rc = "rec_of st r"
  let ?cfg = "config_for (int (length (filter st_occupied (rc_seats ?rc)))) (gs_config (rc_state ?rc))"
  let ?rc' = "?rc\<lparr>rc_seats := renumber (filter st_occupied (rc_seats ?rc)), rc_status := StatusPlaying,
      rc_state := start_clock (new_game (map st_color (renumber (filter st_occupied (rc_seats ?rc)))) ?cfg) (ev_now env)\<rparr>"
  have st': "st' = maybe_schedule_bot r (notify (OnState (rc_id ?rc))
       (swallow (\<lambda>d. finalize_start (ev_fail env ''FinalizeStart'') (ev_dbnow env) d (rc_id ?rc) StatusPlaying ?cfg)
         (arm_clock env r (set_rec r ?rc' st))))"
    using assms unfolding start_internal_def Let_def by (auto split: if_splits)
  show "rec_of st' r = ?rc'" by (simp add: st')
  show "so_games st' = so_games st" "so_refs st' = so_refs st" "so_presence st' = so_presence st" "so_grace st' = so_grace st"
    by (simp_all add: st' maybe_schedule_bot_def spawn_def notify_def swallow_def arm_clock_def set_rec_def Let_def split: sum.split)
qed

text \<open>C34: Starting a game with a free seat in the middle renumbers the players behind it, but not the seats their open connections registered for.
  When such a player's last connection ends after the start, the grace timer that is started is the one of the old position; when it
  fires, it forfeits whoever has that position now, which is another player, or nobody if the position is gone.\<close>

theorem grace_timer_hits_position:
  fixes cx :: ctx
  assumes "start_internal env r (pd_store (ss_pod ss)) = (st', Inr r)" "so_games (pd_store (ss_pod ss)) gid = Some r"
    "distinct (map st_color (rc_seats (rec_of (pd_store (ss_pod ss)) r)))" "i < length (rc_seats (rec_of (pd_store (ss_pod ss)) r))"
    "st_occupied (rc_seats (rec_of (pd_store (ss_pod ss)) r) ! i)" "\<exists>j < i. \<not> st_occupied (rc_seats (rec_of (pd_store (ss_pod ss)) r) ! j)"
    "ss_conns ss k = Some c" "sk_reading c" "sk_game c = gid" "sk_seat c = int i" "conns (pd_store (ss_pod ss)) gid (int i) = 1"
    "timers_inv (so_presence (pd_store (ss_pod ss)))"
  defines "s \<equiv> rc_seats (rec_of (pd_store (ss_pod ss)) r) ! i" and "seats' \<equiv> rc_seats (rec_of st' r)"
    and "now \<equiv> pd_store (ss_pod (ws_reader_ends cx k (ss\<lparr>ss_pod := (ss_pod ss)\<lparr>pd_store := st'\<rparr>\<rparr>)))"
  shows "(\<exists>m < i. m < length seats' \<and> seats' ! m = s\<lparr>st_index := int m\<rparr>)
    \<and> alarms (so_presence now) (gid, int i) = Some (ev_now (cx_env cx) + so_grace now)
    \<and> handle_disconnect_timeout env' gid (int i) now
        = (if i < length seats' then forfeit_seat env' gid r (st_color (seats' ! i)) now else now)
    \<and> (i < length seats' \<longrightarrow> st_color (seats' ! i) \<noteq> st_color s)"
proof -
  let ?st = "pd_store (ss_pod ss)" let ?occ = "filter st_occupied (rc_seats (rec_of ?st r))"
  note started = start_internal_record [OF assms(1)]
  have rec: "rc_seats (rec_of st' r) = renumber ?occ" "rc_status (rec_of st' r) = StatusPlaying" "\<not> is_over (rc_state (rec_of st' r))"
    by (simp_all add: started is_over_def start_clock_def new_game_def)
  have one: "conns st' gid (int i) = 1" using assms(11) started(3) by (simp add: conns_def)
  have "now = seat_disconnected (cx_env cx) gid (int i) st'"
    using assms(7-10) by (simp add: now_def ws_reader_ends_def on_store_def)
  also have "\<dots> = notify (OnPresence gid (int i) False) ((set_conns gid (int i) 0 st')\<lparr>so_presence :=
      presence_schedule gid (int i) (so_grace st') (ev_now (cx_env cx)) (so_presence st')\<rparr>)"
    using one by (auto simp: seat_disconnected_def Let_def set_conns_def conns_def split: option.splits)
  finally have now: "so_presence now = presence_schedule gid (int i) (so_grace st') (ev_now (cx_env cx)) (so_presence st')"
    "so_grace now = so_grace st'" "so_games now = so_games st'" "rec_of now = rec_of st'"
    by (simp_all add: notify_def set_conns_def rec_of_def fun_eq_iff)
  have alarm: "alarms (so_presence now) (gid, int i) = Some (ev_now (cx_env cx) + so_grace now)"
    using assms(12) by (simp add: now presence_schedule_def alarms_start started(4))
  have len: "length seats' = length ?occ" unfolding seats'_def rec by simp
  have nth: "seats' ! m = (?occ ! m)\<lparr>st_index := int m\<rparr>" if "m < length ?occ" for m
    unfolding seats'_def rec using that by (simp add: renumber_nth)
  obtain m where m: "m < i" "m < length ?occ" "?occ ! m = s"
    unfolding s_def by (rule nth_of_filter [OF assms(4-6)])
  have "st_color (seats' ! i) \<noteq> st_color s" if "i < length seats'"
  proof -
    have "distinct (map st_color ?occ)" using assms(3) by (simp add: distinct_map_filter)
    then have "map st_color ?occ ! i \<noteq> map st_color ?occ ! m"
      using that m(1,2) unfolding len by (subst nth_eq_iff_index_eq) simp_all
    then show ?thesis using m(2,3) nth [of i] that unfolding len by simp
  qed
  moreover have "handle_disconnect_timeout env' gid (int i) now
        = (if i < length seats' then forfeit_seat env' gid r (st_color (seats' ! i)) now else now)"
    using rec assms(2) by (simp add: handle_disconnect_timeout_def now started(2) seats'_def seat_at_def)
  moreover have "\<exists>m < i. m < length seats' \<and> seats' ! m = s\<lparr>st_index := int m\<rparr>"
    using m nth [of m] len by auto
  ultimately show ?thesis using alarm by blast
qed

text \<open>Three seats of which the middle one is free, and the connection of the player at the third.\<close>

definition gap_sockets :: sockets where
  "gap_sockets = (new_sockets (table_pod\<lparr>pd_store := gap_store\<lparr>so_refs := [''g'' \<mapsto> (\<lambda>_. 0)(2 := 1)]\<rparr>\<rparr>))
     \<lparr>ss_conns := [0 \<mapsto> \<lparr>sk_game = ''g'', sk_rec = 0, sk_seat = 2, sk_reading = True, sk_writing = True, sk_sent = []\<rparr>]\<rparr>"

theorem grace_timer_hits_position_witness:
  "\<exists>st' now. start_internal sample_env 0 (pd_store (ss_pod gap_sockets)) = (st', Inr 0)
     \<and> now = pd_store (ss_pod (ws_reader_ends table_ctx 0 (gap_sockets\<lparr>ss_pod := (ss_pod gap_sockets)\<lparr>pd_store := st'\<rparr>\<rparr>)))
     \<and> alarms (so_presence now) (''g'', 2) = Some (5000000 + so_grace now)
     \<and> handle_disconnect_timeout sample_env ''g'' 2 now = now \<and> (\<exists>m < 2. st_color (rc_seats (rec_of st' 0) ! m) = 3)"
proof -
  let ?st = "pd_store (ss_pod gap_sockets)"
  have st: "?st = gap_store\<lparr>so_refs := [''g'' \<mapsto> (\<lambda>_. 0)(2 := 1)]\<rparr>" by (simp add: gap_sockets_def new_sockets_def)
  have rec: "rec_of ?st 0 = gap_record" using gap_facts by (simp add: st rec_of_def)
  have "\<exists>st'. start_internal sample_env 0 ?st = (st', Inr 0)"
    by (simp add: start_internal_def rec Let_def) (simp add: gap_record_def empty_seat_def)
  then obtain st' where st': "start_internal sample_env 0 ?st = (st', Inr 0)" ..
  have seats: "rc_seats (rec_of ?st 0) = [(empty_seat 0 1)\<lparr>st_occupied := True\<rparr>, empty_seat 1 2, (empty_seat 2 3)\<lparr>st_occupied := True\<rparr>]"
    unfolding rec by (simp add: gap_record_def)
  have g: "so_games ?st ''g'' = Some 0" "conns ?st ''g'' 2 = 1" "timers_inv (so_presence ?st)"
    by (simp_all add: st conns_def) (simp_all add: gap_store_def new_store_def timers_inv_new)
  have len: "length (rc_seats (rec_of st' 0)) = 2" by (simp add: start_internal_record [OF st'] seats) (simp add: empty_seat_def)
  have free: "\<exists>j < 2. \<not> st_occupied (rc_seats (rec_of ?st 0) ! j)"
    by (rule exI [of _ 1]) (simp add: seats empty_seat_def)
  have conn: "ss_conns gap_sockets 0 = Some \<lparr>sk_game = ''g'', sk_rec = 0, sk_seat = 2, sk_reading = True, sk_writing = True, sk_sent = []\<rparr>"
    by (simp add: gap_sockets_def)
  have two: "int 2 = 2" by simp
  have player: "distinct (map st_color (rc_seats (rec_of ?st 0)))" "2 < length (rc_seats (rec_of ?st 0))" "st_occupied (rc_seats (rec_of ?st 0) ! 2)"
    by (simp_all add: seats empty_seat_def)
  note hit = grace_timer_hits_position [OF st' g(1) player free conn, of table_ctx sample_env, unfolded two, OF _ _ _ g(2,3)]
  let ?now = "pd_store (ss_pod (ws_reader_ends table_ctx 0 (gap_sockets\<lparr>ss_pod := (ss_pod gap_sockets)\<lparr>pd_store := st'\<rparr>\<rparr>)))"
  have "alarms (so_presence ?now) (''g'', 2) = Some (5000000 + so_grace ?now)" "handle_disconnect_timeout sample_env ''g'' 2 ?now = ?now"
    using hit by (simp_all add: len table_ctx_def)
  moreover obtain m where "m < 2" "rc_seats (rec_of st' 0) ! m = (rc_seats (rec_of ?st 0) ! 2)\<lparr>st_index := int m\<rparr>"
    using hit by auto
  then have "\<exists>m < 2. st_color (rc_seats (rec_of st' 0) ! m) = 3" by (intro exI [of _ m]) (simp add: seats empty_seat_def)
  ultimately show ?thesis using st' by blast
qed

end
