(* ===== verification/Client.thy ===== *)
theory Client
  imports Handlers
begin

text \<open>
  The end of the way of an event: the socket of a browser, \<open>web/src/api/gameSocket.ts\<close>, which keeps the number of the last event it
  applied, skips what it has seen and fetches what it missed, and the first message of a connection, whose snapshot and
  number \<open>wsGame\<close> reads one after the other. What the listeners make of an event is left out: applying one appends it to a list.
\<close>

record client_event =
  ce_type :: string
  ce_seq :: "int option"
  ce_body :: string

record client =
  cc_last :: "int option"
  cc_applied :: "client_event list"

definition new_client :: client where
  "new_client = \<lparr>cc_last = None, cc_applied = []\<rparr>"

text \<open>A number of zero is not rendered.\<close>

definition wire_event :: "string \<Rightarrow> int \<Rightarrow> string \<Rightarrow> client_event" where
  "wire_event ty seq body = \<lparr>ce_type = ty, ce_seq = (if seq = 0 then None else Some seq), ce_body = body\<rparr>"

definition row_event :: "event_row \<Rightarrow> client_event" where
  "row_event row = wire_event (ew_type row) (ew_seq row) (ew_payload row)"

definition apply_client_event :: "client_event \<Rightarrow> client \<Rightarrow> client" where
  "apply_client_event ev c = c\<lparr>cc_applied := cc_applied c @ [ev]\<rparr>"

text \<open>\<open>fetchCatchup\<close>: the rows of a successful answer that are new; any other answer changes nothing.\<close>

fun apply_rows :: "event_row list \<Rightarrow> client \<Rightarrow> client" where
  "apply_rows [] c = c"
| "apply_rows (row # rows) c =
     apply_rows rows (case cc_last c of
       Some l \<Rightarrow> if ew_seq row \<le> l then c else (apply_client_event (row_event row) c)\<lparr>cc_last := Some (ew_seq row)\<rparr>
     | None \<Rightarrow> (apply_client_event (row_event row) c)\<lparr>cc_last := Some (ew_seq row)\<rparr>)"

definition fetch_catchup :: "(int \<Rightarrow> response) \<Rightarrow> client \<Rightarrow> client" where
  "fetch_catchup get c =
     (case cc_last c of
        None \<Rightarrow> c
      | Some l \<Rightarrow> (case get l of Resp s (EventsBody rows) \<Rightarrow> if s div 100 = 2 then apply_rows rows c else c | _ \<Rightarrow> c))"

definition process_event :: "(int \<Rightarrow> response) \<Rightarrow> client_event \<Rightarrow> client \<Rightarrow> client" where
  "process_event get ev c =
     (case (ce_seq ev, cc_last c) of
        (Some k, Some l) \<Rightarrow>
          if k \<le> l then c
          else let c1 = (if k > l + 1 then fetch_catchup get c else c)
               in case cc_last c1 of
                    Some l1 \<Rightarrow> if k \<le> l1 then c1 else (apply_client_event ev c1)\<lparr>cc_last := Some k\<rparr>
                  | None \<Rightarrow> (apply_client_event ev c1)\<lparr>cc_last := Some k\<rparr>
      | (Some k, None) \<Rightarrow> (apply_client_event ev c)\<lparr>cc_last := Some k\<rparr>
      | (None, _) \<Rightarrow> apply_client_event ev c)"

text \<open>Each received event with the answers the server gives while it is processed.\<close>

definition process_events :: "((int \<Rightarrow> response) \<times> client_event) list \<Rightarrow> client \<Rightarrow> client" where
  "process_events evs c = foldl (\<lambda>c (get, ev). process_event get ev c) c evs"

text \<open>
  The first message of a connection: the snapshot is taken from the record in memory, then the number is read from the
  database, where other requests may have written in between. A number that cannot be read is zero.
\<close>

definition opening_snapshot :: "store \<Rightarrow> nat \<Rightarrow> event" where
  "opening_snapshot st r = event_state (to_game_dto (rec_of st r))"

definition opening_number :: "bool \<Rightarrow> store \<Rightarrow> string \<Rightarrow> int" where
  "opening_number bad st gid = (case current_event_seq bad (so_db st) gid of Inl _ \<Rightarrow> 0 | Inr n \<Rightarrow> n)"

definition opening_message :: "codec \<Rightarrow> event \<Rightarrow> int \<Rightarrow> client_event option" where
  "opening_message cd ev seq = map_option (wire_event (evt_type ev) seq) (mj_payload cd (evt_payload ev))"

end
