(* ===== verification/Client_Props.thy ===== *)
theory Client_Props
  imports Client Events_Props Handlers_Props "HOL-Library.Sublist"
begin

text \<open>
  What reaches a browser: as long as its catch-up requests are answered it applies the log of the game in order, each event once,
  whatever is lost, repeated or late on the way; and what it skips once is lost to it.
\<close>

section \<open>The log\<close>

definition numbered :: "event_row list \<Rightarrow> bool" where
  "numbered L \<longleftrightarrow> (\<forall>i < length L. ew_seq (L ! i) = int i + 1)"

lemma numbered_upto: "map ew_seq L = [1..n] \<Longrightarrow> numbered L"
proof -
  assume m: "map ew_seq L = [1..n]"
  have "ew_seq (L ! i) = int i + 1" if "i < length L" for i
  proof -
    have "ew_seq (L ! i) = [1..n] ! i" using that m by (metis nth_map)
    also have "\<dots> = 1 + int i" using that m by (intro nth_upto) (metis length_map length_upto nat_less_iff zle_diff1_eq add.commute diff_add_cancel zless_nat_eq_int_zless add_le_cancel_left)
    finally show ?thesis by simp
  qed
  then show ?thesis by (simp add: numbered_def)
qed

lemma numbered_drop: "numbered L \<Longrightarrow> filter (\<lambda>e. int k < ew_seq e) L = drop k L"
proof -
  assume L: "numbered L"
  have "filter (\<lambda>e. int k < ew_seq e) (take k L) = []"
    using L by (auto simp: filter_empty_conv in_set_conv_nth numbered_def)
  moreover have "filter (\<lambda>e. int k < ew_seq e) (drop k L) = drop k L"
    using L by (auto simp: filter_id_conv in_set_conv_nth numbered_def)
  ultimately show ?thesis by (metis append_Nil append_take_drop_id filter_append)
qed

lemma log_of_table:
  assumes "reach (\<lambda>d. d = empty_db) db_step d" "game_of d gid = Some r"
  shows "numbered (game_events d gid)" "gw_event_seq r = int (length (game_events d gid))"
    "events_since False d gid (int k) n = Inr (take n (drop k (game_events d gid)))"
proof -
  have wf: "db_wf d" by (rule tables.inv_reach [OF assms(1)])
  note ev = sorted_events [OF wf assms(2)]
  show L: "numbered (game_events d gid)" using ev(1) by (rule numbered_upto)
  have "0 \<le> gw_event_seq r" using wf game_of_Some [OF assms(2)] by (auto simp: db_wf_def log_ok_def)
  then show "gw_event_seq r = int (length (game_events d gid))"
    using arg_cong [OF ev(1), of length] by simp
  have rows: "filter (\<lambda>e. ew_game e = gid \<and> int k < ew_seq e) (db_events d) = drop k (game_events d gid)"
    using numbered_drop [OF L, of k] by (simp add: game_events_def)
  moreover have "sorted (map ew_seq (drop k (game_events d gid)))"
    using ev(2) by (simp add: drop_map [symmetric] sorted_wrt_drop)
  ultimately show "events_since False d gid (int k) n = Inr (take n (drop k (game_events d gid)))"
    by (simp add: events_since_def sort_key_id_if_sorted)
qed

section \<open>One event\<close>

text \<open>What a client that has applied the first \<open>l\<close> rows of a log is after \<open>m\<close> rows.\<close>

definition caught_up :: "event_row list \<Rightarrow> nat \<Rightarrow> nat \<Rightarrow> client \<Rightarrow> client" where
  "caught_up L l m c = c\<lparr>cc_applied := cc_applied c @ map row_event (take (m - l) (drop l L)), cc_last := Some (int m)\<rparr>"

lemma caught_up_trans: "l \<le> m \<Longrightarrow> m \<le> k \<Longrightarrow> caught_up L m k (caught_up L l m c) = caught_up L l k c"
proof -
  assume le: "l \<le> m" "m \<le> k"
  then have "take (k - l) (drop l L) = take (m - l) (drop l L) @ take (k - m) (drop m L)"
    using take_add [of "m - l" "k - m" "drop l L"] by simp
  then show ?thesis by (simp add: caught_up_def)
qed

lemma caught_up_same: "cc_last c = Some (int l) \<Longrightarrow> caught_up L l l c = c"
  by (simp add: caught_up_def)

lemma caught_up_next:
  assumes "numbered L" "l < length L"
  shows "caught_up L l (Suc l) c = (apply_client_event (row_event (L ! l)) c)\<lparr>cc_last := Some (ew_seq (L ! l))\<rparr>"
proof -
  have "take (Suc l - l) (drop l L) = [L ! l]" using assms(2) by (simp add: Cons_nth_drop_Suc [symmetric])
  then show ?thesis using assms by (simp add: caught_up_def apply_client_event_def numbered_def)
qed

lemma apply_new_rows:
  assumes "numbered L"
  shows "cc_last c = Some (int l) \<Longrightarrow> m \<le> length L \<Longrightarrow> l \<le> m \<Longrightarrow> apply_rows (take (m - l) (drop l L)) c = caught_up L l m c"
proof (induction "m - l" arbitrary: l c)
  case 0
  then show ?case by (simp add: caught_up_same)
next
  case (Suc k)
  then have l: "l < m" "l < length L" by simp_all
  let ?c = "caught_up L l (Suc l) c"
  have "take (m - l) (drop l L) = L ! l # take (m - Suc l) (drop (Suc l) L)"
    using l by (simp add: Cons_nth_drop_Suc [symmetric] Suc_diff_Suc [symmetric])
  moreover have "ew_seq (L ! l) = int l + 1" using assms l(2) by (simp add: numbered_def)
  ultimately have "apply_rows (take (m - l) (drop l L)) c = apply_rows (take (m - Suc l) (drop (Suc l) L)) ?c"
    using Suc.prems(1) caught_up_next [OF assms l(2)] by simp
  also have "\<dots> = caught_up L (Suc l) m ?c" using Suc.hyps(2) Suc.prems(2) l by (intro Suc.hyps(1)) (auto simp: caught_up_def)
  also have "\<dots> = caught_up L l m c" using l by (intro caught_up_trans) simp_all
  finally show ?case .
qed

text \<open>A server whose tables hold the first rows of the log, and which answers.\<close>

definition served_from :: "ctx \<Rightarrow> string \<Rightarrow> event_row list \<Rightarrow> pod \<Rightarrow> bool" where
  "served_from cx gid L p \<longleftrightarrow> reach (\<lambda>d. d = empty_db) db_step (so_db (pd_store p)) \<and> game_of (so_db (pd_store p)) gid \<noteq> None
     \<and> prefix (game_events (so_db (pd_store p)) gid) L \<and> \<not> ev_fail (cx_env cx) ''EventsSince''"

definition on_its_way :: "ctx \<Rightarrow> string \<Rightarrow> event_row list \<Rightarrow> (int \<Rightarrow> response) \<times> client_event \<Rightarrow> bool" where
  "on_its_way cx gid L x \<longleftrightarrow> (\<exists>p. served_from cx gid L p \<and> fst x = (\<lambda>k. http_get_game_events cx gid (Some (Some k)) p)
     \<and> (\<exists>row \<in> set (game_events (so_db (pd_store p)) gid). snd x = row_event row))"

lemma one_event:
  assumes L: "numbered L" and way: "on_its_way cx gid L (get, ev)" and last: "cc_last c = Some (int l)"
    and few: "length L - l \<le> catchupLimit" and l: "l \<le> length L"
  shows "\<exists>m. l \<le> m \<and> m \<le> length L \<and> process_event get ev c = caught_up L l m c \<and> (\<exists>k. ce_seq ev = Some k \<and> k \<le> int m)"
proof -
  obtain p row where p: "served_from cx gid L p" "get = (\<lambda>k. http_get_game_events cx gid (Some (Some k)) p)"
    "row \<in> set (game_events (so_db (pd_store p)) gid)" "ev = row_event row"
    using way by (auto simp: on_its_way_def)
  let ?M = "game_events (so_db (pd_store p)) gid"
  have M: "?M = take (length ?M) L" "length ?M \<le> length L" using p(1) by (auto simp: served_from_def prefix_def)
  obtain j where j: "j < length ?M" "row = L ! j" using p(3) M(1) by (metis in_set_conv_nth nth_take)
  have seq: "ew_seq row = int j + 1" using L j M(2) by (simp add: numbered_def)
  then have ev: "ce_seq ev = Some (int j + 1)" by (simp add: p(4) row_event_def wire_event_def)
  obtain r where r: "game_of (so_db (pd_store p)) gid = Some r" using p(1) by (auto simp: served_from_def)
  have get: "get (int l) = Resp 200 (EventsBody (take (length ?M - l) (drop l L)))"
  proof -
    have "events_since False (so_db (pd_store p)) gid (int l) catchupLimit = Inr (take catchupLimit (drop l ?M))"
      using log_of_table(3) [OF _ r] p(1) by (simp add: served_from_def)
    also have "take catchupLimit (drop l ?M) = drop l ?M" using few M(2) by simp
    also have "drop l ?M = take (length ?M - l) (drop l L)" by (subst M(1)) (simp add: drop_take)
    finally show ?thesis using p(1) by (simp add: p(2) http_get_game_events_def served_from_def)
  qed
  consider "j < l" | "j = l" | "l < j" by linarith
  then show ?thesis
  proof cases
    case 1
    then show ?thesis using ev last l by (intro exI [of _ l]) (simp add: process_event_def caught_up_same)
  next
    case 2
    have "process_event get ev c = caught_up L l (Suc l) c"
      using 2 ev last seq j M(2) by (simp add: process_event_def caught_up_next [OF L] p(4))
    then show ?thesis using 2 j M(2) ev by (intro exI [of _ "Suc l"]) simp
  next
    case 3
    have "fetch_catchup get c = caught_up L l (length ?M) c"
      using apply_new_rows [OF L last M(2)] 3 j by (simp add: fetch_catchup_def last get)
    then have "process_event get ev c = caught_up L l (length ?M) c"
      using 3 ev last j by (simp add: process_event_def caught_up_def)
    then show ?thesis using 3 j M(2) ev by (intro exI [of _ "length ?M"]) simp
  qed
qed

section \<open>The stream of events\<close>

text \<open>C15: Once a client has the number of a row it applies the log of the game in order, without gap or repetition: whatever events are
  lost, repeated or come late, after any number of them it has applied exactly the rows up to some later one, and none
  it received is left out. The catch-up requests have to be answered, and it may lag by a thousand rows at most.\<close>

theorem clients_apply_the_log:
  assumes "reach (\<lambda>d. d = empty_db) db_step d" "game_of d gid = Some r" "cc_last c = Some (int l)" "int l \<le> gw_event_seq r"
    "gw_event_seq r - int l \<le> int catchupLimit" "\<forall>x \<in> set evs. on_its_way cx gid (game_events d gid) x"
  shows "\<exists>m. l \<le> m \<and> int m \<le> gw_event_seq r
    \<and> process_events evs c = c\<lparr>cc_applied := cc_applied c @ map row_event (take (m - l) (drop l (game_events d gid))), cc_last := Some (int m)\<rparr>
    \<and> (\<forall>x \<in> set evs. \<exists>k. ce_seq (snd x) = Some k \<and> k \<le> int m)"
proof -
  let ?L = "game_events d gid"
  note log = log_of_table(1,2) [OF assms(1,2)]
  have "\<exists>m. l \<le> m \<and> m \<le> length ?L \<and> process_events evs c = caught_up ?L l m c \<and> (\<forall>x \<in> set evs. \<exists>k. ce_seq (snd x) = Some k \<and> k \<le> int m)"
    using assms(6)
  proof (induction evs rule: rev_induct)
    case Nil
    then show ?case using assms(3,4) log(2) by (intro exI [of _ l]) (simp add: process_events_def caught_up_same)
  next
    case (snoc x evs)
    obtain get ev where x: "x = (get, ev)" by (cases x)
    obtain m where m: "l \<le> m" "m \<le> length ?L" "process_events evs c = caught_up ?L l m c"
      "\<forall>x \<in> set evs. \<exists>k. ce_seq (snd x) = Some k \<and> k \<le> int m"
      using snoc by auto
    have "cc_last (caught_up ?L l m c) = Some (int m)" "length ?L - m \<le> catchupLimit"
      using assms(5) log(2) m(1) by (auto simp: caught_up_def)
    moreover have "on_its_way cx gid ?L (get, ev)" using snoc.prems x by simp
    ultimately obtain m' where m': "m \<le> m'" "m' \<le> length ?L" "process_event get ev (caught_up ?L l m c) = caught_up ?L m m' (caught_up ?L l m c)"
      "\<exists>k. ce_seq ev = Some k \<and> k \<le> int m'"
      using one_event [OF log(1) _ _ _ m(2)] by blast
    have "process_events (evs @ [x]) c = caught_up ?L l m' c"
      using m(3) m'(3) caught_up_trans [OF m(1) m'(1)] by (simp add: process_events_def x)
    moreover have "\<forall>x \<in> set (evs @ [x]). \<exists>k. ce_seq (snd x) = Some k \<and> k \<le> int m'"
      using m(4) m'(1,4) by (fastforce simp: x)
    ultimately show ?case using m(1) m'(1,2) by (intro exI [of _ m']) auto
  qed
  then show ?thesis using log(2) by (auto simp: caught_up_def)
qed

text \<open>A server with a game of two events.\<close>

definition two_pod :: pod where
  "two_pod = sample_pod ''a'' (sample_db (map sample_event [1..2]))"

lemma two_pod_facts:
  "reach (\<lambda>d. d = empty_db) db_step (so_db (pd_store two_pod))" "game_of (so_db (pd_store two_pod)) ''g'' = Some (sample_row 2)"
  "game_events (so_db (pd_store two_pod)) ''g'' = [sample_event 1, sample_event 2]"
  using sample_reach_db [of 2]
  by (simp_all add: two_pod_def sample_pod_def new_store_def sample_db_def game_of_def sample_row_def game_events_def sample_event_def
      upto_rec1)

theorem clients_apply_the_log_witness:
  "cc_applied (process_events [(\<lambda>k. http_get_game_events table_ctx ''g'' (Some (Some k)) two_pod, row_event (sample_event 2))]
     (new_client\<lparr>cc_last := Some 0\<rparr>)) = [row_event (sample_event 1), row_event (sample_event 2)]"
proof -
  let ?x = "(\<lambda>k. http_get_game_events table_ctx ''g'' (Some (Some k)) two_pod, row_event (sample_event 2))"
  have s: "served_from table_ctx ''g'' (game_events (so_db (pd_store two_pod)) ''g'') two_pod"
    using two_pod_facts(1,2) by (simp add: served_from_def table_ctx_def)
  have w: "on_its_way table_ctx ''g'' (game_events (so_db (pd_store two_pod)) ''g'') ?x"
    unfolding on_its_way_def by (rule exI [of _ two_pod]) (simp add: s, simp add: two_pod_facts)
  have "\<exists>m. 0 \<le> m \<and> int m \<le> gw_event_seq (sample_row 2)
    \<and> process_events [?x] (new_client\<lparr>cc_last := Some 0\<rparr>) = (new_client\<lparr>cc_last := Some 0\<rparr>)\<lparr>cc_applied := cc_applied (new_client\<lparr>cc_last := Some 0\<rparr>)
       @ map row_event (take (m - 0) (drop 0 (game_events (so_db (pd_store two_pod)) ''g''))), cc_last := Some (int m)\<rparr>
    \<and> (\<forall>x \<in> set [?x]. \<exists>k. ce_seq (snd x) = Some k \<and> k \<le> int m)"
    using w two_pod_facts(1,2) by (intro clients_apply_the_log) (auto simp: sample_row_def catchupLimit_def)
  then show ?thesis
    by (auto simp: two_pod_facts sample_row_def sample_event_def row_event_def wire_event_def new_client_def numeral_2_eq_2)
qed

section \<open>What is skipped\<close>

text \<open>The number of a client never falls, and what it applies is newer.\<close>

definition newer :: "int \<Rightarrow> client \<Rightarrow> client \<Rightarrow> bool" where
  "newer k c c' \<longleftrightarrow> (\<exists>evs l. cc_applied c' = cc_applied c @ evs \<and> cc_last c' = Some l \<and> k \<le> l
     \<and> (\<forall>ev \<in> set evs. case ce_seq ev of None \<Rightarrow> True | Some s \<Rightarrow> k < s))"

lemma newer_refl: "cc_last c = Some l \<Longrightarrow> k \<le> l \<Longrightarrow> newer k c c"
  by (auto simp: newer_def)

lemma newer_trans: "newer k c c1 \<Longrightarrow> newer k c1 c2 \<Longrightarrow> newer k c c2"
  unfolding newer_def by (elim exE conjE) (auto split: option.splits)

lemma newer_apply:
  assumes "cc_last c = Some l" "k \<le> l" "case ce_seq ev of None \<Rightarrow> True | Some s \<Rightarrow> l < s"
  shows "newer k c (apply_client_event ev c)" "l < s \<Longrightarrow> newer k c ((apply_client_event ev c)\<lparr>cc_last := Some s\<rparr>)"
  using assms by (auto simp: newer_def apply_client_event_def split: option.splits)

lemma newer_rows: "cc_last c = Some l \<Longrightarrow> k \<le> l \<Longrightarrow> newer k c (apply_rows rows c)"
proof (induction rows arbitrary: c l)
  case Nil
  then show ?case by (simp add: newer_refl)
next
  case (Cons row rows)
  show ?case
  proof (cases "ew_seq row \<le> l")
    case True
    then show ?thesis using Cons by simp
  next
    case False
    let ?c = "(apply_client_event (row_event row) c)\<lparr>cc_last := Some (ew_seq row)\<rparr>"
    have "case ce_seq (row_event row) of None \<Rightarrow> True | Some s \<Rightarrow> l < s" using False by (simp add: row_event_def wire_event_def)
    then have "newer k c ?c" using False newer_apply(2) [OF Cons.prems, of "row_event row" "ew_seq row"] by simp
    moreover have "newer k ?c (apply_rows rows ?c)" using False Cons.prems(2) by (intro Cons.IH [of _ "ew_seq row"]) simp_all
    ultimately have "newer k c (apply_rows rows ?c)" by (rule newer_trans)
    then show ?thesis using False Cons.prems(1) by simp
  qed
qed

lemma newer_process: "cc_last c = Some l \<Longrightarrow> k \<le> l \<Longrightarrow> newer k c (process_event get ev c)"
proof (cases "ce_seq ev")
  case None
  assume "cc_last c = Some l" "k \<le> l"
  then show ?thesis using None newer_apply(1) [of c l k ev] by (simp add: process_event_def)
next
  case (Some s)
  assume c: "cc_last c = Some l" "k \<le> l"
  let ?c = "if s > l + 1 then fetch_catchup get c else c"
  have same: "newer k c c" using c by (rule newer_refl)
  have rows: "newer k c (apply_rows rows c)" for rows using c by (rule newer_rows)
  have fetched: "newer k c ?c" using same rows c by (simp add: fetch_catchup_def split: response.splits body.splits)
  then obtain l1 where l1: "cc_last ?c = Some l1" "k \<le> l1" by (auto simp: newer_def)
  show ?thesis
  proof (cases "s \<le> l")
    case True
    then show ?thesis using c Some newer_refl by (simp add: process_event_def)
  next
    case False
    then have step: "process_event get ev c = (if s \<le> l1 then ?c else (apply_client_event ev ?c)\<lparr>cc_last := Some s\<rparr>)"
      using c(1) Some l1(1) by (simp add: process_event_def Let_def)
    show ?thesis
    proof (cases "s \<le> l1")
      case True
      then show ?thesis using step fetched by simp
    next
      case False
      then have "newer k ?c ((apply_client_event ev ?c)\<lparr>cc_last := Some s\<rparr>)" using newer_apply(2) [OF l1, of ev s] Some by simp
      with fetched have "newer k c ((apply_client_event ev ?c)\<lparr>cc_last := Some s\<rparr>)" by (rule newer_trans)
      then show ?thesis using step False by simp
    qed
  qed
qed

lemma newer_stream: "cc_last c = Some l \<Longrightarrow> k \<le> l \<Longrightarrow> newer k c (process_events evs c)"
proof (induction evs arbitrary: c l)
  case (Cons x evs)
  obtain get ev where x: "x = (get, ev)" by (cases x)
  have n: "newer k c (process_event get ev c)" by (rule newer_process [OF Cons.prems])
  then obtain l1 where "cc_last (process_event get ev c) = Some l1" "k \<le> l1" by (auto simp: newer_def)
  then have "newer k (process_event get ev c) (process_events evs (process_event get ev c))" by (rule Cons.IH)
  with n have "newer k c (process_events evs (process_event get ev c))" by (rule newer_trans)
  then show ?case by (simp add: process_events_def x)
qed (simp add: process_events_def newer_refl)

lemma newer_only:
  assumes "cc_last c = Some k"
  shows "\<exists>new. cc_applied (process_events evs c) = cc_applied c @ new \<and> (\<forall>ev \<in> set new. \<forall>s. ce_seq ev = Some s \<longrightarrow> k < s)"
  using newer_stream [OF assms, of k evs] by (auto simp: newer_def split: option.splits)

text \<open>C35: An event that is appended while a connection is opened may never reach the browser: when it comes between the snapshot and the
  number read from the database, the first message holds the state without it under its number. A new client, and one that
  had seen everything before, take the number over, and from then on whatever is sent they apply nothing with that number.\<close>

theorem events_are_lost_while_opening:
  assumes "reach (\<lambda>d. d = empty_db) db_step (so_db st)" "append_event False (so_db st) gid ty body epoch = Inr (so_db st', k)"
    "opening_message cd (opening_snapshot st r) (opening_number False st' gid) = Some m" "cc_last c = None \<or> cc_last c = Some (k - 1)"
  shows "process_event get m c = c\<lparr>cc_applied := cc_applied c @ [m], cc_last := Some k\<rparr>
    \<and> (\<exists>new. cc_applied (process_events evs (process_event get m c)) = cc_applied c @ [m] @ new
         \<and> (\<forall>ev \<in> set new. \<forall>s. ce_seq ev = Some s \<longrightarrow> k < s))"
proof -
  obtain w where w: "game_of (so_db st) gid = Some w" "k = gw_event_seq w + 1"
    and d: "\<exists>es. so_db st' = (update_game gid (\<lambda>r. r\<lparr>gw_event_seq := k\<rparr>) (so_db st))\<lparr>db_events := es\<rparr>"
    using assms(2) [symmetric] by (cases "game_of (so_db st) gid") (auto simp: append_event_def Let_def split: if_splits)
  have "game_of (so_db st') gid = Some (w\<lparr>gw_event_seq := k\<rparr>)"
  proof -
    have "game_of (update_game gid (\<lambda>r. r\<lparr>gw_event_seq := k\<rparr>) (so_db st)) gid = Some (w\<lparr>gw_event_seq := k\<rparr>)"
      using w(1) by (subst game_of_update) simp_all
    moreover have "game_of (x\<lparr>db_events := es\<rparr>) gid = game_of x gid" for x es by (simp add: game_of_def)
    ultimately show ?thesis using d by auto
  qed
  then have "opening_number False st' gid = k" by (simp add: opening_number_def current_event_seq_def)
  moreover have "0 < k" using log_of_table(2) [OF assms(1) w(1)] w(2) by simp
  ultimately have "ce_seq m = Some k" using assms(3) by (auto simp: opening_message_def wire_event_def)
  then have m: "process_event get m c = c\<lparr>cc_applied := cc_applied c @ [m], cc_last := Some k\<rparr>"
    using assms(4) by (auto simp: process_event_def apply_client_event_def)
  with newer_only [of "process_event get m c" k evs] show ?thesis by simp
qed

theorem events_are_lost_while_opening_witness:
  "\<exists>st' :: store. \<exists>m. append_event False (so_db (pd_store two_pod)) ''g'' ''chat'' ''hi'' 0 = Inr (so_db st', 3)
     \<and> (\<forall>get. process_events [(get, m), (get, wire_event ''chat'' 3 ''hi'')] new_client = \<lparr>cc_last = Some 3, cc_applied = [m]\<rparr>)"
proof -
  let ?st = "pd_store two_pod"
  obtain d where d: "append_event False (so_db ?st) ''g'' ''chat'' ''hi'' 0 = Inr (d, 3)"
    by (simp add: append_event_def two_pod_facts(2))
       (simp add: two_pod_def sample_pod_def new_store_def sample_db_def empty_db_def fence_passes_def sample_row_def Let_def)
  let ?st' = "?st\<lparr>so_db := d\<rparr>"
  have d': "append_event False (so_db ?st) ''g'' ''chat'' ''hi'' 0 = Inr (so_db ?st', 3)" using d by simp
  obtain m where m: "opening_message sample_codec (opening_snapshot ?st 0) (opening_number False ?st' ''g'') = Some m"
    by (simp add: opening_message_def sample_codec_def)
  have "process_event get m new_client = new_client\<lparr>cc_applied := cc_applied new_client @ [m], cc_last := Some 3\<rparr>" for get
    using events_are_lost_while_opening [OF two_pod_facts(1) d' m, of new_client get "[]"] by (simp add: new_client_def)
  then have "process_events [(get, m), (get, wire_event ''chat'' 3 ''hi'')] new_client = \<lparr>cc_last = Some 3, cc_applied = [m]\<rparr>" for get
    by (simp add: process_events_def new_client_def) (simp add: process_event_def wire_event_def)
  with d' show ?thesis by blast
qed

text \<open>C36: The same is true of a catch-up that falls short: when the request fails, or when more than a thousand rows are missing, the event
  at hand is applied all the same and its number is kept, so that the rows in between are never applied.\<close>

theorem short_catch_ups_lose_events:
  assumes "reach (\<lambda>d. d = empty_db) db_step (so_db (pd_store p))" "game_of (so_db (pd_store p)) gid = Some r"
    "cc_last c = Some (int l)" "ce_seq ev = Some k" "int (l + got) + 1 < k" "k \<le> gw_event_seq r"
    "got = (if ev_fail (cx_env cx) ''EventsSince'' then 0 else catchupLimit)"
  shows "\<exists>c'. process_event (\<lambda>n. http_get_game_events cx gid (Some (Some n)) p) ev c = c'
    \<and> cc_applied c' = cc_applied c @ map row_event (take got (drop l (game_events (so_db (pd_store p)) gid))) @ [ev] \<and> cc_last c' = Some k
    \<and> (\<forall>evs. \<exists>new. cc_applied (process_events evs c') = cc_applied c' @ new \<and> (\<forall>e \<in> set new. \<forall>s. ce_seq e = Some s \<longrightarrow> k < s))"
proof -
  let ?L = "game_events (so_db (pd_store p)) gid" and ?get = "\<lambda>n. http_get_game_events cx gid (Some (Some n)) p"
  note log = log_of_table [OF assms(1,2)]
  have few: "l + got \<le> length ?L" using assms(5,6) log(2) by simp
  have "fetch_catchup ?get c = caught_up ?L l (l + got) c"
  proof (cases "ev_fail (cx_env cx) ''EventsSince''")
    case True
    then show ?thesis using assms(3,7) by (simp add: fetch_catchup_def http_get_game_events_def events_since_def caught_up_same)
  next
    case False
    then show ?thesis using assms(3,7) log(3) apply_new_rows [OF log(1) assms(3) few]
      by (simp add: fetch_catchup_def http_get_game_events_def)
  qed
  then have c': "process_event ?get ev c = (apply_client_event ev (caught_up ?L l (l + got) c))\<lparr>cc_last := Some k\<rparr>"
    using assms(3-5) by (simp add: process_event_def caught_up_def)
  let ?c' = "process_event ?get ev c"
  have "cc_last ?c' = Some k" "cc_applied ?c' = cc_applied c @ map row_event (take got (drop l ?L)) @ [ev]"
    by (simp_all add: c' caught_up_def apply_client_event_def)
  then show ?thesis using newer_only [of ?c' k] by blast
qed


text \<open>A server that cannot read its events.\<close>

definition broken_ctx :: ctx where
  "broken_ctx = table_ctx\<lparr>cx_env := table_env\<lparr>ev_fail := (\<lambda>_. True)\<rparr>\<rparr>"

theorem short_catch_ups_lose_events_witness:
  "cc_applied (process_event (\<lambda>n. http_get_game_events broken_ctx ''g'' (Some (Some n)) two_pod) (row_event (sample_event 2))
     (new_client\<lparr>cc_last := Some 0\<rparr>)) = [row_event (sample_event 2)]"
  using short_catch_ups_lose_events [OF two_pod_facts(1,2), of "new_client\<lparr>cc_last := Some 0\<rparr>" 0 "row_event (sample_event 2)" 2 0 broken_ctx]
  by (simp add: broken_ctx_def row_event_def wire_event_def sample_event_def sample_row_def new_client_def)

end
