(* ===== verification/In_Memory.thy ===== *)
theory In_Memory
  imports Client_Props Search Store_Props
begin

text \<open>
  The repository of a process without a database, \<open>noopRepo\<close> of \<open>internal/server/repo.go\<close>: every write succeeds and nothing is stored.
  It has no state, so a write returns the unit value and a read depends on its arguments only.
  The locale \<open>repository\<close> is the part of the interface's documented contract that both repositories keep.
\<close>

section \<open>The repository that stores nothing\<close>

definition noop_save_new_game :: "game_record \<Rightarrow> unit result" where "noop_save_new_game rc = Inr ()"
definition noop_load_game :: "string \<Rightarrow> game_record option result" where "noop_load_game gid = Inr None"
definition noop_update_seat :: "string \<Rightarrow> seat \<Rightarrow> status \<Rightarrow> unit result" where "noop_update_seat gid s status = Inr ()"

definition noop_append_move :: "string \<Rightarrow> int \<Rightarrow> move \<Rightarrow> color \<Rightarrow> win_kind \<Rightarrow> status \<Rightarrow> unit result" where
  "noop_append_move gid ordinal m winner kind status = Inr ()"

definition noop_update_outcome :: "string \<Rightarrow> status \<Rightarrow> color \<Rightarrow> win_kind \<Rightarrow> int \<Rightarrow> unit result" where
  "noop_update_outcome gid status winner kind epoch = Inr ()"

definition noop_orphan_playing_games :: "nat \<Rightarrow> string list result" where "noop_orphan_playing_games limit = Inr []"
definition noop_profile :: "string \<Rightarrow> string option result" where "noop_profile user = Inr None"
definition noop_upsert_profile :: "string \<Rightarrow> string \<Rightarrow> unit result" where "noop_upsert_profile user name = Inr ()"
definition noop_ensure_profile :: "string \<Rightarrow> string \<Rightarrow> unit result" where "noop_ensure_profile user name = Inr ()"
definition noop_games_for_user :: "string \<Rightarrow> nat \<Rightarrow> user_game list result" where "noop_games_for_user user limit = Inr []"

definition noop_stats_for_user :: "string \<Rightarrow> user_stats result" where
  "noop_stats_for_user user = Inr \<lparr>us_total = 0, us_won = 0, us_lost = 0, us_ongoing = 0, us_rating_1v1 = 0, us_rating_multi = 0\<rparr>"

definition noop_append_message :: "message_row \<Rightarrow> message_row result" where "noop_append_message m = Inr m"
definition noop_messages_for_game :: "string \<Rightarrow> nat \<Rightarrow> message_row list result" where "noop_messages_for_game gid limit = Inr []"
definition noop_lobby_games :: "nat \<Rightarrow> lobby_entry list result" where "noop_lobby_games limit = Inr []"
definition noop_set_rematch_link :: "string \<Rightarrow> string \<Rightarrow> string result" where "noop_set_rematch_link gid newID = Inr newID"

definition noop_rating_for :: "string \<Rightarrow> string \<Rightarrow> rating_row result" where
  "noop_rating_for user mode = Inr (zero_rating '''' '''')"

definition noop_ratings_for :: "string list \<Rightarrow> string \<Rightarrow> rating_row list result" where
  "noop_ratings_for users mode = Inr (map (\<lambda>u. (zero_rating '''' '''')\<lparr>rw_user := u, rw_mode := mode\<rparr>) users)"

definition noop_apply_rated_game :: "string \<Rightarrow> string \<Rightarrow> rating_update list \<Rightarrow> bool result" where
  "noop_apply_rated_game gid mode updates = Inr False"

definition noop_leaderboard :: "string \<Rightarrow> nat \<Rightarrow> leaderboard_entry list result" where "noop_leaderboard mode limit = Inr []"

definition noop_ratings_for_game :: "string \<Rightarrow> game_ratings result" where
  "noop_ratings_for_game gid = Inr \<lparr>gr_mode = '''', gr_rated = False, gr_applied = False, gr_seats = []\<rparr>"

definition noop_finalize_start :: "string \<Rightarrow> status \<Rightarrow> config \<Rightarrow> unit result" where "noop_finalize_start gid status cfg = Inr ()"
definition noop_delete_stale_waiting :: "duration \<Rightarrow> nat result" where "noop_delete_stale_waiting older = Inr 0"
definition noop_public_profile :: "string \<Rightarrow> public_profile result" where "noop_public_profile user = Inl ErrProfileNotFound"
definition noop_search_profiles :: "string \<Rightarrow> int \<Rightarrow> (string \<times> string \<times> int) list result" where "noop_search_profiles pfx limit = Inr []"

definition noop_append_event :: "string \<Rightarrow> string \<Rightarrow> string \<Rightarrow> int \<Rightarrow> int result" where "noop_append_event gid ty payload epoch = Inr 0"
definition noop_load_event :: "string \<Rightarrow> int \<Rightarrow> event_row option result" where "noop_load_event gid seq = Inr None"
definition noop_events_since :: "string \<Rightarrow> int \<Rightarrow> nat \<Rightarrow> event_row list result" where "noop_events_since gid since limit = Inr []"
definition noop_current_event_seq :: "string \<Rightarrow> int result" where "noop_current_event_seq gid = Inr 0"

definition noop_enqueue_matchmake :: "string \<Rightarrow> nat \<Rightarrow> string \<Rightarrow> int \<Rightarrow> unit result" where "noop_enqueue_matchmake user players mode rating = Inr ()"
definition noop_cancel_matchmake :: "string \<Rightarrow> unit result" where "noop_cancel_matchmake user = Inr ()"

definition noop_matchmake_tick :: "nat \<Rightarrow> string \<Rightarrow> (queued_user list \<Rightarrow> queued_user list list) \<Rightarrow> matched_seat list result" where
  "noop_matchmake_tick players mode pairFn = Inr []"

definition noop_queue_snapshot :: "nat \<Rightarrow> string \<Rightarrow> queued_user list result" where "noop_queue_snapshot players mode = Inr []"
definition noop_current_matchmade_game :: "string \<Rightarrow> string result" where "noop_current_matchmade_game user = Inr ''''"
definition noop_save_rematch_offer :: "string \<Rightarrow> rematch_offer option \<Rightarrow> unit result" where "noop_save_rematch_offer gid offer = Inr ()"
definition noop_save_draw_offer :: "string \<Rightarrow> int \<Rightarrow> unit result" where "noop_save_draw_offer gid offerBy = Inr ()"

definition noop_merge_rematch_acceptance :: "string \<Rightarrow> int \<Rightarrow> int list \<Rightarrow> rematch_offer option result" where
  "noop_merge_rematch_acceptance gid seatIdx botSeats = Inr None"

lemmas noop_reads = noop_load_game_def noop_orphan_playing_games_def noop_profile_def noop_games_for_user_def noop_messages_for_game_def
  noop_lobby_games_def noop_ratings_for_def noop_apply_rated_game_def noop_leaderboard_def noop_delete_stale_waiting_def
  noop_public_profile_def noop_search_profiles_def noop_load_event_def noop_events_since_def noop_queue_snapshot_def
  noop_current_matchmade_game_def noop_matchmake_tick_def

section \<open>Compared with the database\<close>

text \<open>Reading from it is reading from an empty database, with four exceptions: the ratings of the statistics are zero instead of
  the default, a rating row is blank, and the number and the ratings of a game that nobody saved are no error.\<close>

theorem memory_reads_as_an_empty_database:
  assumes "pairFn [] = []"
  shows "load_game False now empty_db gid = noop_load_game gid
    \<and> orphan_playing_games False now empty_db n = noop_orphan_playing_games n
    \<and> profile_of False empty_db u = noop_profile u \<and> public_profile_of False empty_db u = noop_public_profile u
    \<and> games_for_user False empty_db u n = noop_games_for_user u n \<and> messages_for_game False empty_db gid n = noop_messages_for_game gid n
    \<and> lobby_games False empty_db n = noop_lobby_games n \<and> leaderboard False empty_db mode n = noop_leaderboard mode n
    \<and> search_profiles False lower rank empty_db pfx limit = noop_search_profiles pfx limit
    \<and> ratings_for False empty_db us mode = noop_ratings_for us mode
    \<and> events_since False empty_db gid k n = noop_events_since gid k n \<and> load_event False empty_db gid k = noop_load_event gid k
    \<and> queue_snapshot False empty_db players mode = noop_queue_snapshot players mode
    \<and> current_matchmade_game False empty_db u = noop_current_matchmade_game u
    \<and> map_sum id snd (apply_rated_game False now empty_db gid mode upds) = noop_apply_rated_game gid mode upds
    \<and> map_sum id snd (delete_stale_waiting False now empty_db older) = noop_delete_stale_waiting older
    \<and> map_sum id snd (matchmake_tick False now locked new_id empty_db players mode pairFn) = noop_matchmake_tick players mode pairFn"
  using assms
  by (simp add: noop_reads load_game_def load_game_reads_def game_of_def empty_db_def orphan_playing_games_def profile_of_def public_profile_of_def
      games_for_user_def user_seats_def messages_for_game_def lobby_games_def leaderboard_def search_profiles_def ratings_for_def
      rating_for_def zero_rating_def events_since_def load_event_def queue_snapshot_def bucket_def current_matchmade_game_def
      apply_rated_game_def delete_stale_waiting_def matchmake_tick_def Let_def)

lemma memory_reads_apart:
  "map_sum id us_rating_1v1 (stats_for_user False empty_db u) = Inr 1200" "map_sum id us_rating_1v1 (noop_stats_for_user u) = Inr 0"
  "current_event_seq False empty_db gid = Inl ErrGameNotFound" "noop_current_event_seq gid = Inr 0"
  "ratings_for_game False empty_db gid = Inl ErrGameNotFound" "map_sum id gr_rated (noop_ratings_for_game gid) = Inr False"
  "u \<noteq> '''' \<Longrightarrow> noop_rating_for u mode \<noteq> Inr (rating_for empty_db u mode)"
  by (simp_all add: stats_for_user_def noop_stats_for_user_def current_event_seq_def noop_current_event_seq_def ratings_for_game_def
      noop_ratings_for_game_def noop_rating_for_def rating_for_def zero_rating_def rating_or_1200_def game_of_def empty_db_def)

section \<open>The contract of a repository\<close>

text \<open>
  What \<open>internal/server/repo.go\<close> documents of the interface and its callers rely on: a loaded game has the id that was asked for, an
  event whose number is not zero can be loaded by it, the rows of a catch-up are new, in order and at most as many as allowed,
  a game is rated once, and ratings come in the order of the users.
\<close>

locale repository =
  fixes sound :: "'s \<Rightarrow> bool" and load :: "'s \<Rightarrow> string \<Rightarrow> game_record option result"
    and append :: "string \<Rightarrow> string \<Rightarrow> string \<Rightarrow> int \<Rightarrow> 's \<Rightarrow> ('s \<times> int) result" and event :: "'s \<Rightarrow> string \<Rightarrow> int \<Rightarrow> event_row option result"
    and since :: "'s \<Rightarrow> string \<Rightarrow> int \<Rightarrow> nat \<Rightarrow> event_row list result"
    and rate :: "string \<Rightarrow> string \<Rightarrow> rating_update list \<Rightarrow> 's \<Rightarrow> ('s \<times> bool) result"
    and ratings :: "'s \<Rightarrow> string list \<Rightarrow> string \<Rightarrow> rating_row list result"
  assumes load_id: "load s gid = Inr (Some rc) \<Longrightarrow> rc_id rc = gid"
    and append_event: "sound s \<Longrightarrow> append gid ty body epoch s = Inr (s', n) \<Longrightarrow> n \<noteq> 0
      \<Longrightarrow> \<exists>row. event s' gid n = Inr (Some row) \<and> ew_seq row = n \<and> ew_type row = ty \<and> ew_payload row = body"
    and append_sound: "sound s \<Longrightarrow> append gid ty body epoch s = Inr (s', n) \<Longrightarrow> sound s'"
    and since_new: "sound s \<Longrightarrow> since s gid k limit = Inr rows
      \<Longrightarrow> sorted_wrt (<) (map ew_seq rows) \<and> (\<forall>row \<in> set rows. k < ew_seq row) \<and> length rows \<le> limit"
    and rate_once: "rate gid mode us s = Inr (s', True) \<Longrightarrow> rate gid mode' us' s' = Inr (s'', won) \<Longrightarrow> \<not> won"
    and ratings_order: "ratings s users mode = Inr rs \<Longrightarrow> map rw_user rs = users \<and> (\<forall>r \<in> set rs. rw_mode r = mode)"

lemma apply_sorted_rows:
  assumes "sorted_wrt (<) (map ew_seq rows)" "\<forall>row \<in> set rows. k < ew_seq row" "cc_last c = Some k"
  shows "apply_rows rows c = c\<lparr>cc_applied := cc_applied c @ map row_event rows, cc_last := Some (last (k # map ew_seq rows))\<rparr>"
  using assms
proof (induction rows arbitrary: c k)
  case (Cons row rows)
  let ?c = "(apply_client_event (row_event row) c)\<lparr>cc_last := Some (ew_seq row)\<rparr>"
  have "apply_rows rows ?c = ?c\<lparr>cc_applied := cc_applied ?c @ map row_event rows, cc_last := Some (last (ew_seq row # map ew_seq rows))\<rparr>"
    using Cons.prems by (intro Cons.IH) auto
  then show ?case using Cons.prems(2,3) by (simp add: apply_client_event_def)
qed simp

context repository
begin

text \<open>The browser applies every row of a catch-up.\<close>

lemma catch_up_applies_all:
  assumes "sound s" "since s gid k limit = Inr rows" "cc_last c = Some k"
  shows "fetch_catchup (\<lambda>n. Resp 200 (EventsBody rows)) c
    = c\<lparr>cc_applied := cc_applied c @ map row_event rows, cc_last := Some (last (k # map ew_seq rows))\<rparr>"
  using since_new [OF assms(1,2)] apply_sorted_rows [OF _ _ assms(3), of rows] assms(3) by (simp add: fetch_catchup_def)

text \<open>The event a subscriber loads for a notice is the one that was published.\<close>

lemma notice_loads_the_event:
  assumes "sound s" "append gid ty body epoch s = Inr (s', n)" "n \<noteq> 0"
  shows "\<exists>row. event s' gid n = Inr (Some row) \<and> row_event row = wire_event ty n body \<and> sound s'"
  using append_event [OF assms] append_sound [OF assms(1,2)] by (auto simp: row_event_def)

end

lemma rating_for_key: "rw_user (rating_for d u mode) = u \<and> rw_mode (rating_for d u mode) = mode"
  by (auto simp: rating_for_def zero_rating_def find_Some_iff split: option.split)

lemma sorted_log_rows:
  assumes "db_wf d" "events_since False d gid k n = Inr rows"
  shows "sorted_wrt (<) (map ew_seq rows) \<and> (\<forall>row \<in> set rows. k < ew_seq row) \<and> length rows \<le> n"
proof -
  let ?rows = "filter (\<lambda>e. ew_game e = gid \<and> ew_seq e > k) (db_events d)"
  have rows: "rows = take n (sort_key ew_seq ?rows)" using assms(2) by (simp add: events_since_def)
  have "distinct (map ew_seq (game_events d gid))"
  proof (cases "game_of d gid")
    case None
    then have "game_events d gid = []" using assms(1) by (auto simp: db_wf_def refs_ok_def game_events_def game_of_None filter_empty_conv)
    then show ?thesis by simp
  next
    case (Some r)
    then show ?thesis using sorted_events(1) [OF assms(1) Some] by simp
  qed
  moreover have "?rows = filter (\<lambda>e. k < ew_seq e) (game_events d gid)" by (simp add: game_events_def conj_commute)
  ultimately have "distinct (map ew_seq ?rows)" by (simp add: distinct_map_filter)
  then have "distinct (map ew_seq (sort_key ew_seq ?rows))" by (simp add: distinct_map)
  then have "sorted_wrt (<) (map ew_seq (sort_key ew_seq ?rows))" by (simp add: strict_sorted_iff)
  then have "sorted_wrt (<) (map ew_seq rows)" unfolding rows take_map [symmetric] by (rule sorted_wrt_take)
  moreover have "\<forall>row \<in> set rows. k < ew_seq row" by (auto simp: rows dest: in_set_takeD)
  moreover have "length rows \<le> n" unfolding rows by simp
  ultimately show ?thesis by blast
qed

lemma rated_row:
  assumes "apply_rated_game False now d gid mode us = Inr (d', True)" "apply_rated_game bad now' d' gid mode' us' = Inr (d'', won)"
  shows "\<not> won"
proof -
  obtain r where r: "game_of d gid = Some r" "foldl (apply_rating_update now gid mode)
      (Some (update_game gid (\<lambda>r. r\<lparr>gw_rated_at := Some now\<rparr>) d)) us = Some d'"
    using assms(1) by (auto simp: apply_rated_game_def split: option.splits if_splits)
  have "game_of d' gid = Some (r\<lparr>gw_rated_at := Some now\<rparr>)"
    using rating_fold_games [OF r(2)] r(1) game_of_update [of "\<lambda>r. r\<lparr>gw_rated_at := Some now\<rparr>" gid d gid] by (simp add: game_of_def)
  then show ?thesis using assms(2) by (auto simp: apply_rated_game_def split: if_splits)
qed

interpretation postgres: repository db_wf "load_game False now" "\<lambda>gid ty body epoch d. append_event False d gid ty body epoch" "load_event False"
    "events_since False" "\<lambda>gid mode us d. apply_rated_game False now d gid mode us" "ratings_for False" for now
proof unfold_locales
  show "load_game False now d gid = Inr (Some rc) \<Longrightarrow> rc_id rc = gid" for d gid rc by (rule load_game_id)
  show "db_wf d \<Longrightarrow> append_event False d gid ty body epoch = Inr (d', n) \<Longrightarrow> n \<noteq> 0
    \<Longrightarrow> \<exists>row. load_event False d' gid n = Inr (Some row) \<and> ew_seq row = n \<and> ew_type row = ty \<and> ew_payload row = body"
    for d gid ty body epoch d' n using load_new_event by fastforce
  show "db_wf d \<Longrightarrow> append_event False d gid ty body epoch = Inr (d', n) \<Longrightarrow> db_wf d'" for d gid ty body epoch d' n
    by (rule append_event_wf)
  show "db_wf d \<Longrightarrow> events_since False d gid k limit = Inr rows
    \<Longrightarrow> sorted_wrt (<) (map ew_seq rows) \<and> (\<forall>row \<in> set rows. k < ew_seq row) \<and> length rows \<le> limit" for d gid k limit rows
    by (rule sorted_log_rows)
  show "apply_rated_game False now d gid mode us = Inr (d', True) \<Longrightarrow> apply_rated_game False now d' gid mode' us' = Inr (d'', won) \<Longrightarrow> \<not> won"
    for d gid mode us d' mode' us' d'' won by (rule rated_row)
  show "ratings_for False d users mode = Inr rs \<Longrightarrow> map rw_user rs = users \<and> (\<forall>r \<in> set rs. rw_mode r = mode)" for d users mode rs
    by (auto simp: ratings_for_def rating_for_key comp_def)
qed

text \<open>A repository without a state keeps the same contract over the unit type.\<close>

interpretation memory: repository "\<lambda>_ :: unit. True" "\<lambda>_. noop_load_game" "\<lambda>gid ty body epoch _. map_sum id (Pair ()) (noop_append_event gid ty body epoch)"
    "\<lambda>_. noop_load_event" "\<lambda>_. noop_events_since" "\<lambda>gid mode us _. map_sum id (Pair ()) (noop_apply_rated_game gid mode us)" "\<lambda>_. noop_ratings_for"
  by unfold_locales (auto simp: noop_load_game_def noop_append_event_def noop_events_since_def noop_apply_rated_game_def
      noop_ratings_for_def zero_rating_def comp_def)

end
