(* ===== verification/Routes.thy ===== *)
theory Routes
  imports Handlers Forward Rate_Limit Search
begin

text \<open>
  The public surface of a pod, \<open>internal/server/server.go\<close>: the route table of \<open>apiHandler\<close> with the rate limit and the routing of
  each endpoint, and what a pod does with a request from its arrival to the answer or to the pod it is passed on to. The
  pages of the host's authentication, the metrics and the connections (\<open>Sockets\<close>) are answered elsewhere.
\<close>

section \<open>The route table\<close>

datatype endpoint =
  EpConfig | EpHealth | EpReady | EpCreate | EpGame | EpJoin | EpMove | EpResign | EpOfferDraw | EpAcceptDraw | EpDeclineDraw
| EpOfferRematch | EpDeclineRematch | EpAddBot | EpRemoveBot | EpInvite | EpCancelInvite | EpDeclineInvite | EpResolve | EpLeave
| EpStart | EpReplay | EpEvents | EpRatings | EpChat | EpPostChat | EpWsGame | EpWsLobby | EpEnqueue | EpCancelQueue | EpCurrent
| EpMe | EpPutProfile | EpMyGames | EpMyStats | EpSearch | EpProfile | EpLeaderboard

datatype routing = Local | Owned | ForwardAll

datatype seg = Lit string | Var string

record route =
  rt_method :: string
  rt_path :: "seg list"
  rt_limit :: "(string \<times> duration \<times> nat) option"
  rt_routing :: routing
  rt_endpoint :: endpoint

definition plain_route :: "string \<Rightarrow> seg list \<Rightarrow> endpoint \<Rightarrow> route" where
  "plain_route m path e = \<lparr>rt_method = m, rt_path = path, rt_limit = None, rt_routing = Local, rt_endpoint = e\<rparr>"

definition game_path :: "seg list \<Rightarrow> seg list" where
  "game_path rest = [Lit ''api'', Lit ''games'', Var ''id''] @ rest"

definition game_command :: "string \<Rightarrow> seg list \<Rightarrow> endpoint \<Rightarrow> route" where
  "game_command m rest e = \<lparr>rt_method = m, rt_path = game_path rest, rt_limit = None, rt_routing = Owned, rt_endpoint = e\<rparr>"

text \<open>The literal \<open>search\<close> is more specific than \<open>{userId}\<close> and stands before it; no other two patterns overlap.\<close>

definition api_routes :: "route list" where
  "api_routes =
    [plain_route ''GET'' [Lit ''api'', Lit ''config''] EpConfig,
     plain_route ''GET'' [Lit ''healthz''] EpHealth,
     plain_route ''GET'' [Lit ''readyz''] EpReady,
     (plain_route ''POST'' [Lit ''api'', Lit ''games''] EpCreate)\<lparr>rt_limit := Some (''create'', 2000000000, 5), rt_routing := ForwardAll\<rparr>,
     plain_route ''GET'' (game_path []) EpGame,
     game_command ''POST'' [Lit ''join''] EpJoin,
     game_command ''POST'' [Lit ''moves''] EpMove,
     game_command ''POST'' [Lit ''resign''] EpResign,
     game_command ''POST'' [Lit ''draw'', Lit ''offer''] EpOfferDraw,
     game_command ''POST'' [Lit ''draw'', Lit ''accept''] EpAcceptDraw,
     game_command ''POST'' [Lit ''draw'', Lit ''decline''] EpDeclineDraw,
     game_command ''POST'' [Lit ''rematch'', Lit ''offer''] EpOfferRematch,
     game_command ''POST'' [Lit ''rematch'', Lit ''decline''] EpDeclineRematch,
     game_command ''POST'' [Lit ''seats'', Var ''idx'', Lit ''bot''] EpAddBot,
     game_command ''DELETE'' [Lit ''seats'', Var ''idx'', Lit ''bot''] EpRemoveBot,
     game_command ''POST'' [Lit ''seats'', Var ''idx'', Lit ''invite''] EpInvite,
     game_command ''DELETE'' [Lit ''seats'', Var ''idx'', Lit ''invite''] EpCancelInvite,
     game_command ''POST'' [Lit ''seats'', Var ''idx'', Lit ''invite'', Lit ''decline''] EpDeclineInvite,
     game_command ''POST'' [Lit ''seat'', Lit ''resolve''] EpResolve,
     game_command ''POST'' [Lit ''leave''] EpLeave,
     game_command ''POST'' [Lit ''start''] EpStart,
     plain_route ''GET'' (game_path [Lit ''replay'']) EpReplay,
     plain_route ''GET'' (game_path [Lit ''events'']) EpEvents,
     plain_route ''GET'' (game_path [Lit ''ratings'']) EpRatings,
     plain_route ''GET'' (game_path [Lit ''messages'']) EpChat,
     (game_command ''POST'' [Lit ''messages''] EpPostChat)\<lparr>rt_limit := Some (''chat'', 1000000000, 5)\<rparr>,
     plain_route ''GET'' [Lit ''ws'', Lit ''games'', Var ''id''] EpWsGame,
     plain_route ''GET'' [Lit ''ws'', Lit ''lobby''] EpWsLobby,
     (plain_route ''POST'' [Lit ''api'', Lit ''matchmake'', Lit ''enqueue''] EpEnqueue)\<lparr>rt_limit := Some (''enqueue'', 2000000000, 3)\<rparr>,
     plain_route ''DELETE'' [Lit ''api'', Lit ''matchmake'', Lit ''enqueue''] EpCancelQueue,
     plain_route ''GET'' [Lit ''api'', Lit ''matchmake'', Lit ''current''] EpCurrent,
     plain_route ''GET'' [Lit ''api'', Lit ''auth'', Lit ''me''] EpMe,
     plain_route ''PUT'' [Lit ''api'', Lit ''profile''] EpPutProfile,
     plain_route ''GET'' [Lit ''api'', Lit ''users'', Lit ''me'', Lit ''games''] EpMyGames,
     plain_route ''GET'' [Lit ''api'', Lit ''users'', Lit ''me'', Lit ''stats''] EpMyStats,
     (plain_route ''GET'' [Lit ''api'', Lit ''users'', Lit ''search''] EpSearch)\<lparr>rt_limit := Some (''search'', 500000000, 10)\<rparr>,
     plain_route ''GET'' [Lit ''api'', Lit ''users'', Var ''userId''] EpProfile,
     plain_route ''GET'' [Lit ''api'', Lit ''leaderboard''] EpLeaderboard]"

text \<open>A variable of a pattern stands for one segment that is not empty.\<close>

fun path_match :: "seg list \<Rightarrow> string list \<Rightarrow> (string \<times> string) list option" where
  "path_match [] [] = Some []"
| "path_match (Lit l # ps) (s # ss) = (if s = l then path_match ps ss else None)"
| "path_match (Var v # ps) (s # ss) = (if s = '''' then None else map_option ((#) (v, s)) (path_match ps ss))"
| "path_match _ _ = None"

fun find_route :: "route list \<Rightarrow> string \<Rightarrow> string list \<Rightarrow> (route \<times> (string \<times> string) list) option" where
  "find_route [] m path = None"
| "find_route (r # rs) m path =
     (case (if rt_method r = m \<or> rt_method r = ''GET'' \<and> m = ''HEAD'' then path_match (rt_path r) path else None) of
        Some vars \<Rightarrow> Some (r, vars)
      | None \<Rightarrow> find_route rs m path)"

text \<open>\<open>ServeMux\<close> answers a known path under another method with 405.\<close>

definition no_route :: "route list \<Rightarrow> string list \<Rightarrow> response" where
  "no_route rs path = Resp (if list_ex (\<lambda>r. path_match (rt_path r) path \<noteq> None) rs then 405 else 404) NoBody"

text \<open>The origin a browser may read the answer from, \<open>cors.go\<close>.\<close>

definition origin_allowed :: "string list \<Rightarrow> string \<Rightarrow> bool" where
  "origin_allowed allowed origin \<longleftrightarrow> origin \<in> set allowed"

definition cors_origin :: "string list \<Rightarrow> string \<Rightarrow> string option" where
  "cors_origin allowed origin =
     (if allowed = [] then Some ''*'' else if origin \<noteq> '''' \<and> origin_allowed allowed origin then Some origin else None)"

definition cors_methods :: "string list" where
  "cors_methods = [''GET'', ''POST'', ''OPTIONS'']"

section \<open>Serving a request\<close>

text \<open>
  A request with its body and query as the handlers decode them; \<open>None\<close> is a body that does not parse. The header of the account
  is read on the internal listener only, \<open>rq_account\<close> is what the host's authentication says.
\<close>

record request =
  rq_method :: string
  rq_path :: "string list"
  rq_identity :: string
  rq_account :: "auth_user option"
  rq_token_header :: string
  rq_token_query :: string
  rq_xff :: string
  rq_remote :: string
  rq_readable :: bool
  rq_create :: "(int \<times> string \<times> string) option"
  rq_join :: "(string \<times> int option) option"
  rq_move :: "(int \<times> int) option"
  rq_invite :: "(string \<times> string) option"
  rq_text :: "string option"
  rq_players :: "int option"
  rq_since :: "int option option"
  rq_number :: "int option"
  rq_mode :: string
  rq_query :: string

text \<open>What a pod is configured with, and what it takes from libraries and the host.\<close>

record services =
  sv_ctx :: ctx
  sv_render :: "lobby_payload \<Rightarrow> string option"
  sv_atoi :: "string \<Rightarrow> int option"
  sv_guest :: bool
  sv_fold :: "char \<Rightarrow> char"
  sv_rank :: "string \<Rightarrow> nat"
  sv_sha1 :: "8 word list \<Rightarrow> 8 word list"
  sv_unmarshal :: "string \<Rightarrow> auth_user option"
  sv_split :: "string \<Rightarrow> string option"
  sv_forward :: string
  sv_resolver :: bool
  sv_internal :: bool

definition caller :: "services \<Rightarrow> request \<Rightarrow> auth_user option" where
  "caller sv rq = identify (sv_sha1 sv) (sv_unmarshal sv) (sv_internal sv) (rq_identity rq) (rq_account rq)"

definition http_get_config :: "auth_user option \<Rightarrow> response" where
  "http_get_config user = Resp 200 (ConfigBody (map_option (\<lambda>u. (au_id u, au_name u)) user))"

definition http_search_profiles :: "services \<Rightarrow> auth_user option \<Rightarrow> string \<Rightarrow> int option \<Rightarrow> pod \<Rightarrow> response" where
  "http_search_profiles sv user q0 limit0 p =
     (let limit = (case limit0 of Some n \<Rightarrow> if 0 < n \<and> n \<le> 50 then n else 20 | None \<Rightarrow> 20)
      in user_read user (\<lambda>_. map_sum id SearchBody (search_profiles (ev_fail (cx_env (sv_ctx sv)) ''SearchProfiles'') (sv_fold sv)
             (sv_rank sv) (so_db (pd_store p)) (trim_space q0) limit)) ''could not search profiles'')"

definition var_of :: "(string \<times> string) list \<Rightarrow> string \<Rightarrow> string" where
  "var_of vars v = (case map_of vars v of Some s \<Rightarrow> s | None \<Rightarrow> '''')"

text \<open>The handler of an endpoint, \<open>None\<close> for the two that become connections.\<close>

definition serve_local :: "services \<Rightarrow> endpoint \<Rightarrow> (string \<times> string) list \<Rightarrow> request \<Rightarrow> pod \<Rightarrow> (pod \<times> response) option" where
  "serve_local sv e vars rq p =
     (let cx = sv_ctx sv; gid = var_of vars ''id''; idx = sv_atoi sv (var_of vars ''idx''); user = caller sv rq;
          token = player_token (rq_token_header rq) (rq_token_query rq); same = (\<lambda>r. Some (p, r))
      in case e of
           EpConfig \<Rightarrow> same (http_get_config user)
         | EpHealth \<Rightarrow> same (Resp 200 (StatusBody ''ok''))
         | EpReady \<Rightarrow> same (Resp 200 (StatusBody ''ready''))
         | EpCreate \<Rightarrow> Some (http_create_game cx (sv_guest sv) user (rq_create rq) p)
         | EpGame \<Rightarrow> Some (http_get_game cx gid p)
         | EpJoin \<Rightarrow> Some (http_join_game cx (sv_guest sv) user gid (rq_join rq) p)
         | EpMove \<Rightarrow> Some (http_post_move cx gid token (rq_move rq) p)
         | EpResign \<Rightarrow> Some (http_resign cx gid token p)
         | EpOfferDraw \<Rightarrow> Some (http_offer_draw cx gid token p)
         | EpAcceptDraw \<Rightarrow> Some (http_accept_draw cx gid token p)
         | EpDeclineDraw \<Rightarrow> Some (http_decline_draw cx gid token p)
         | EpOfferRematch \<Rightarrow> Some (http_offer_rematch cx gid token p)
         | EpDeclineRematch \<Rightarrow> Some (http_decline_rematch cx gid token p)
         | EpAddBot \<Rightarrow> Some (http_add_bot cx gid idx p)
         | EpRemoveBot \<Rightarrow> Some (http_remove_bot cx gid idx p)
         | EpInvite \<Rightarrow> Some (http_invite_seat cx (sv_render sv) user gid idx (rq_invite rq) p)
         | EpCancelInvite \<Rightarrow> Some (http_cancel_seat_invite cx (sv_render sv) gid idx p)
         | EpDeclineInvite \<Rightarrow> Some (http_decline_invite cx user gid idx p)
         | EpResolve \<Rightarrow> Some (http_resolve_seat cx user gid p)
         | EpLeave \<Rightarrow> Some (http_leave_seat cx gid token p)
         | EpStart \<Rightarrow> Some (http_start_game cx gid token p)
         | EpReplay \<Rightarrow> Some (http_get_replay cx gid p)
         | EpEvents \<Rightarrow> same (http_get_game_events cx gid (rq_since rq) p)
         | EpRatings \<Rightarrow> same (http_get_game_ratings cx gid p)
         | EpChat \<Rightarrow> same (http_get_chat cx gid p)
         | EpPostChat \<Rightarrow> Some (http_post_chat cx gid token (rq_text rq) p)
         | EpWsGame \<Rightarrow> None
         | EpWsLobby \<Rightarrow> None
         | EpEnqueue \<Rightarrow> Some (http_enqueue_matchmake cx user (rq_players rq) p)
         | EpCancelQueue \<Rightarrow> Some (http_cancel_matchmake cx user p)
         | EpCurrent \<Rightarrow> same (http_current_matchmade cx user p)
         | EpMe \<Rightarrow> Some (http_get_me cx user p)
         | EpPutProfile \<Rightarrow> Some (http_put_profile cx user (rq_text rq) p)
         | EpMyGames \<Rightarrow> same (http_get_my_games cx user p)
         | EpMyStats \<Rightarrow> same (http_get_my_stats cx user p)
         | EpSearch \<Rightarrow> same (http_search_profiles sv user (rq_query rq) (rq_number rq) p)
         | EpProfile \<Rightarrow> same (http_get_public_profile cx (var_of vars ''userId'') p)
         | EpLeaderboard \<Rightarrow> same (http_get_leaderboard cx (rq_number rq) (rq_mode rq) p))"

text \<open>The request is answered, becomes a connection, or is passed on to an address.\<close>

datatype outcome = Answered response | Upgraded | PassedOn string

definition answer_here :: "services \<Rightarrow> endpoint \<Rightarrow> (string \<times> string) list \<Rightarrow> request \<Rightarrow> pod \<Rightarrow> pod \<times> outcome" where
  "answer_here sv e vars rq p =
     (case serve_local sv e vars rq p of None \<Rightarrow> (p, Upgraded) | Some (p', r) \<Rightarrow> (p', Answered r))"

definition follow :: "services \<Rightarrow> (string \<Rightarrow> bool) \<Rightarrow> decision \<Rightarrow> endpoint \<Rightarrow> (string \<times> string) list \<Rightarrow> request \<Rightarrow> pod \<Rightarrow> pod \<times> outcome" where
  "follow sv reachable d e vars rq p =
     (case d of
        InvalidBody \<Rightarrow> (p, Answered (Resp 400 (TextBody ''invalid body'')))
      | Attempts hs \<Rightarrow> (case served_by reachable hs of HopLocal \<Rightarrow> answer_here sv e vars rq p | HopTo a \<Rightarrow> (p, PassedOn a)))"

definition routed :: "services \<Rightarrow> (string \<Rightarrow> bool) \<Rightarrow> route \<Rightarrow> (string \<times> string) list \<Rightarrow> request \<Rightarrow> pod \<Rightarrow> pod \<times> outcome" where
  "routed sv reachable rt vars rq p =
     (let c = \<lparr>cm_game = var_of vars ''id'', cm_forwarded = sv_internal sv, cm_body = rq_readable rq\<rparr>; e = rt_endpoint rt
      in case rt_routing rt of
           Local \<Rightarrow> answer_here sv e vars rq p
         | ForwardAll \<Rightarrow> follow sv reachable (forward_all (sv_forward sv) c) e vars rq p
         | Owned \<Rightarrow>
             (case owned_route (sv_forward sv) (sv_resolver sv) (cx_env (sv_ctx sv)) c (pd_store p) of
                (st, d) \<Rightarrow> follow sv reachable d e vars rq (p\<lparr>pd_store := st\<rparr>)))"

text \<open>The message of \<open>limited\<close>, with its accents as the bytes of their encoding.\<close>

definition too_many_requests :: string where
  "too_many_requests = ''trop de requ'' @ [CHR 0xC3, CHR 0xAA] @ ''tes, r'' @ [CHR 0xC3, CHR 0xA9] @ ''essaie dans un instant''"

definition serve_request :: "services \<Rightarrow> (string \<Rightarrow> bool) \<Rightarrow> (gtime \<Rightarrow> 'l \<Rightarrow> 'l \<times> bool) \<Rightarrow> (string \<Rightarrow> 'l) \<Rightarrow> request
    \<Rightarrow> 'l rate_limiter \<times> pod \<Rightarrow> ('l rate_limiter \<times> pod) \<times> outcome" where
  "serve_request sv reachable take_token fresh rq s =
     (let (rl, p) = s
      in if rq_method rq = ''OPTIONS'' then (s, Answered (Resp 204 NoBody))
         else case find_route api_routes (rq_method rq) (rq_path rq) of
           None \<Rightarrow> (s, Answered (no_route api_routes (rq_path rq)))
         | Some (rt, vars) \<Rightarrow>
             (case rt_limit rt of
                None \<Rightarrow> (case routed sv reachable rt vars rq p of (p', out) \<Rightarrow> ((rl, p'), out))
              | Some (name, _) \<Rightarrow>
                  let key = limit_key name (rate_key (sv_split sv) (map_option au_id (caller sv rq)) (rq_xff rq) (rq_remote rq))
                  in case allow take_token fresh (ev_now (cx_env (sv_ctx sv))) key rl of
                       (rl', ok) \<Rightarrow>
                         if \<not> ok then ((rl', p), Answered (Resp 429 (TextBody too_many_requests)))
                         else (case routed sv reachable rt vars rq p of (p', out) \<Rightarrow> ((rl', p'), out))))"

end
