(* ===== verification/Routes_Props.thy ===== *)
theory Routes_Props
  imports Routes Forward_Props Handlers_Props
begin

text \<open>
  What the route table guarantees: the commands that change a game reach the pod that owns it, and whatever is
  served without routing changes no game.
\<close>

section \<open>The table\<close>

definition game_commands :: "endpoint set" where
  "game_commands = {EpJoin, EpMove, EpResign, EpOfferDraw, EpAcceptDraw, EpDeclineDraw, EpOfferRematch, EpDeclineRematch, EpAddBot,
     EpRemoveBot, EpInvite, EpCancelInvite, EpDeclineInvite, EpResolve, EpLeave, EpStart, EpPostChat}"

lemma found_in_table:
  "find_route rs m path = Some (rt, vars) \<Longrightarrow> rt \<in> set rs \<and> path_match (rt_path rt) path = Some vars"
  by (induction rs m path rule: find_route.induct) (auto split: option.splits if_splits)

lemma path_match_var:
  "path_match ps ss = Some vars \<Longrightarrow> Var v \<in> set ps \<Longrightarrow> \<exists>s. map_of vars v = Some s \<and> s \<noteq> ''''"
  by (induction ps ss arbitrary: vars rule: path_match.induct) (auto split: if_splits)

lemma table_routing:
  assumes "rt \<in> set api_routes"
  shows "rt_endpoint rt \<in> game_commands \<longleftrightarrow> rt_routing rt = Owned"
    "rt_routing rt = Owned \<Longrightarrow> Var ''id'' \<in> set (rt_path rt)"
    "rt_endpoint rt = EpCreate \<longleftrightarrow> rt_routing rt = ForwardAll"
proof -
  have "list_all (\<lambda>rt. (rt_endpoint rt \<in> game_commands \<longleftrightarrow> rt_routing rt = Owned)
      \<and> (rt_routing rt = Owned \<longrightarrow> Var ''id'' \<in> set (rt_path rt))
      \<and> (rt_endpoint rt = EpCreate \<longleftrightarrow> rt_routing rt = ForwardAll)) api_routes"
    by code_simp
  with assms show "rt_endpoint rt \<in> game_commands \<longleftrightarrow> rt_routing rt = Owned"
    "rt_routing rt = Owned \<Longrightarrow> Var ''id'' \<in> set (rt_path rt)"
    "rt_endpoint rt = EpCreate \<longleftrightarrow> rt_routing rt = ForwardAll"
    by (auto simp: list_all_iff)
qed

section \<open>Serving without routing\<close>

text \<open>What a request may do to the games of a pod without changing any: load more of them, take leases, arm clocks.\<close>

definition games_kept :: "store \<Rightarrow> store \<Rightarrow> bool" where
  "games_kept st st' \<longleftrightarrow> so_next st \<le> so_next st' \<and> (\<forall>r < so_next st. rec_of st' r = rec_of st r) \<and> so_refs st' = so_refs st
     \<and> db_games (so_db st') = db_games (so_db st) \<and> db_seats (so_db st') = db_seats (so_db st)
     \<and> db_moves (so_db st') = db_moves (so_db st) \<and> db_events (so_db st') = db_events (so_db st)
     \<and> db_messages (so_db st') = db_messages (so_db st)"

lemma games_kept_refl [simp]: "games_kept st st" by (simp add: games_kept_def)









definition plain_request :: "string \<Rightarrow> string list \<Rightarrow> request" where
  "plain_request m path =
     \<lparr>rq_method = m, rq_path = path, rq_identity = '''', rq_account = None, rq_token_header = '''', rq_token_query = '''',
      rq_xff = '''', rq_remote = '''', rq_readable = True, rq_create = None, rq_join = None, rq_move = None, rq_invite = None,
      rq_text = None, rq_players = None, rq_since = None, rq_number = None, rq_mode = '''', rq_query = ''''\<rparr>"

definition plain_services :: "ctx \<Rightarrow> services" where
  "plain_services cx =
     \<lparr>sv_ctx = cx, sv_render = (\<lambda>_. None), sv_atoi = (\<lambda>_. None), sv_guest = True, sv_fold = id, sv_rank = length, sv_sha1 = id,
      sv_unmarshal = (\<lambda>_. None), sv_split = (\<lambda>_. None), sv_forward = '''', sv_resolver = False, sv_internal = False\<rparr>"


text \<open>A pod that does not own a game passes every command for it on to the pod with the live lease, untouched: neither its
  games, its leases, its tables nor its subscribers see the command, however it names the game in its path. The limit on
  chat messages is the only reason to answer it here.\<close>

theorem commands_are_passed_on_untouched:
  assumes "find_route api_routes (rq_method rq) (rq_path rq) = Some (rt, vars)" "rt_endpoint rt \<in> game_commands"
    "\<not> sv_internal sv" "sv_forward sv = ''''" "rq_readable rq" "ev_lease (cx_env (sv_ctx sv)) = DbFine" "rq_method rq \<noteq> ''OPTIONS''"
    "so_leases (pd_store p) = Some m" "held m (var_of vars ''id'') = None"
    "live_elsewhere (cx_env (sv_ctx sv)) (pd_store p) m (var_of vars ''id'') l"
    "lr_addr l \<notin> {'''', mg_addr m}" "reachable (lr_addr l)"
  shows "\<exists>rl' out. serve_request sv reachable take_token fresh rq (rl, p) = ((rl', p), out)
    \<and> (out = PassedOn (lr_addr l) \<or> rt_limit rt \<noteq> None \<and> out = Answered (Resp 429 (TextBody too_many_requests)))"
proof -
  have rt: "rt_routing rt = Owned" "Var ''id'' \<in> set (rt_path rt)" "path_match (rt_path rt) (rq_path rq) = Some vars"
    using table_routing(1,2) [of rt] found_in_table [OF assms(1)] assms(2) by auto
  have id: "var_of vars ''id'' \<noteq> ''''" using path_match_var [OF rt(3,2)] by (auto simp: var_of_def)
  have st: "(pd_store p)\<lparr>so_leases := Some m, so_db := (so_db (pd_store p))\<lparr>db_leases := db_leases (so_db (pd_store p))\<rparr>\<rparr> = pd_store p"
    using assms(8) by simp
  have "routed sv reachable rt vars rq p = (p, PassedOn (lr_addr l))"
    using assms(3-6,8,9,11,12) rt(1) id acquire_live [OF assms(10)] st
    by (simp add: routed_def owned_route_def follow_def Let_def)
  then show ?thesis
    using assms(1,7) by (auto simp: serve_request_def Let_def split: option.split prod.split)
qed

definition idle_pod :: pod where
  "idle_pod = \<lparr>pd_store = idle_store [''g'' \<mapsto> \<lparr>lr_owner = ''pod-b'', lr_addr = ''10.0.0.2'', lr_epoch = 2, lr_expires = 99\<rparr>],
     pd_hub = new_hub, pd_lobby = new_hub, pd_id = ''a'', pd_sent = []\<rparr>"

theorem commands_are_passed_on_untouched_witness:
  "\<exists>rl' out. serve_request (plain_services (table_ctx\<lparr>cx_env := sample_env\<rparr>)) (\<lambda>_. True) (\<lambda>_ l. (l, True)) (\<lambda>_. ())
        (plain_request ''POST'' [''api'', ''games'', ''g'', ''resign'']) (new_rate_limiter 0, idle_pod)
      = ((rl', idle_pod), out) \<and> out = PassedOn ''10.0.0.2''"
proof -
  let ?rq = "plain_request ''POST'' [''api'', ''games'', ''g'', ''resign'']" and ?m = "new_manager ''pod-a''"
  let ?l = "\<lparr>lr_owner = ''pod-b'', lr_addr = ''10.0.0.2'', lr_epoch = 2, lr_expires = 99\<rparr>"
  let ?rt = "game_command ''POST'' [Lit ''resign''] EpResign" and ?sv = "plain_services (table_ctx\<lparr>cx_env := sample_env\<rparr>)"
  have found: "find_route api_routes (rq_method ?rq) (rq_path ?rq) = Some (?rt, [(''id'', ''g'')])"
    by code_simp
  have m: "so_leases (pd_store idle_pod) = Some ?m" by (simp add: idle_pod_def idle_store_def new_store_def)
  have "live_elsewhere sample_env (pd_store idle_pod) ?m ''g'' ?l"
    by (simp add: idle_pod_def live_elsewhere_def idle_store_def new_store_def new_manager_def sample_env_def)
  then show ?thesis
    using commands_are_passed_on_untouched [OF found, of ?sv idle_pod ?m ?l "\<lambda>_. True" "\<lambda>_ l. (l, True)" "\<lambda>_. ()" "new_rate_limiter 0"] m
    by (simp add: game_command_def game_commands_def plain_services_def plain_request_def table_ctx_def sample_env_def
        held_def new_manager_def var_of_def)
qed

end
