(* ===== verification/Fleet.thy ===== *)
theory Fleet
  imports Routes
begin

text \<open>
  Several pods over one database: a request arrives at the public listener of one pod and, when that pod passes it on with \<open>proxyTo\<close>
  of \<open>internal/server/forward.go\<close>, at the internal listener of another.
\<close>

text \<open>
  The request as \<open>Rewrite\<close> sends it on. The reverse proxy of the standard library strips the forwarding headers of the request before
  \<open>Rewrite\<close> runs, and \<open>SetXForwarded\<close> sets them from the address the request came from. \<open>hop\<close> is the address the
  connection of the forwarding pod comes from.
\<close>

definition proxied_request :: "(auth_user \<Rightarrow> string) \<Rightarrow> string \<Rightarrow> services \<Rightarrow> request \<Rightarrow> request" where
  "proxied_request marshal hop sv rq =
     rq\<lparr>rq_identity := proxied_header marshal (caller sv rq) (rq_identity rq),
        rq_xff := (case sv_split sv (rq_remote rq) of Some host \<Rightarrow> host | None \<Rightarrow> ''''),
        rq_remote := hop\<rparr>"

text \<open>The pods by name, what listens at an internal address, and the tables they share.\<close>

record 'l node =
  nd_services :: services
  nd_limits :: "'l rate_limiter"
  nd_pod :: pod
  nd_hop :: string

record 'l fleet =
  fl_db :: db
  fl_nodes :: "string \<Rightarrow> 'l node option"
  fl_listens :: "string \<Rightarrow> string option"

definition synced :: "db \<Rightarrow> pod \<Rightarrow> pod" where
  "synced d p = on_store (\<lambda>st. st\<lparr>so_db := d\<rparr>) p"

text \<open>A request at one of the listeners of a pod; \<open>None\<close> if there is no such pod.\<close>

definition arrive :: "(gtime \<Rightarrow> 'l \<Rightarrow> 'l \<times> bool) \<Rightarrow> (string \<Rightarrow> 'l) \<Rightarrow> bool \<Rightarrow> string \<Rightarrow> request \<Rightarrow> 'l fleet \<Rightarrow> 'l fleet \<times> outcome option" where
  "arrive take_token fresh internal n rq fl =
     (case fl_nodes fl n of
        None \<Rightarrow> (fl, None)
      | Some nd \<Rightarrow>
          (case serve_request ((nd_services nd)\<lparr>sv_internal := internal\<rparr>) (\<lambda>a. fl_listens fl a \<noteq> None) take_token fresh rq
                  (nd_limits nd, synced (fl_db fl) (nd_pod nd)) of
             ((rl, p), out) \<Rightarrow>
               (fl\<lparr>fl_db := so_db (pd_store p), fl_nodes := (fl_nodes fl)(n \<mapsto> nd\<lparr>nd_limits := rl, nd_pod := p\<rparr>)\<rparr>, Some out)))"

text \<open>A request of a client: one that is passed on arrives at the pod that listens at the address.\<close>

definition fleet_request :: "(auth_user \<Rightarrow> string) \<Rightarrow> (gtime \<Rightarrow> 'l \<Rightarrow> 'l \<times> bool) \<Rightarrow> (string \<Rightarrow> 'l) \<Rightarrow> string \<Rightarrow> request \<Rightarrow> 'l fleet
    \<Rightarrow> 'l fleet \<times> outcome option" where
  "fleet_request marshal take_token fresh n rq fl =
     (case arrive take_token fresh False n rq fl of
        (fl1, Some (PassedOn a)) \<Rightarrow>
          (case (fl_nodes fl1 n, fl_listens fl1 a) of
             (Some nd, Some m) \<Rightarrow>
               arrive take_token fresh True m (proxied_request marshal (nd_hop nd) ((nd_services nd)\<lparr>sv_internal := False\<rparr>) rq) fl1
           | _ \<Rightarrow> (fl1, None))
      | r \<Rightarrow> r)"

end
