(* ===== verification/Fleet_Props.thy ===== *)
theory Fleet_Props
  imports Fleet Routes_Props
begin

text \<open>
  What a client sees of several pods: a command through a gateway is the command at the owner, under the same account, and what the
  forwarding does to the limits on guests.
\<close>

section \<open>One hop\<close>

lemma caller_kept:
  assumes "\<And>u. sv_unmarshal sv' (marshal u) = Some (json_user u)" "\<And>u. marshal u \<noteq> ''''" "\<And>bs. length (sv_sha1 sv bs) = 20"
    "\<And>u. caller sv rq = Some u \<Longrightarrow> plain_text u"
  shows "caller (sv'\<lparr>sv_internal := True\<rparr>) (proxied_request marshal hop sv rq) = caller sv rq"
proof -
  have uuid: "uuid_re (au_id u)" if "caller sv rq = Some u" for u
    by (rule identified_uuid [of "sv_sha1 sv", OF assms(3)]) (use that in \<open>simp add: caller_def\<close>)
  have "caller (sv'\<lparr>sv_internal := True\<rparr>) (proxied_request marshal hop sv rq) = map_option json_user (caller sv rq)"
    using identity_received [of "sv_sha1 sv" "sv_unmarshal sv'" marshal, OF assms(3,1,2)]
    by (simp add: caller_def [of "sv'\<lparr>sv_internal := True\<rparr>"] proxied_request_def) (simp add: caller_def)
  then show ?thesis using uuid assms(4) json_user_plain by (cases "caller sv rq") simp_all
qed

text \<open>A handler sees the account, the tokens and the body, which forwarding keeps.\<close>

lemma serve_local_kept:
  assumes "caller sv' rq' = caller sv rq" "sv' = sv\<lparr>sv_internal := b\<rparr>" "rq' = rq\<lparr>rq_identity := i, rq_xff := x, rq_remote := a\<rparr>"
  shows "serve_local sv' e vars rq' p = serve_local sv e vars rq p"
proof -
  have "sv_ctx sv' = sv_ctx sv" "sv_atoi sv' = sv_atoi sv" "sv_guest sv' = sv_guest sv" "sv_render sv' = sv_render sv"
    "sv_fold sv' = sv_fold sv" "sv_rank sv' = sv_rank sv"
    by (simp_all add: assms(2))
  moreover have "rq_token_header rq' = rq_token_header rq" "rq_token_query rq' = rq_token_query rq" "rq_create rq' = rq_create rq"
    "rq_join rq' = rq_join rq" "rq_move rq' = rq_move rq" "rq_invite rq' = rq_invite rq" "rq_text rq' = rq_text rq"
    "rq_players rq' = rq_players rq" "rq_since rq' = rq_since rq" "rq_number rq' = rq_number rq" "rq_mode rq' = rq_mode rq"
    "rq_query rq' = rq_query rq"
    by (simp_all add: assms(3))
  ultimately show ?thesis
    using assms(1) by (cases e) (simp_all add: serve_local_def Let_def http_search_profiles_def)
qed

lemma gateway_routes_on:
  assumes "find_route api_routes (rq_method rq) (rq_path rq) = Some (rt, vars)" "rt_routing rt = Owned"
    "rq_readable rq" "sv_forward sv \<noteq> ''''" "sv_resolver sv" "\<not> sv_internal sv"
    "ev_lease (cx_env (sv_ctx sv)) \<noteq> DbFailed" "db_leases (so_db (pd_store p)) (var_of vars ''id'') = Some l"
    "ev_dbnow (cx_env (sv_ctx sv)) \<le> lr_expires l" "lr_addr l \<noteq> ''''" "reachable (lr_addr l)"
  shows "routed sv reachable rt vars rq p = (p, PassedOn (lr_addr l))"
proof -
  have "Var ''id'' \<in> set (rt_path rt)" "path_match (rt_path rt) (rq_path rq) = Some vars"
    using table_routing(2) assms(2) found_in_table [OF assms(1)] by auto
  then have "var_of vars ''id'' \<noteq> ''''" using path_match_var [of "rt_path rt" "rq_path rq" vars "''id''"] by (auto simp: var_of_def)
  then show ?thesis
    using assms by (auto simp: routed_def owned_route_def resolver_owner_def follow_def Let_def)
qed

lemma arrived_command_is_served:
  assumes "find_route api_routes (rq_method rq) (rq_path rq) = Some (rt, vars)" "rt_routing rt = Owned" "rt_limit rt = None"
    "rq_method rq \<noteq> ''OPTIONS''" "sv_internal sv"
  shows "serve_request sv reachable take_token fresh rq (rl, p) =
    (case answer_here sv (rt_endpoint rt) vars rq p of (p', out) \<Rightarrow> ((rl, p'), out))"
proof -
  have "routed sv reachable rt vars rq p = answer_here sv (rt_endpoint rt) vars rq p"
    using assms(2,5) by (simp add: routed_def owned_route_def follow_def Let_def)
  then show ?thesis using assms by (simp add: serve_request_def)
qed

lemma command_is_served:
  "e \<in> game_commands \<Longrightarrow> \<exists>p' r. serve_local sv e vars rq p = Some (p', r)"
  unfolding serve_local_def game_commands_def Let_def by (elim insertE) (auto intro: prod.exhaust)

text \<open>
  An account that reaches the owner as it is: what \<open>encoding/json\<close> writes of it is a header that HTTP carries. JSON escapes all control
  characters but the delete character, which a header cannot hold.
\<close>

definition travels :: "auth_user \<Rightarrow> bool" where
  "travels u \<longleftrightarrow> plain_text u \<and> CHR 0x7F \<notin> set (au_email u) \<and> CHR 0x7F \<notin> set (au_name u)"

text \<open>C16: A command without a limit on its callers, that is, any command on a game but a chat message, that a client sends to a gateway while
  the lease of the game is live and its owner listens at the address of the lease, is the command sent to the owner: the answer is the one
  the owner's handler gives for the client's request under the client's account, the tables change as that handler changes them, the
  owner's games are the only ones that change, and the command takes one hop, whatever identity header the client made up. The body
  of the command can be read, and the caller is a guest or has an account that travels.\<close>

theorem forwarded_command_is_the_owners:
  assumes "fl_nodes fl n = Some nd" "fl_nodes fl m = Some ow" "n \<noteq> m"
    "find_route api_routes (rq_method rq) (rq_path rq) = Some (rt, vars)" "rt_routing rt = Owned" "rt_limit rt = None"
    "rq_readable rq" "rq_method rq \<noteq> ''OPTIONS''"
    "sv_forward (nd_services nd) \<noteq> ''''" "sv_resolver (nd_services nd)" "ev_lease (cx_env (sv_ctx (nd_services nd))) \<noteq> DbFailed"
    "db_leases (fl_db fl) (var_of vars ''id'') = Some l" "ev_dbnow (cx_env (sv_ctx (nd_services nd))) \<le> lr_expires l"
    "lr_addr l \<noteq> ''''" "fl_listens fl (lr_addr l) = Some m"
    "\<And>u. sv_unmarshal (nd_services ow) (marshal u) = Some (json_user u)" "\<And>u. marshal u \<noteq> ''''"
    "\<And>bs. length (sv_sha1 (nd_services nd) bs) = 20" "sv_sha1 (nd_services ow) = sv_sha1 (nd_services nd)"
    "\<And>u. caller ((nd_services nd)\<lparr>sv_internal := False\<rparr>) rq = Some u \<Longrightarrow> travels u"
  shows "\<exists>p' r. serve_local ((nd_services ow)\<lparr>sv_internal := False\<rparr>) (rt_endpoint rt) vars rq (synced (fl_db fl) (nd_pod ow)) = Some (p', r)
    \<and> fleet_request marshal take_token fresh n rq fl =
        (fl\<lparr>fl_db := so_db (pd_store p'),
            fl_nodes := (fl_nodes fl)(n \<mapsto> nd\<lparr>nd_pod := synced (fl_db fl) (nd_pod nd)\<rparr>, m \<mapsto> ow\<lparr>nd_pod := p'\<rparr>)\<rparr>, Some (Answered r))"
proof -
  let ?sv = "(nd_services nd)\<lparr>sv_internal := False\<rparr>" and ?so = "nd_services ow"
  let ?p = "synced (fl_db fl) (nd_pod nd)" and ?q = "synced (fl_db fl) (nd_pod ow)"
  let ?rq = "proxied_request marshal (nd_hop nd) ?sv rq"
  have db: "so_db (pd_store (synced d p)) = d" for d p by (simp add: synced_def on_store_def)
  have "serve_request ?sv (\<lambda>a. fl_listens fl a \<noteq> None) take_token fresh rq (nd_limits nd, ?p) = ((nd_limits nd, ?p), PassedOn (lr_addr l))"
    using assms(4,6,8) gateway_routes_on [OF assms(4,5,7), of ?sv ?p l] assms(9-15) by (simp add: serve_request_def db)
  then have out: "arrive take_token fresh False n rq fl =
      (fl\<lparr>fl_nodes := (fl_nodes fl)(n \<mapsto> nd\<lparr>nd_pod := ?p\<rparr>)\<rparr>, Some (PassedOn (lr_addr l)))"
    using assms(1) by (simp add: arrive_def db)
  have command: "rt_endpoint rt \<in> game_commands" using table_routing(1) assms(5) found_in_table [OF assms(4)] by blast
  obtain p' r where here: "serve_local (?so\<lparr>sv_internal := False\<rparr>) (rt_endpoint rt) vars rq ?q = Some (p', r)"
    using command_is_served [OF command] by blast
  have same: "rq_method ?rq = rq_method rq" "rq_path ?rq = rq_path rq" by (simp_all add: proxied_request_def)
  have "caller (?so\<lparr>sv_internal := True\<rparr>) ?rq = caller (?so\<lparr>sv_internal := False\<rparr>) rq"
    using caller_kept [of ?so marshal ?sv rq, OF assms(16,17)] assms(18,19,20) by (simp add: caller_def identify_def travels_def)
  then have "serve_local (?so\<lparr>sv_internal := True\<rparr>) (rt_endpoint rt) vars ?rq ?q
      = serve_local (?so\<lparr>sv_internal := False\<rparr>) (rt_endpoint rt) vars rq ?q"
    by (rule serve_local_kept [OF _ _ proxied_request_def]) simp
  note served = this [unfolded here]
  have there: "serve_request (?so\<lparr>sv_internal := True\<rparr>) (\<lambda>a. fl_listens fl a \<noteq> None) take_token fresh ?rq (nd_limits ow, ?q)
      = ((nd_limits ow, p'), Answered r)"
    using assms(4,5,6,8) same served by (subst arrived_command_is_served [of ?rq rt vars]) (simp_all add: answer_here_def)
  let ?fl = "fl\<lparr>fl_nodes := (fl_nodes fl)(n \<mapsto> nd\<lparr>nd_pod := ?p\<rparr>)\<rparr>"
  have "arrive take_token fresh True m ?rq ?fl = (?fl\<lparr>fl_db := so_db (pd_store p'), fl_nodes := (fl_nodes ?fl)(m \<mapsto> ow\<lparr>nd_pod := p'\<rparr>)\<rparr>, Some (Answered r))"
    using assms(2,3) there by (simp add: arrive_def)
  then have "fleet_request marshal take_token fresh n rq fl =
        (fl\<lparr>fl_db := so_db (pd_store p'),
            fl_nodes := (fl_nodes fl)(n \<mapsto> nd\<lparr>nd_pod := synced (fl_db fl) (nd_pod nd)\<rparr>, m \<mapsto> ow\<lparr>nd_pod := p'\<rparr>)\<rparr>, Some (Answered r))"
    using assms(15) by (simp add: fleet_request_def out)
  with here show ?thesis by blast
qed

definition gateway_services :: services where
  "gateway_services = (plain_services (table_ctx\<lparr>cx_env := sample_env\<rparr>))\<lparr>sv_forward := ''pool'', sv_resolver := True,
     sv_sha1 := (\<lambda>_. replicate 20 7), sv_unmarshal := sample_unmarshal, sv_split := (\<lambda>s. Some (takeWhile (\<lambda>c. c \<noteq> CHR '':'') s))\<rparr>"

definition sample_lease :: lease_row where
  "sample_lease = \<lparr>lr_owner = ''pod-b'', lr_addr = ''10.0.0.2'', lr_epoch = 2, lr_expires = 99\<rparr>"

definition sample_gateway :: "nat node" where
  "sample_gateway = \<lparr>nd_services = gateway_services, nd_limits = new_rate_limiter 0, nd_pod = table_pod, nd_hop = ''10.0.0.1:4''\<rparr>"

definition sample_owner :: "nat node" where
  "sample_owner = \<lparr>nd_services = gateway_services\<lparr>sv_forward := ''''\<rparr>, nd_limits = new_rate_limiter 0, nd_pod = table_pod, nd_hop = ''10.0.0.2:4''\<rparr>"

definition sample_fleet :: "nat fleet" where
  "sample_fleet = \<lparr>fl_db = empty_db\<lparr>db_leases := [''g'' \<mapsto> sample_lease]\<rparr>, fl_nodes = [''gate'' \<mapsto> sample_gateway, ''b'' \<mapsto> sample_owner],
     fl_listens = [''10.0.0.2'' \<mapsto> ''b'', ''pool'' \<mapsto> ''b'']\<rparr>"

lemma sample_fleet_facts:
  "fl_nodes sample_fleet ''gate'' = Some sample_gateway" "fl_nodes sample_fleet ''b'' = Some sample_owner"
  "db_leases (fl_db sample_fleet) ''g'' = Some sample_lease" "fl_listens sample_fleet (lr_addr sample_lease) = Some ''b''"
  "lr_addr sample_lease \<noteq> ''''" "ev_dbnow (cx_env (sv_ctx (nd_services sample_gateway))) \<le> lr_expires sample_lease"
  "ev_lease (cx_env (sv_ctx (nd_services sample_gateway))) \<noteq> DbFailed" "sv_forward (nd_services sample_gateway) \<noteq> ''''"
  "sv_resolver (nd_services sample_gateway)" "sv_sha1 (nd_services sample_owner) = sv_sha1 (nd_services sample_gateway)"
  "sv_sha1 (nd_services sample_gateway) = (\<lambda>_. replicate 20 7)" "sv_unmarshal (nd_services sample_owner) = sample_unmarshal"
  by (simp_all add: sample_fleet_def sample_lease_def sample_gateway_def sample_owner_def gateway_services_def plain_services_def
      table_ctx_def sample_env_def)

theorem forwarded_command_is_the_owners_witness:
  "\<exists>fl' r. fleet_request sample_marshal (\<lambda>_ n. (n, True)) (\<lambda>_. 0) ''gate''
      (plain_request ''POST'' [''api'', ''games'', ''g'', ''resign'']) sample_fleet = (fl', Some (Answered r))"
proof -
  let ?rq = "plain_request ''POST'' [''api'', ''games'', ''g'', ''resign'']" and ?rt = "game_command ''POST'' [Lit ''resign''] EpResign"
  have found: "find_route api_routes (rq_method ?rq) (rq_path ?rq) = Some (?rt, [(''id'', ''g'')])" by code_simp
  have rt: "rt_routing ?rt = Owned" "rt_limit ?rt = None" by (simp_all add: game_command_def)
  have rq: "rq_readable ?rq" "rq_method ?rq \<noteq> ''OPTIONS''" by (simp_all add: plain_request_def)
  have lease: "db_leases (fl_db sample_fleet) (var_of [(''id'', ''g'')] ''id'') = Some sample_lease"
    using sample_fleet_facts(3) by (simp add: var_of_def)
  have codec: "sv_unmarshal (nd_services sample_owner) (sample_marshal u) = Some (json_user u)" "sample_marshal u \<noteq> ''''"
    "length (sv_sha1 (nd_services sample_gateway) bs) = 20" for u bs
    by (simp_all add: sample_fleet_facts sample_codec_ok)
  have apart: "''gate'' \<noteq> ''b''" by simp
  have guest: "caller ((nd_services sample_gateway)\<lparr>sv_internal := False\<rparr>) ?rq = Some u \<Longrightarrow> travels u" for u
    by (simp add: caller_def identify_def plain_request_def)
  show ?thesis
    using forwarded_command_is_the_owners [where take_token = "\<lambda>_ n. (n, True)" and fresh = "\<lambda>_. 0", OF sample_fleet_facts(1,2) apart found rt rq
        sample_fleet_facts(8,9,7) lease sample_fleet_facts(6,5,4) codec sample_fleet_facts(10) guest] by blast
qed

section \<open>Limits behind a gateway\<close>

text \<open>The bucket a request is counted in at a listener.\<close>

definition bucket_key :: "string \<Rightarrow> services \<Rightarrow> request \<Rightarrow> string" where
  "bucket_key name sv rq = limit_key name (rate_key (sv_split sv) (map_option au_id (caller sv rq)) (rq_xff rq) (rq_remote rq))"

lemma limited_request:
  assumes "find_route api_routes (rq_method rq) (rq_path rq) = Some (rt, vars)" "rt_limit rt = Some (name, d, n)" "rq_method rq \<noteq> ''OPTIONS''"
    "allow take_token fresh (ev_now (cx_env (sv_ctx sv))) (bucket_key name sv rq) rl = (rl', ok)"
  shows "serve_request sv reachable take_token fresh rq (rl, p) =
    (if ok then (case routed sv reachable rt vars rq p of (p', out) \<Rightarrow> ((rl', p'), out))
     else ((rl', p), Answered (Resp 429 (TextBody too_many_requests))))"
  using assms by (simp add: serve_request_def bucket_key_def Let_def)

text \<open>C37: The limits on guests do not survive forwarding. At the gateway a guest is counted under the address the proxies in front report;
  the request is sent on with the address the gateway's own peer has, so behind one ingress all guests are counted in one bucket of
  the owner: once it is empty, every guest's limited command is refused, from whatever address it comes and however many
  tokens the guest has left at the gateway.\<close>

theorem guests_share_the_owners_limit:
  assumes "fl_nodes fl n = Some nd" "fl_nodes fl m = Some ow" "n \<noteq> m"
    "find_route api_routes (rq_method rq) (rq_path rq) = Some (rt, vars)" "rt_limit rt = Some (name, d, b)" "rq_method rq \<noteq> ''OPTIONS''"
    "caller ((nd_services nd)\<lparr>sv_internal := False\<rparr>) rq = None" "sv_split (nd_services nd) (rq_remote rq) = Some ingress" "ingress \<noteq> ''''"
    "allow take_token fresh (ev_now (cx_env (sv_ctx (nd_services nd)))) (bucket_key name ((nd_services nd)\<lparr>sv_internal := False\<rparr>) rq)
       (nd_limits nd) = (rl, True)"
    "routed ((nd_services nd)\<lparr>sv_internal := False\<rparr>) (\<lambda>a. fl_listens fl a \<noteq> None) rt vars rq (synced (fl_db fl) (nd_pod nd)) = (p, PassedOn a)"
    "fl_listens fl a = Some m"
    "allow take_token fresh (ev_now (cx_env (sv_ctx (nd_services ow)))) (limit_key name (''ip:'' @ trim_space (takeWhile (\<lambda>c. c \<noteq> CHR '','') ingress)))
       (nd_limits ow) = (rl', False)"
  shows "snd (fleet_request marshal take_token fresh n rq fl) = Some (Answered (Resp 429 (TextBody too_many_requests)))
    \<and> (rq_xff rq \<noteq> '''' \<longrightarrow> bucket_key name ((nd_services nd)\<lparr>sv_internal := False\<rparr>) rq
         = limit_key name (''ip:'' @ trim_space (takeWhile (\<lambda>c. c \<noteq> CHR '','') (rq_xff rq))))"
proof -
  let ?sv = "(nd_services nd)\<lparr>sv_internal := False\<rparr>" and ?so = "(nd_services ow)\<lparr>sv_internal := True\<rparr>"
  let ?rq = "proxied_request marshal (nd_hop nd) ?sv rq"
  have "serve_request ?sv (\<lambda>a. fl_listens fl a \<noteq> None) take_token fresh rq (nd_limits nd, synced (fl_db fl) (nd_pod nd)) = ((rl, p), PassedOn a)"
    using limited_request [OF assms(4,5,6), of take_token fresh ?sv "nd_limits nd" rl True] assms(10,11) by simp
  then have out: "arrive take_token fresh False n rq fl =
      (fl\<lparr>fl_db := so_db (pd_store p), fl_nodes := (fl_nodes fl)(n \<mapsto> nd\<lparr>nd_limits := rl, nd_pod := p\<rparr>)\<rparr>, Some (PassedOn a))"
    using assms(1) by (simp add: arrive_def)
  have "caller ?so ?rq = None" using assms(7)
    by (simp add: caller_def [of ?so] identify_def identity_from_def proxied_request_def proxied_header_def)
  then have key: "bucket_key name ?so ?rq = limit_key name (''ip:'' @ trim_space (takeWhile (\<lambda>c. c \<noteq> CHR '','') ingress))"
    using assms(8,9) by (simp add: bucket_key_def rate_key_def client_ip_def proxied_request_def)
  have same: "rq_method ?rq = rq_method rq" "rq_path ?rq = rq_path rq" by (simp_all add: proxied_request_def)
  have "serve_request ?so r take_token fresh ?rq (nd_limits ow, q) = ((rl', q), Answered (Resp 429 (TextBody too_many_requests)))" for r q
    using assms(4,5,6,13) same key by (subst limited_request [of ?rq rt vars name d b _ _ _ _ rl' False]) simp_all
  then have "snd (fleet_request marshal take_token fresh n rq fl) = Some (Answered (Resp 429 (TextBody too_many_requests)))"
    using assms(2,3,12) by (simp add: fleet_request_def out arrive_def [of take_token fresh True])
  then show ?thesis using assms(7) by (simp add: bucket_key_def rate_key_def client_ip_def)
qed

text \<open>A guest at 1.2.3.4 and the chat bucket of the ingress at 10.9.9.9, emptied by others.\<close>

definition guest_chat :: request where
  "guest_chat = (plain_request ''POST'' [''api'', ''games'', ''g'', ''messages''])\<lparr>rq_xff := ''1.2.3.4'', rq_remote := ''10.9.9.9:50''\<rparr>"

definition busy_owner :: "nat node" where
  "busy_owner = sample_owner\<lparr>nd_limits := (new_rate_limiter 0)\<lparr>rl_buckets := [''chat|ip:10.9.9.9'' \<mapsto> \<lparr>re_lim = 0, re_seen = 0\<rparr>]\<rparr>\<rparr>"

definition spend :: "gtime \<Rightarrow> nat \<Rightarrow> nat \<times> bool" where
  "spend now k = (if k = 0 then (0, False) else (k - 1, True))"

theorem guests_share_the_owners_limit_witness:
  "snd (fleet_request sample_marshal spend (\<lambda>_. 5) ''gate'' guest_chat (sample_fleet\<lparr>fl_nodes := [''gate'' \<mapsto> sample_gateway, ''b'' \<mapsto> busy_owner]\<rparr>))
     = Some (Answered (Resp 429 (TextBody too_many_requests)))"
proof -
  let ?fl = "sample_fleet\<lparr>fl_nodes := [''gate'' \<mapsto> sample_gateway, ''b'' \<mapsto> busy_owner]\<rparr>"
  let ?rt = "(game_command ''POST'' [Lit ''messages''] EpPostChat)\<lparr>rt_limit := Some (''chat'', 1000000000, 5)\<rparr>"
  let ?sv = "(nd_services sample_gateway)\<lparr>sv_internal := False\<rparr>" and ?p = "synced (fl_db ?fl) (nd_pod sample_gateway)"
  have found: "find_route api_routes (rq_method guest_chat) (rq_path guest_chat) = Some (?rt, [(''id'', ''g'')])"
    by code_simp
  have guest: "caller ?sv guest_chat = None"
    by (simp add: caller_def identify_def guest_chat_def plain_request_def)
  have ingress: "sv_split (nd_services sample_gateway) (rq_remote guest_chat) = Some ''10.9.9.9''"
    by (simp add: sample_gateway_def gateway_services_def guest_chat_def)
  have edge: "allow spend (\<lambda>_. 5) (ev_now (cx_env (sv_ctx (nd_services sample_gateway)))) (bucket_key ''chat'' ?sv guest_chat) (nd_limits sample_gateway)
      = (fst (allow spend (\<lambda>_. 5) (ev_now (cx_env (sv_ctx (nd_services sample_gateway)))) (bucket_key ''chat'' ?sv guest_chat) (nd_limits sample_gateway)), True)"
    by (simp add: allow_def sweep_def sample_gateway_def new_rate_limiter_def spend_def Let_def split: prod.split)
  have route: "routed ?sv (\<lambda>a. fl_listens ?fl a \<noteq> None) ?rt [(''id'', ''g'')] guest_chat ?p = (?p, PassedOn (lr_addr sample_lease))"
    using gateway_routes_on [OF found, of ?sv ?p sample_lease "\<lambda>a. fl_listens ?fl a \<noteq> None"] sample_fleet_facts
    by (simp add: game_command_def guest_chat_def plain_request_def synced_def on_store_def var_of_def)
  let ?key = "limit_key ''chat'' (''ip:'' @ trim_space (takeWhile (\<lambda>c. c \<noteq> CHR '','') ''10.9.9.9''))"
  let ?now = "ev_now (cx_env (sv_ctx (nd_services busy_owner)))"
  have "?key = ''chat|ip:10.9.9.9''" by (simp add: limit_key_def trim_space_print byte_def)
  then have busy: "allow spend (\<lambda>_. 5) ?now ?key (nd_limits busy_owner) = (fst (allow spend (\<lambda>_. 5) ?now ?key (nd_limits busy_owner)), False)"
    by (simp add: allow_def sweep_def busy_owner_def sample_owner_def gateway_services_def plain_services_def sample_env_def new_rate_limiter_def
        spend_def time_sub_def minute_def Let_def)
  have nodes: "fl_nodes ?fl ''gate'' = Some sample_gateway" "fl_nodes ?fl ''b'' = Some busy_owner" "''gate'' \<noteq> ''b''"
    "fl_listens ?fl (lr_addr sample_lease) = Some ''b''" "rt_limit ?rt = Some (''chat'', 1000000000, 5)" "rq_method guest_chat \<noteq> ''OPTIONS''"
    "''10.9.9.9'' \<noteq> ''''"
    using sample_fleet_facts(4) by (simp_all add: guest_chat_def plain_request_def)
  show ?thesis
    by (rule conjunct1 [OF guests_share_the_owners_limit [OF nodes(1,2,3) found nodes(5,6) guest ingress nodes(7) edge route nodes(4) busy]])
qed

end
