(* ===== verification/Observe.thy ===== *)
theory Observe
  imports Routes
begin

text \<open>
  What is observed of a request: the middleware around the routes, \<open>middleware.go\<close>, \<open>metrics.go\<close>, \<open>cors.go\<close>, \<open>ratelimit.go\<close> and the listeners of
  \<open>server.go\<close>. A request is an object the middleware shares by pointer; \<open>WithContext\<close> makes a copy of it, and \<open>ServeMux\<close>
  writes the matched pattern into the object it was given. A trail keeps the pattern of every object, the request counter, the
  log and the name of the span. The counters of games and moves are left out.
\<close>

record trail =
  tr_next :: nat
  tr_pattern :: "nat \<Rightarrow> string"
  tr_total :: "string \<times> string \<times> int \<Rightarrow> nat"
  tr_log :: "(string \<times> string list \<times> int) list"
  tr_span :: "string option"

text \<open>A handler gets a request object and gives the status it writes, if it writes one.\<close>

type_synonym handler = "nat \<Rightarrow> trail \<Rightarrow> trail \<times> int option"

definition new_trail :: trail where
  "new_trail = \<lparr>tr_next = 1, tr_pattern = (\<lambda>_. ''''), tr_total = (\<lambda>_. 0), tr_log = [], tr_span = None\<rparr>"

definition with_context :: "nat \<Rightarrow> trail \<Rightarrow> nat \<times> trail" where
  "with_context r tr = (tr_next tr, tr\<lparr>tr_next := tr_next tr + 1, tr_pattern := (tr_pattern tr)(tr_next tr := tr_pattern tr r)\<rparr>)"

definition set_pattern :: "nat \<Rightarrow> string \<Rightarrow> trail \<Rightarrow> trail" where
  "set_pattern r pat tr = tr\<lparr>tr_pattern := (tr_pattern tr)(r := pat)\<rparr>"

definition recorded_status :: "int option \<Rightarrow> int" where
  "recorded_status written = (case written of None \<Rightarrow> 200 | Some c \<Rightarrow> c)"

definition seg_text :: "seg \<Rightarrow> string" where
  "seg_text s = ''/'' @ (case s of Lit l \<Rightarrow> l | Var v \<Rightarrow> ''{'' @ v @ ''}'')"

definition pattern_text :: "route \<Rightarrow> string" where
  "pattern_text rt = rt_method rt @ '' '' @ concat (map seg_text (rt_path rt))"

section \<open>The layers\<close>

definition mux_layer :: "request \<Rightarrow> (route \<Rightarrow> int option) \<Rightarrow> handler" where
  "mux_layer rq code r tr =
     (case find_route api_routes (rq_method rq) (rq_path rq) of
        Some (rt, _) \<Rightarrow> (set_pattern r (pattern_text rt) tr, code rt)
      | None \<Rightarrow> (set_pattern r '''' tr, case no_route api_routes (rq_path rq) of Resp c _ \<Rightarrow> Some (int c)))"

definition identify_layer :: "auth_user option \<Rightarrow> handler \<Rightarrow> handler" where
  "identify_layer user next_handler r tr =
     (case user of None \<Rightarrow> next_handler r tr | Some _ \<Rightarrow> (case with_context r tr of (r', tr') \<Rightarrow> next_handler r' tr'))"

text \<open>\<open>maxBytesMiddleware\<close> limits what is read of the body and passes the object on.\<close>

definition maxRequestBytes :: nat where "maxRequestBytes = 32 * 1024"

definition body_read :: "string \<Rightarrow> nat \<Rightarrow> bool" where
  "body_read m len \<longleftrightarrow> m \<in> {''GET'', ''HEAD''} \<or> len \<le> maxRequestBytes"

definition cors_layer :: "request \<Rightarrow> handler \<Rightarrow> handler" where
  "cors_layer rq next_handler r tr = (if rq_method rq = ''OPTIONS'' then (tr, Some 204) else next_handler r tr)"

definition websocket_path :: "string list \<Rightarrow> bool" where
  "websocket_path path = (case path of s # _ # _ \<Rightarrow> s = ''ws'' | _ \<Rightarrow> False)"

definition metrics_layer :: "request \<Rightarrow> handler \<Rightarrow> handler" where
  "metrics_layer rq next_handler r tr =
     (if websocket_path (rq_path rq) then next_handler r tr
      else case next_handler r tr of
        (tr', written) \<Rightarrow>
          let route = (if tr_pattern tr' r = '''' then ''unmatched'' else tr_pattern tr' r);
              label = (rq_method rq, route, recorded_status written)
          in (tr'\<lparr>tr_total := (tr_total tr')(label := tr_total tr' label + 1)\<rparr>, written))"

definition logging_layer :: "request \<Rightarrow> handler \<Rightarrow> handler" where
  "logging_layer rq next_handler r tr =
     (case next_handler r tr of
        (tr', written) \<Rightarrow> (tr'\<lparr>tr_log := tr_log tr' @ [(rq_method rq, rq_path rq, recorded_status written)]\<rparr>, written))"

definition forwarded_layer :: "handler \<Rightarrow> handler" where
  "forwarded_layer next_handler r tr = (case with_context r tr of (r', tr') \<Rightarrow> next_handler r' tr')"

text \<open>\<open>patternSpanNamer\<close>; \<open>recording\<close> says whether the span is recorded.\<close>

definition span_layer :: "bool \<Rightarrow> request \<Rightarrow> handler \<Rightarrow> handler" where
  "span_layer recording rq next_handler r tr =
     (case next_handler r tr of
        (tr', written) \<Rightarrow>
          (if tr_pattern tr' r = '''' \<or> \<not> recording then tr'
           else tr'\<lparr>tr_span := Some (rq_method rq @ '' '' @ tr_pattern tr' r)\<rparr>, written))"

section \<open>The listeners\<close>

definition api_handler :: "auth_user option \<Rightarrow> request \<Rightarrow> (route \<Rightarrow> int option) \<Rightarrow> handler" where
  "api_handler user rq code =
     logging_layer rq (metrics_layer rq (cors_layer rq (identify_layer user (mux_layer rq code))))"

definition probe :: "string list \<Rightarrow> bool" where
  "probe path \<longleftrightarrow> path \<in> {[''healthz''], [''readyz'']}"

text \<open>\<open>otelhttp\<close> starts a span for all but the probes and hands a copy on that carries it; the mux of the listener has matched \<open>/\<close> before.\<close>

definition listener_handler :: "bool \<Rightarrow> bool \<Rightarrow> auth_user option \<Rightarrow> request \<Rightarrow> (route \<Rightarrow> int option) \<Rightarrow> handler" where
  "listener_handler traced internal user rq code r tr =
     (if rq_method rq \<in> {''GET'', ''HEAD''} \<and> rq_path rq = [''metrics''] then (set_pattern r ''GET /metrics'' tr, Some 200)
      else let app = span_layer (traced \<and> \<not> probe (rq_path rq)) rq
                       ((if internal then forwarded_layer else id) (api_handler user rq code));
               tr1 = set_pattern r ''/'' tr
           in if probe (rq_path rq) then app r tr1 else (case with_context r tr1 of (r', tr') \<Rightarrow> app r' tr'))"

end
