(* ===== verification/Observe_Props.thy ===== *)
theory Observe_Props
  imports Observe Routes_Props
begin

text \<open>Which route the metrics and the traces see of a request.\<close>

lemma pattern_text_nonempty [simp]: "pattern_text rt \<noteq> ''''"
  by (simp add: pattern_text_def)

lemmas layer_defs = listener_handler_def api_handler_def span_layer_def forwarded_layer_def logging_layer_def metrics_layer_def
  cors_layer_def identify_layer_def mux_layer_def with_context_def set_pattern_def Let_def

text \<open>The request counter and the traces are meant to tell the routes apart by their pattern. They do for guests on the public
  listener only: a request with an account is passed on as a copy, so its pattern is written into an object the metrics and the span
  never look at, and both show the pattern of the outer mux, a slash, whatever the route. On the internal
  listener the mark of forwarded requests copies the object for everybody, and no span has a route.\<close>

theorem only_guests_are_told_apart:
  assumes "find_route api_routes (rq_method rq) (rq_path rq) = Some (rt, vars)" "rq_method rq \<noteq> ''OPTIONS''"
    "\<not> websocket_path (rq_path rq)" "rq_path rq \<noteq> [''metrics'']" "r < tr_next tr"
  shows "let tr' = fst (listener_handler traced internal user rq code r tr);
             label = (rq_method rq, if user = None then pattern_text rt else ''/'', recorded_status (code rt))
         in tr_total tr' = (tr_total tr)(label := tr_total tr label + 1)
          \<and> tr_log tr' = tr_log tr @ [(rq_method rq, rq_path rq, recorded_status (code rt))]
          \<and> tr_span tr' = (if traced \<and> \<not> probe (rq_path rq)
               then Some (rq_method rq @ '' '' @ (if user = None \<and> \<not> internal then pattern_text rt else ''/''))
               else tr_span tr)"
  using assms by (cases user; cases internal; cases "probe (rq_path rq)") (simp_all add: layer_defs)

theorem only_guests_are_told_apart_witness:
  "tr_span (fst (listener_handler True False (Some \<lparr>au_id = ''ann'', au_email = '''', au_name = ''Ann''\<rparr>) (plain_request ''POST'' [''api'', ''games'', ''g'', ''moves'']) (\<lambda>_. Some 200) 0 new_trail))
     = Some ''POST /''
   \<and> tr_span (fst (listener_handler True False None (plain_request ''POST'' [''api'', ''games'', ''g'', ''moves'']) (\<lambda>_. Some 200) 0 new_trail))
     = Some ''POST POST /api/games/{id}/moves''"
proof -
  let ?rq = "plain_request ''POST'' [''api'', ''games'', ''g'', ''moves'']" and ?rt = "game_command ''POST'' [Lit ''moves''] EpMove"
  have found: "find_route api_routes (rq_method ?rq) (rq_path ?rq) = Some (?rt, [(''id'', ''g'')])" by code_simp
  show ?thesis
    using only_guests_are_told_apart [OF found, of 0 new_trail True False "Some \<lparr>au_id = ''ann'', au_email = '''', au_name = ''Ann''\<rparr>" "\<lambda>_. Some 200"]
      only_guests_are_told_apart [OF found, of 0 new_trail True False None "\<lambda>_. Some 200"]
    by (simp add: plain_request_def websocket_path_def probe_def new_trail_def Let_def pattern_text_def seg_text_def game_command_def game_path_def)
qed

end
