(* ===== verification/Start_Up.thy ===== *)
theory Start_Up
  imports Routes Elector
begin

text \<open>
  The start and the end of a process, \<open>cmd/server/main.go\<close> and \<open>New\<close> of \<open>internal/server/server.go\<close>: what the environment says, which of the
  three roles the process takes, what it opens, wires and starts in which order, when it refuses to start, and the order in which
  it stops. The database, Redis and the host's authentication are parameters.
\<close>

section \<open>Reading the environment\<close>

definition getenv :: "(string \<Rightarrow> string) \<Rightarrow> string \<Rightarrow> string \<Rightarrow> string" where
  "getenv env key fallback = (if env key \<noteq> '''' then env key else fallback)"

definition advertise_addr :: "string \<Rightarrow> string \<Rightarrow> string" where
  "advertise_addr advertise listen =
     (if advertise \<noteq> '''' then advertise
      else if take 1 listen = '':'' then ''127.0.0.1'' @ listen
      else listen)"

text \<open>\<open>strings.Split\<close> at a separator of one character.\<close>

fun split_at_char :: "char \<Rightarrow> string \<Rightarrow> string list" where
  "split_at_char sep [] = [[]]"
| "split_at_char sep (c # s) =
     (if c = sep then [] # split_at_char sep s
      else (case split_at_char sep s of p # ps \<Rightarrow> (c # p) # ps | [] \<Rightarrow> [[c]]))"

definition parse_origins :: "string \<Rightarrow> string list" where
  "parse_origins raw =
     (if raw = '''' then []
      else filter (\<lambda>s. s \<noteq> '''') (map trim_space (split_at_char (CHR '','') raw)))"

datatype role = All | Gateway | Gamesvc

definition parse_role :: "string \<Rightarrow> role option" where
  "parse_role s =
     (if s = ''all'' then Some All else if s = ''gateway'' then Some Gateway else if s = ''gamesvc'' then Some Gamesvc else None)"

section \<open>The actions of a start\<close>

datatype act =
  SetUpTracing | OpenDb string | DialRedis string | MakeAccounts | MakeAuth | MakeStore | StartCleaner | WireLeases
| StartHeartbeat | StartSweeper | MakeServer | StartBus | StartElector | StartMatcher | Serve string | ServeInternal string
| StopServing string | StopServingInternal string | StopElector | StopBus | StopLeases | StopStore | CloseDb | StopTracing
| CancelRoot

text \<open>What was done so far, and the deferred calls, the last deferred first.\<close>

record boot =
  bt_acts :: "act list"
  bt_defers :: "act list"

definition new_boot :: boot where
  "new_boot = \<lparr>bt_acts = [], bt_defers = []\<rparr>"

definition doing :: "act \<Rightarrow> boot \<Rightarrow> boot" where
  "doing a b = b\<lparr>bt_acts := bt_acts b @ [a]\<rparr>"

definition deferring :: "act \<Rightarrow> boot \<Rightarrow> boot" where
  "deferring a b = b\<lparr>bt_defers := a # bt_defers b\<rparr>"

text \<open>A phase of \<open>main\<close> gives a value, or the message it logs before \<open>os.Exit(1)\<close>; the exit runs no deferred call.\<close>

type_synonym 'a phase = "boot \<Rightarrow> (string + 'a) \<times> boot"

definition and_then :: "'a phase \<Rightarrow> ('a \<Rightarrow> 'b phase) \<Rightarrow> 'b phase" where
  "and_then m f b = (case m b of (Inl e, b') \<Rightarrow> (Inl e, b') | (Inr x, b') \<Rightarrow> f x b')"

definition refuse :: "string \<Rightarrow> 'a phase" where
  "refuse msg b = (Inl msg, b)"

definition give :: "'a \<Rightarrow> 'a phase" where
  "give x b = (Inr x, b)"

section \<open>The phases of main\<close>

text \<open>
  What libraries and other processes decide: the environment, \<open>db.Open\<close> (the tables of the database, if it answers and
  the migrations pass), \<open>bus.NewRedis\<close>, \<open>auth.FromEnv\<close> (whether accounts are local), \<open>auth.NewSQLStore\<close>, \<open>auth.New\<close> (whether guests may play)
  and fresh ids; \<open>os_unused\<close> is what an address of the heap holds that no record has yet.
\<close>

record outside =
  os_env :: "string \<Rightarrow> string"
  os_db :: "string \<Rightarrow> db option"
  os_redis :: "string \<Rightarrow> bool"
  os_auth_local :: "bool option"
  os_accounts :: bool
  os_auth :: "bool option"
  os_owner :: string
  os_candidate :: string
  os_pod :: string
  os_unused :: game_record

record backend =
  bk_db :: "db option"
  bk_bus :: "bus option"
  bk_leases :: "manager option"
  bk_resolver :: bool
  bk_elector :: "elector option"

definition in_memory :: backend where
  "in_memory = \<lparr>bk_db = None, bk_bus = None, bk_leases = None, bk_resolver = False, bk_elector = None\<rparr>"

definition read_role :: "outside \<Rightarrow> role phase" where
  "read_role os =
     (case parse_role (getenv (os_env os) ''ROLE'' ''all'') of
        None \<Rightarrow> refuse ''invalid ROLE''
      | Some r \<Rightarrow>
          if r \<noteq> All \<and> os_env os ''DATABASE_URL'' = ''''
          then refuse ''split roles need DATABASE_URL; in-memory mode is single-process only'' else give r)"

definition internal_addr :: "outside \<Rightarrow> string" where
  "internal_addr os = getenv (os_env os) ''INTERNAL_ADDR'' '':8090''"

definition open_backend :: "outside \<Rightarrow> role \<Rightarrow> backend phase" where
  "open_backend os r b =
     (let dsn = os_env os ''DATABASE_URL''; url = os_env os ''REDIS_URL''
      in if dsn = '''' then give in_memory b
         else case os_db os dsn of
           None \<Rightarrow> refuse ''database connection failed'' b
         | Some d \<Rightarrow>
             let b1 = deferring CloseDb (doing (OpenDb dsn) b)
             in if url = '''' then refuse ''REDIS_URL is required with DATABASE_URL (docker compose up -d starts one locally)'' b1
                else if \<not> os_redis os url then refuse ''redis bus init failed'' b1
                else let b2 = doing (DialRedis url) b1;
                         bk = \<lparr>bk_db = Some d, bk_bus = Some new_bus, bk_leases = None, bk_resolver = False, bk_elector = None\<rparr>
                     in if r = Gateway then give (bk\<lparr>bk_resolver := True\<rparr>) b2
                        else give (bk\<lparr>bk_leases := Some (with_addr (new_manager (os_owner os))
                                        (advertise_addr (os_env os ''ADVERTISE_ADDR'') (internal_addr os))),
                                      bk_elector := Some (new_elector (os_candidate os))\<rparr>) b2)"

text \<open>The accounts: whether guests may play.\<close>

definition open_accounts :: "outside \<Rightarrow> backend \<Rightarrow> bool phase" where
  "open_accounts os bk b =
     (case os_auth_local os of
        None \<Rightarrow> refuse ''auth config'' b
      | Some local \<Rightarrow>
          if local \<and> bk_db bk = None then refuse ''AUTH_MODE=local needs DATABASE_URL: accounts live in Postgres'' b
          else if local \<and> \<not> os_accounts os then refuse ''accounts tables'' b
          else let b1 = (if local then doing MakeAccounts b else b)
               in case os_auth os of
                    None \<Rightarrow> refuse ''auth init'' b1
                  | Some guest \<Rightarrow> give guest (doing MakeAuth b1))"

record server_config =
  cf_guest :: bool
  cf_origins :: "string list"
  cf_forward :: string
  cf_resolver :: bool

definition read_config :: "outside \<Rightarrow> role \<Rightarrow> backend \<Rightarrow> bool \<Rightarrow> server_config phase" where
  "read_config os r bk guest =
     (let cfg = \<lparr>cf_guest = guest, cf_origins = parse_origins (os_env os ''ALLOWED_ORIGINS''), cf_forward = '''', cf_resolver = False\<rparr>;
          pool = os_env os ''GAMESVC_ADDR''
      in if r \<noteq> Gateway then give cfg
         else if pool = '''' then refuse ''ROLE=gateway needs GAMESVC_ADDR (the gamesvc pool address, e.g. gemline-gamesvc:8090)''
         else give (cfg\<lparr>cf_forward := pool, cf_resolver := bk_resolver bk\<rparr>))"

text \<open>The store with its background work; the callback for lost leases is there before the first heartbeat.\<close>

definition start_store :: "role \<Rightarrow> backend \<Rightarrow> boot \<Rightarrow> boot" where
  "start_store r bk b =
     (let b1 = deferring StopStore (doing MakeStore b);
          b2 = (if r \<noteq> Gateway then doing StartCleaner b1 else b1)
      in if bk_leases bk = None then b2
         else doing StartSweeper (deferring StopLeases (doing StartHeartbeat (doing WireLeases b2))))"

text \<open>\<open>server.New\<close>, which returns no error: fresh hubs, the store in forward-only mode for a gateway and wired to the bus.\<close>

definition new_server :: "outside \<Rightarrow> server_config \<Rightarrow> backend \<Rightarrow> db \<Rightarrow> pod" where
  "new_server os cfg bk d =
     \<lparr>pd_store = new_store (os_unused os) (bk_leases bk) (cf_forward cfg \<noteq> '''') (bk_bus bk) d,
      pd_hub = new_hub, pd_lobby = new_hub, pd_id = os_pod os, pd_sent = []\<rparr>"

definition start_bus :: "backend \<Rightarrow> boot \<Rightarrow> boot" where
  "start_bus bk b = (if bk_bus bk = None then b else deferring StopBus (doing StartBus b))"

definition bus_live :: "pod \<Rightarrow> pod" where
  "bus_live p = on_store (\<lambda>st. st\<lparr>so_bus := map_option bus_start (so_bus st)\<rparr>) p"

text \<open>The matcher runs on the elected pod, without a database at once.\<close>

datatype matching = NoMatcher | OnElection | Always

definition start_matching :: "role \<Rightarrow> backend \<Rightarrow> boot \<Rightarrow> matching \<times> boot" where
  "start_matching r bk b =
     (if bk_elector bk \<noteq> None then (OnElection, deferring StopElector (doing StartElector b))
      else if r \<noteq> Gateway then (Always, doing StartMatcher b)
      else (NoMatcher, b))"

text \<open>The process that serves: without a database its tables live in no repository, and it has no pod of the model.\<close>

record process =
  pc_role :: role
  pc_config :: server_config
  pc_backend :: backend
  pc_pod :: "pod option"
  pc_matching :: matching
  pc_public :: "string option"
  pc_internal :: "string option"

definition listen_on :: "process \<Rightarrow> boot \<Rightarrow> boot" where
  "listen_on pc b =
     (let b1 = (case pc_public pc of None \<Rightarrow> b | Some a \<Rightarrow> doing (Serve a) b)
      in case pc_internal pc of None \<Rightarrow> b1 | Some a \<Rightarrow> doing (ServeInternal a) b1)"

definition serve_as :: "outside \<Rightarrow> role \<Rightarrow> backend \<Rightarrow> server_config \<Rightarrow> process phase" where
  "serve_as os r bk cfg b =
     (let b1 = start_bus bk (doing MakeServer (start_store r bk b));
          (m, b2) = start_matching r bk b1;
          pc = \<lparr>pc_role = r, pc_config = cfg, pc_backend = bk,
                pc_pod = map_option (\<lambda>d. bus_live (new_server os cfg bk d)) (bk_db bk), pc_matching = m,
                pc_public = (if r \<noteq> Gamesvc then Some (getenv (os_env os) ''ADDR'' '':8080'') else None),
                pc_internal = (if bk_leases bk \<noteq> None then Some (internal_addr os) else None)\<rparr>
      in (Inr pc, listen_on pc b2))"

definition main_phases :: "outside \<Rightarrow> process phase" where
  "main_phases os =
     and_then (read_role os) (\<lambda>r b0.
       and_then (open_backend os r) (\<lambda>bk.
       and_then (open_accounts os bk) (\<lambda>guest.
       and_then (read_config os r bk guest) (\<lambda>cfg.
         serve_as os r bk cfg)))
       (deferring StopTracing (doing SetUpTracing (deferring CancelRoot b0))))"

definition start_up :: "outside \<Rightarrow> (string + process) \<times> boot" where
  "start_up os = main_phases os new_boot"

text \<open>After the signal the listeners drain, then the deferred calls run.\<close>

definition shut_down :: "process \<Rightarrow> boot \<Rightarrow> act list" where
  "shut_down pc b =
     (case pc_public pc of None \<Rightarrow> [] | Some a \<Rightarrow> [StopServing a])
     @ (case pc_internal pc of None \<Rightarrow> [] | Some a \<Rightarrow> [StopServingInternal a]) @ bt_defers b"

text \<open>What a listener of the process serves requests with.\<close>

definition listener :: "process \<Rightarrow> bool \<Rightarrow> services \<Rightarrow> services" where
  "listener pc internal sv =
     sv\<lparr>sv_guest := cf_guest (pc_config pc), sv_forward := cf_forward (pc_config pc), sv_resolver := cf_resolver (pc_config pc),
        sv_internal := internal\<rparr>"

end
