(* ===== verification/Start_Up_Props.thy ===== *)
theory Start_Up_Props
  imports Start_Up Routes_Props Store_Props
begin

text \<open>
  What the start of a process guarantees: which environments are refused and that a refused start has touched nothing other pods
  see, what each role runs, the order of the start, and that the end undoes it in reverse.
\<close>

section \<open>Running the phases\<close>

lemmas phase_defs = and_then_def refuse_def give_def doing_def deferring_def Let_def

text \<open>What a start that serves has done and deferred.\<close>

definition acts_of :: "outside \<Rightarrow> role \<Rightarrow> act list" where
  "acts_of os r =
     (let db = os_env os ''DATABASE_URL'' \<noteq> '''' in
      [SetUpTracing] @ (if db then [OpenDb (os_env os ''DATABASE_URL''), DialRedis (os_env os ''REDIS_URL'')] else [])
      @ (if os_auth_local os = Some True then [MakeAccounts] else []) @ [MakeAuth, MakeStore]
      @ (if r \<noteq> Gateway then [StartCleaner] else [])
      @ (if db \<and> r \<noteq> Gateway then [WireLeases, StartHeartbeat, StartSweeper] else [])
      @ [MakeServer] @ (if db then [StartBus] else [])
      @ (if r = Gateway then [] else if db then [StartElector] else [StartMatcher])
      @ (if r \<noteq> Gamesvc then [Serve (getenv (os_env os) ''ADDR'' '':8080'')] else [])
      @ (if db \<and> r \<noteq> Gateway then [ServeInternal (internal_addr os)] else []))"

definition defers_of :: "outside \<Rightarrow> role \<Rightarrow> act list" where
  "defers_of os r =
     (let db = os_env os ''DATABASE_URL'' \<noteq> '''' in
      (if db \<and> r \<noteq> Gateway then [StopElector] else []) @ (if db then [StopBus] else [])
      @ (if db \<and> r \<noteq> Gateway then [StopLeases] else []) @ [StopStore] @ (if db then [CloseDb] else [])
      @ [StopTracing, CancelRoot])"

text \<open>The environment as the phases read it: whether it is refused.\<close>

definition bad_backend :: "outside \<Rightarrow> bool" where
  "bad_backend os \<longleftrightarrow>
     os_env os ''DATABASE_URL'' \<noteq> ''''
     \<and> (os_db os (os_env os ''DATABASE_URL'') = None \<or> os_env os ''REDIS_URL'' = '''' \<or> \<not> os_redis os (os_env os ''REDIS_URL''))"

definition bad_accounts :: "outside \<Rightarrow> bool" where
  "bad_accounts os \<longleftrightarrow>
     os_auth_local os = None \<or> os_auth os = None
     \<or> os_auth_local os = Some True \<and> (os_env os ''DATABASE_URL'' = '''' \<or> \<not> os_accounts os)"

definition bad_role :: "outside \<Rightarrow> role \<Rightarrow> bool" where
  "bad_role os r \<longleftrightarrow>
     r \<noteq> All \<and> os_env os ''DATABASE_URL'' = '''' \<or> r = Gateway \<and> os_env os ''GAMESVC_ADDR'' = ''''"

lemma backend_opens:
  assumes "r \<noteq> All \<longrightarrow> os_env os ''DATABASE_URL'' \<noteq> ''''"
  shows "open_backend os r b = (Inr bk, b') \<Longrightarrow>
    \<not> bad_backend os \<and> (bk_db bk = None \<longleftrightarrow> os_env os ''DATABASE_URL'' = '''')
    \<and> bk_db bk = (if os_env os ''DATABASE_URL'' = '''' then None else os_db os (os_env os ''DATABASE_URL''))
    \<and> bk_bus bk = (if os_env os ''DATABASE_URL'' = '''' then None else Some new_bus)
    \<and> bk_leases bk = (if os_env os ''DATABASE_URL'' = '''' \<or> r = Gateway then None else
        Some (with_addr (new_manager (os_owner os)) (advertise_addr (os_env os ''ADVERTISE_ADDR'') (internal_addr os))))
    \<and> (bk_elector bk = None \<longleftrightarrow> bk_leases bk = None) \<and> (bk_resolver bk \<longleftrightarrow> r = Gateway)
    \<and> bt_acts b' = bt_acts b @ (if os_env os ''DATABASE_URL'' = '''' then []
        else [OpenDb (os_env os ''DATABASE_URL''), DialRedis (os_env os ''REDIS_URL'')])
    \<and> bt_defers b' = (if os_env os ''DATABASE_URL'' = '''' then [] else [CloseDb]) @ bt_defers b"
  "open_backend os r b = (Inl msg, b') \<Longrightarrow> bad_backend os \<and> set (bt_acts b') \<subseteq> set (bt_acts b) \<union> range OpenDb"
  using assms
  by (auto simp: open_backend_def bad_backend_def in_memory_def phase_defs split: option.splits if_splits)

lemma accounts_open:
  "open_accounts os bk b = (Inr guest, b') \<Longrightarrow>
     os_auth os = Some guest \<and> os_auth_local os \<noteq> None \<and> (os_auth_local os = Some True \<longrightarrow> bk_db bk \<noteq> None \<and> os_accounts os)
     \<and> bt_acts b' = bt_acts b @ (if os_auth_local os = Some True then [MakeAccounts] else []) @ [MakeAuth]
     \<and> bt_defers b' = bt_defers b"
  "open_accounts os bk b = (Inl msg, b') \<Longrightarrow>
     (os_auth_local os = None \<or> os_auth os = None \<or> os_auth_local os = Some True \<and> (bk_db bk = None \<or> \<not> os_accounts os))
     \<and> set (bt_acts b') \<subseteq> set (bt_acts b) \<union> {MakeAccounts}"
  by (auto simp: open_accounts_def phase_defs split: option.splits if_splits)

lemma config_reads:
  "read_config os r bk guest b = (Inr cfg, b') \<Longrightarrow>
     b' = b \<and> cf_guest cfg = guest \<and> cf_origins cfg = parse_origins (os_env os ''ALLOWED_ORIGINS'')
     \<and> cf_forward cfg = (if r = Gateway then os_env os ''GAMESVC_ADDR'' else '''') \<and> (r = Gateway \<longrightarrow> cf_forward cfg \<noteq> '''')
     \<and> cf_resolver cfg = (r = Gateway \<and> bk_resolver bk)"
  "read_config os r bk guest b = (Inl msg, b') \<Longrightarrow> b' = b \<and> r = Gateway \<and> os_env os ''GAMESVC_ADDR'' = ''''"
  by (auto simp: read_config_def phase_defs split: if_splits)

lemma role_reads:
  "read_role os b = (Inr r, b') \<Longrightarrow> b' = b \<and> parse_role (getenv (os_env os) ''ROLE'' ''all'') = Some r
     \<and> (r \<noteq> All \<longrightarrow> os_env os ''DATABASE_URL'' \<noteq> '''')"
  "read_role os b = (Inl msg, b') \<Longrightarrow> b' = b \<and> (case parse_role (getenv (os_env os) ''ROLE'' ''all'') of
     None \<Rightarrow> True | Some r \<Rightarrow> r \<noteq> All \<and> os_env os ''DATABASE_URL'' = '''')"
  by (auto simp: read_role_def phase_defs split: option.splits if_splits)

lemma and_then_cases:
  "and_then m f b = (Inr y, b'') \<Longrightarrow> \<exists>x b'. m b = (Inr x, b') \<and> f x b' = (Inr y, b'')"
  "and_then m f b = (Inl e, b'') \<Longrightarrow> m b = (Inl e, b'') \<or> (\<exists>x b'. m b = (Inr x, b') \<and> f x b' = (Inl e, b''))"
  by (auto simp: and_then_def split: prod.splits sum.splits)

lemma started:
  assumes "start_up os = (Inr pc, b)"
  shows "parse_role (getenv (os_env os) ''ROLE'' ''all'') = Some (pc_role pc)"
    "\<not> bad_backend os \<and> \<not> bad_accounts os \<and> \<not> bad_role os (pc_role pc)"
    "bt_acts b = acts_of os (pc_role pc)" "bt_defers b = defers_of os (pc_role pc)"
    "\<exists>bk guest cfg b1 b2 b3 b4. open_backend os (pc_role pc) b1 = (Inr bk, b2) \<and> open_accounts os bk b2 = (Inr guest, b3)
       \<and> read_config os (pc_role pc) bk guest b3 = (Inr cfg, b3) \<and> serve_as os (pc_role pc) bk cfg b3 = (Inr pc, b4)"
proof -
  let ?b = "\<lparr>bt_acts = [SetUpTracing], bt_defers = [StopTracing, CancelRoot]\<rparr>"
  obtain r bk guest cfg b2 b3 b4 where
    role: "parse_role (getenv (os_env os) ''ROLE'' ''all'') = Some r" "r \<noteq> All \<longrightarrow> os_env os ''DATABASE_URL'' \<noteq> ''''"
    and bk: "open_backend os r ?b = (Inr bk, b2)" and acc: "open_accounts os bk b2 = (Inr guest, b3)"
    and cfg4: "read_config os r bk guest b3 = (Inr cfg, b4)" and serve4: "serve_as os r bk cfg b4 = (Inr pc, b)"
    using assms unfolding start_up_def main_phases_def
    by (auto dest!: and_then_cases(1) role_reads(1) simp: new_boot_def doing_def deferring_def) blast
  have b4: "b4 = b3" using config_reads(1) [OF cfg4] by simp
  note cfg = cfg4 [unfolded b4] and serve = serve4 [unfolded b4]
  note facts = backend_opens(1) [OF role(2) bk] accounts_open(1) [OF acc] config_reads(1) [OF cfg]
  have r: "pc_role pc = r" using serve by (auto simp: serve_as_def Let_def split: prod.splits)
  show "parse_role (getenv (os_env os) ''ROLE'' ''all'') = Some (pc_role pc)" by (simp add: r role(1))
  show "\<not> bad_backend os \<and> \<not> bad_accounts os \<and> \<not> bad_role os (pc_role pc)"
    using facts role(2) by (auto simp: bad_accounts_def bad_role_def r)
  have bt: "bt_acts b3 = SetUpTracing # (if os_env os ''DATABASE_URL'' = '''' then []
        else [OpenDb (os_env os ''DATABASE_URL''), DialRedis (os_env os ''REDIS_URL'')])
        @ (if os_auth_local os = Some True then [MakeAccounts] else []) @ [MakeAuth]"
    "bt_defers b3 = (if os_env os ''DATABASE_URL'' = '''' then [] else [CloseDb]) @ [StopTracing, CancelRoot]"
    using facts by auto
  have dbs: "bk_bus bk = None \<longleftrightarrow> os_env os ''DATABASE_URL'' = ''''"
    "bk_leases bk = None \<longleftrightarrow> os_env os ''DATABASE_URL'' = '''' \<or> r = Gateway" "bk_elector bk = None \<longleftrightarrow> bk_leases bk = None"
    using facts by auto
  show "bt_acts b = acts_of os (pc_role pc)" "bt_defers b = defers_of os (pc_role pc)"
    using serve role(2)
    by (cases r; cases "os_env os ''DATABASE_URL'' = ''''";
        auto simp: r serve_as_def listen_on_def start_matching_def start_bus_def start_store_def doing_def deferring_def Let_def
          acts_of_def defers_of_def bt dbs)+
  show "\<exists>bk guest cfg b1 b2 b3 b4. open_backend os (pc_role pc) b1 = (Inr bk, b2) \<and> open_accounts os bk b2 = (Inr guest, b3)
       \<and> read_config os (pc_role pc) bk guest b3 = (Inr cfg, b3) \<and> serve_as os (pc_role pc) bk cfg b3 = (Inr pc, b4)"
    using bk acc cfg serve r by blast
qed

definition bad_environment :: "outside \<Rightarrow> bool" where
  "bad_environment os \<longleftrightarrow>
     (case parse_role (getenv (os_env os) ''ROLE'' ''all'') of
        None \<Rightarrow> True | Some r \<Rightarrow> bad_role os r \<or> bad_backend os \<or> bad_accounts os)"

lemma refused:
  assumes "start_up os = (Inl msg, b)"
  shows "bad_environment os \<and> set (bt_acts b) \<subseteq> {SetUpTracing, MakeAccounts, MakeAuth} \<union> range OpenDb \<union> range DialRedis"
proof -
  let ?b = "\<lparr>bt_acts = [SetUpTracing], bt_defers = [StopTracing, CancelRoot]\<rparr>"
  consider (role) "read_role os new_boot = (Inl msg, b)"
    | (later) r where "read_role os new_boot = (Inr r, new_boot)"
        "and_then (open_backend os r) (\<lambda>bk. and_then (open_accounts os bk) (\<lambda>guest.
           and_then (read_config os r bk guest) (serve_as os r bk))) ?b = (Inl msg, b)"
    using and_then_cases(2) [OF assms [unfolded start_up_def main_phases_def]] role_reads(1) [of os new_boot]
    by (fastforce simp: new_boot_def doing_def deferring_def)
  then show ?thesis
  proof cases
    case role
    then show ?thesis using role_reads(2) [OF role] by (auto simp: new_boot_def bad_environment_def bad_role_def split: option.splits)
  next
    case later
    note r = role_reads(1) [OF later(1)]
    consider (bk) "open_backend os r ?b = (Inl msg, b)"
      | (acc) bk b2 where "open_backend os r ?b = (Inr bk, b2)" "open_accounts os bk b2 = (Inl msg, b)"
      | (cfg) bk b2 guest b3 where "open_backend os r ?b = (Inr bk, b2)" "open_accounts os bk b2 = (Inr guest, b3)"
          "read_config os r bk guest b3 = (Inl msg, b)"
      using later(2) by (auto dest!: and_then_cases simp: serve_as_def Let_def split: prod.splits)
    then show ?thesis
    proof cases
      case bk
      then show ?thesis using backend_opens(2) [OF _ bk] r by (auto simp: bad_environment_def)
    next
      case acc
      then show ?thesis using backend_opens(1) [OF _ acc(1)] accounts_open(2) [OF acc(2)] r
        by (auto simp: bad_environment_def bad_accounts_def split: if_splits)
    next
      case cfg
      then show ?thesis using backend_opens(1) [OF _ cfg(1)] accounts_open(1) [OF cfg(2)] config_reads(2) [OF cfg(3)] r
        by (auto simp: bad_environment_def bad_role_def split: if_splits)
    qed
  qed
qed

section \<open>What a start guarantees\<close>

text \<open>A process is refused exactly when the role is unknown, a split role has no database or a gateway no pool, the database or
  Redis is missing or does not answer, or the accounts cannot be set up. A refused start has at most opened the database, Redis and the
  accounts: it serves nothing, holds no lease and has joined no bus and no election, so no other pod notices it.\<close>

theorem start_is_refused_before_anyone_sees_it:
  "case start_up os of
     (Inl msg, b) \<Rightarrow> bad_environment os \<and> set (bt_acts b) \<subseteq> {SetUpTracing, MakeAccounts, MakeAuth} \<union> range OpenDb \<union> range DialRedis
   | (Inr pc, b) \<Rightarrow> \<not> bad_environment os \<and> {MakeServer, MakeStore} \<subseteq> set (bt_acts b)"
proof (cases "start_up os")
  case (Pair x b)
  then show ?thesis
    using refused [of os _ b] started(1-3) [of os _ b]
    by (cases x) (auto simp: bad_environment_def acts_of_def Let_def)
qed

definition undo :: "act \<Rightarrow> act option" where
  "undo a =
     (case a of
        SetUpTracing \<Rightarrow> Some StopTracing | OpenDb _ \<Rightarrow> Some CloseDb | MakeStore \<Rightarrow> Some StopStore | StartHeartbeat \<Rightarrow> Some StopLeases
      | StartBus \<Rightarrow> Some StopBus | StartElector \<Rightarrow> Some StopElector | _ \<Rightarrow> None)"

definition drain :: "act \<Rightarrow> act option" where
  "drain a = (case a of Serve x \<Rightarrow> Some (StopServing x) | ServeInternal x \<Rightarrow> Some (StopServingInternal x) | _ \<Rightarrow> None)"

text \<open>Every \<open>c\<close> in the list has an \<open>a\<close> before it.\<close>

fun before :: "'a \<Rightarrow> 'a \<Rightarrow> 'a list \<Rightarrow> bool" where
  "before a c [] = True"
| "before a c (x # xs) = (x = a \<or> x \<noteq> c \<and> before a c xs)"

lemma served_as:
  "serve_as os r bk cfg b = (Inr pc, b') \<Longrightarrow>
     pc_config pc = cfg \<and> pc_pod pc = map_option (\<lambda>d. bus_live (new_server os cfg bk d)) (bk_db bk)
     \<and> pc_public pc = (if r \<noteq> Gamesvc then Some (getenv (os_env os) ''ADDR'' '':8080'') else None)
     \<and> pc_internal pc = (if bk_leases bk \<noteq> None then Some (internal_addr os) else None)
     \<and> pc_matching pc = (if bk_elector bk \<noteq> None then OnElection else if r \<noteq> Gateway then Always else NoMatcher)"
  by (auto simp: serve_as_def Let_def start_matching_def split: prod.splits if_splits)

lemma process_of:
  assumes "start_up os = (Inr pc, b)"
  shows "pc_public pc = (if pc_role pc = Gamesvc then None else Some (getenv (os_env os) ''ADDR'' '':8080''))"
    "pc_internal pc = (if pc_role pc = Gateway \<or> os_env os ''DATABASE_URL'' = '''' then None else Some (internal_addr os))"
    "pc_matching pc = (if pc_role pc = Gateway then NoMatcher else if os_env os ''DATABASE_URL'' = '''' then Always else OnElection)"
    "cf_forward (pc_config pc) = (if pc_role pc = Gateway then os_env os ''GAMESVC_ADDR'' else '''')"
    "pc_role pc = Gateway \<longrightarrow> cf_forward (pc_config pc) \<noteq> '''' \<and> cf_resolver (pc_config pc)"
    "cf_origins (pc_config pc) = parse_origins (os_env os ''ALLOWED_ORIGINS'')"
    "pc_pod pc = None \<longleftrightarrow> os_env os ''DATABASE_URL'' = ''''"
    "pc_pod pc = Some p \<Longrightarrow> so_forward (pd_store p) = (pc_role pc = Gateway) \<and> so_games (pd_store p) = Map.empty
       \<and> so_leases (pd_store p) = (if pc_role pc = Gateway then None else
          Some (with_addr (new_manager (os_owner os)) (advertise_addr (os_env os ''ADVERTISE_ADDR'') (internal_addr os))))"
proof -
  obtain bk guest cfg b1 b2 b3 b4 where
    bk: "open_backend os (pc_role pc) b1 = (Inr bk, b2)" and cfg: "read_config os (pc_role pc) bk guest b3 = (Inr cfg, b3)"
    and serve: "serve_as os (pc_role pc) bk cfg b3 = (Inr pc, b4)"
    using started(5) [OF assms] by blast
  have db: "pc_role pc \<noteq> All \<longrightarrow> os_env os ''DATABASE_URL'' \<noteq> ''''"
    using started(2) [OF assms] by (auto simp: bad_role_def)
  have opens: "\<not> bad_backend os" "bk_db bk = None \<longleftrightarrow> os_env os ''DATABASE_URL'' = ''''"
    "bk_leases bk = (if os_env os ''DATABASE_URL'' = '''' \<or> pc_role pc = Gateway then None else
        Some (with_addr (new_manager (os_owner os)) (advertise_addr (os_env os ''ADVERTISE_ADDR'') (internal_addr os))))"
    "bk_elector bk = None \<longleftrightarrow> bk_leases bk = None" "bk_resolver bk \<longleftrightarrow> pc_role pc = Gateway"
    using backend_opens(1) [OF db bk] by blast+
  note config = config_reads(1) [OF cfg]
  have pc: "pc_config pc = cfg" "pc_pod pc = map_option (\<lambda>d. bus_live (new_server os cfg bk d)) (bk_db bk)"
    "pc_public pc = (if pc_role pc \<noteq> Gamesvc then Some (getenv (os_env os) ''ADDR'' '':8080'') else None)"
    "pc_internal pc = (if bk_leases bk \<noteq> None then Some (internal_addr os) else None)"
    "pc_matching pc = (if bk_elector bk \<noteq> None then OnElection else if pc_role pc \<noteq> Gateway then Always else NoMatcher)"
    using served_as [OF serve] by blast+
  show "pc_public pc = (if pc_role pc = Gamesvc then None else Some (getenv (os_env os) ''ADDR'' '':8080''))" by (simp add: pc)
  show "pc_internal pc = (if pc_role pc = Gateway \<or> os_env os ''DATABASE_URL'' = '''' then None else Some (internal_addr os))"
    by (auto simp: pc opens)
  show "pc_matching pc = (if pc_role pc = Gateway then NoMatcher else if os_env os ''DATABASE_URL'' = '''' then Always else OnElection)"
    by (auto simp: pc opens)
  show "cf_forward (pc_config pc) = (if pc_role pc = Gateway then os_env os ''GAMESVC_ADDR'' else '''')"
    "pc_role pc = Gateway \<longrightarrow> cf_forward (pc_config pc) \<noteq> '''' \<and> cf_resolver (pc_config pc)"
    "cf_origins (pc_config pc) = parse_origins (os_env os ''ALLOWED_ORIGINS'')"
    using config opens by (auto simp: pc)
  show "pc_pod pc = None \<longleftrightarrow> os_env os ''DATABASE_URL'' = ''''" by (simp add: pc opens)
  show "so_forward (pd_store p) = (pc_role pc = Gateway) \<and> so_games (pd_store p) = Map.empty
       \<and> so_leases (pd_store p) = (if pc_role pc = Gateway then None else
          Some (with_addr (new_manager (os_owner os)) (advertise_addr (os_env os ''ADVERTISE_ADDR'') (internal_addr os))))"
    if pod: "pc_pod pc = Some p"
  proof -
    obtain d where "bk_db bk = Some d" "p = bus_live (new_server os cfg bk d)" using pod by (auto simp: pc)
    then show ?thesis using config opens by (auto simp: bus_live_def new_server_def on_store_def new_store_def)
  qed
qed

text \<open>The end of a process undoes its start: the listeners stop first, then everything that was started is stopped exactly once, the
  last started first. So the election is left before the bus closes, the leases are released while their database is open,
  and the pool closes after the store. The background work of the root context, the sweeper that claims orphaned games among it, is
  cancelled last, after the leases were released.\<close>

theorem shutdown_undoes_the_start:
  assumes "start_up os = (Inr pc, b)"
  shows "shut_down pc b = List.map_filter drain (bt_acts b) @ rev (List.map_filter undo (bt_acts b)) @ [CancelRoot]
    \<and> distinct (shut_down pc b)
    \<and> before WireLeases StartHeartbeat (bt_acts b) \<and> before MakeServer StartBus (bt_acts b) \<and> before StartBus StartElector (bt_acts b)
    \<and> before MakeServer (Serve a) (bt_acts b) \<and> before MakeServer (ServeInternal a) (bt_acts b)
    \<and> before StopStore CloseDb (shut_down pc b)
    \<and> (StartHeartbeat \<in> set (bt_acts b) \<longrightarrow> before StopElector StopLeases (shut_down pc b) \<and> before StopLeases CloseDb (shut_down pc b))"
proof -
  have role: "\<not> bad_role os (pc_role pc)" using started(2) [OF assms] by simp
  show ?thesis
    using role
    by (cases "pc_role pc"; cases "os_env os ''DATABASE_URL'' = ''''"; cases "os_auth_local os = Some True")
      (simp_all add: shut_down_def process_of(1,2) [OF assms] started(3,4) [OF assms] acts_of_def defers_of_def Let_def
        map_filter_simps undo_def drain_def bad_role_def)
qed

definition sample_outside :: "string \<Rightarrow> outside" where
  "sample_outside r =
     \<lparr>os_env = (\<lambda>k. if k = ''ROLE'' then r else if k = ''DATABASE_URL'' then ''postgres://db'' else if k = ''REDIS_URL'' then ''redis://bus''
        else if k = ''GAMESVC_ADDR'' then ''pool:8090'' else if k = ''ALLOWED_ORIGINS'' then ''https://a, ,https://b'' else ''''),
      os_db = (\<lambda>_. Some empty_db), os_redis = (\<lambda>_. True), os_auth_local = Some False, os_accounts = True, os_auth = Some True,
      os_owner = ''pod-a'', os_candidate = ''cand'', os_pod = ''a'',
      os_unused = blank_record\<rparr>"

lemmas start_up_simps = start_up_def main_phases_def phase_defs read_role_def parse_role_def getenv_def open_backend_def open_accounts_def
  read_config_def serve_as_def start_store_def start_bus_def start_matching_def listen_on_def new_boot_def internal_addr_def sample_outside_def

lemma sample_starts:
  "\<exists>pc b. start_up (sample_outside ''gateway'') = (Inr pc, b) \<and> pc_role pc = Gateway
     \<and> bt_defers b = [StopBus, StopStore, CloseDb, StopTracing, CancelRoot] \<and> StartHeartbeat \<notin> set (bt_acts b)"
  "\<exists>pc b. start_up (sample_outside ''gamesvc'') = (Inr pc, b) \<and> pc_role pc = Gamesvc \<and> StartHeartbeat \<in> set (bt_acts b)"
  by (simp_all add: start_up_simps)

theorem shutdown_undoes_the_start_witness:
  "\<exists>pc b. start_up (sample_outside ''gamesvc'') = (Inr pc, b) \<and> before StopLeases CloseDb (shut_down pc b) \<and> distinct (shut_down pc b)"
proof -
  obtain pc b where s: "start_up (sample_outside ''gamesvc'') = (Inr pc, b)" "StartHeartbeat \<in> set (bt_acts b)"
    using sample_starts(2) by blast
  show ?thesis using shutdown_undoes_the_start [OF s(1), of "''x''"] s by blast
qed

text \<open>The role decides what a process runs. A gateway serves the public listener and nothing else: it holds no leases, starts no
  heartbeat, no sweeper, no cleaner and no matcher, it knows its pool, and it owns no game. A pod of game logic has no public listener, answers on the
  internal one, heartbeats, campaigns for the matcher, and every lease it takes names an address that can be dialled.
  A single process serves the public and matches at once when it has no database.\<close>

theorem role_decides_what_runs:
  assumes "start_up os = (Inr pc, b)"
  shows "(case pc_role pc of
      Gateway \<Rightarrow> pc_public pc \<noteq> None \<and> pc_internal pc = None \<and> pc_matching pc = NoMatcher \<and> cf_forward (pc_config pc) \<noteq> ''''
        \<and> cf_resolver (pc_config pc) \<and> pc_pod pc \<noteq> None
        \<and> set (bt_acts b) \<inter> {StartCleaner, StartHeartbeat, StartSweeper, StartElector, StartMatcher} = {}
    | Gamesvc \<Rightarrow> pc_public pc = None \<and> pc_internal pc \<noteq> None \<and> pc_matching pc = OnElection \<and> cf_forward (pc_config pc) = ''''
        \<and> pc_pod pc \<noteq> None \<and> {StartCleaner, WireLeases, StartHeartbeat, StartSweeper, StartElector} \<subseteq> set (bt_acts b)
    | All \<Rightarrow> pc_public pc \<noteq> None \<and> cf_forward (pc_config pc) = '''' \<and> StartCleaner \<in> set (bt_acts b)
        \<and> pc_matching pc = (if pc_pod pc = None then Always else OnElection) \<and> (pc_internal pc = None \<longleftrightarrow> pc_pod pc = None))
    \<and> (\<forall>p. pc_pod pc = Some p \<longrightarrow> (case so_leases (pd_store p) of
         None \<Rightarrow> pc_role pc = Gateway \<and> \<not> owns_game (pd_store p) gid
       | Some m \<Rightarrow> pc_role pc \<noteq> Gateway \<and> mg_addr m \<noteq> '''' \<and> mg_held m = Map.empty))"
proof -
  have role: "\<not> bad_role os (pc_role pc)" using started(2) [OF assms] by simp
  have addr: "advertise_addr x (internal_addr os) \<noteq> ''''" for x
    by (auto simp: advertise_addr_def internal_addr_def getenv_def)
  have "case so_leases (pd_store p) of
         None \<Rightarrow> pc_role pc = Gateway \<and> \<not> owns_game (pd_store p) gid
       | Some m \<Rightarrow> pc_role pc \<noteq> Gateway \<and> mg_addr m \<noteq> '''' \<and> mg_held m = Map.empty" if "pc_pod pc = Some p" for p
    using process_of(8) [OF assms that] addr by (auto simp: owns_game_def with_addr_def new_manager_def)
  then show ?thesis
    using role process_of(1-5,7) [OF assms]
    by (cases "pc_role pc") (auto simp: started(3) [OF assms] acts_of_def Let_def bad_role_def)
qed

theorem role_decides_what_runs_witness:
  "\<exists>pc b. start_up (sample_outside ''gateway'') = (Inr pc, b) \<and> pc_matching pc = NoMatcher \<and> cf_forward (pc_config pc) \<noteq> ''''"
proof -
  obtain pc b where s: "start_up (sample_outside ''gateway'') = (Inr pc, b)" "pc_role pc = Gateway"
    using sample_starts(1) by blast
  show ?thesis using role_decides_what_runs [OF s(1)] s by auto
qed

section \<open>Serving with the configuration\<close>

text \<open>C17: While its pool answers, a gateway executes no command whose body it can read: whoever holds the game, its games, tables and subscribers
  stay as they are. A command on a game goes to the owner that the table of leases names, if the table can be read, that lease is live, its
  address is known and the owner answers; otherwise, and for a new game always, it goes to the pool. Only the limits on chat messages and new games answer here.\<close>

theorem gateway_executes_no_command:
  fixes sv :: services and p :: pod
  assumes "start_up os = (Inr pc, b)" "pc_role pc = Gateway" "reachable (os_env os ''GAMESVC_ADDR'')"
    "find_route api_routes (rq_method rq) (rq_path rq) = Some (rt, vars)" "rt_routing rt \<noteq> Local"
    "rq_readable rq" "rq_method rq \<noteq> ''OPTIONS''"
  defines "named \<equiv> case db_leases (so_db (pd_store p)) (var_of vars ''id'') of
      Some l \<Rightarrow> if rt_routing rt = Owned \<and> ev_lease (cx_env (sv_ctx sv)) \<noteq> DbFailed \<and> ev_dbnow (cx_env (sv_ctx sv)) \<le> lr_expires l
                then lr_addr l else ''''
    | None \<Rightarrow> ''''"
  shows "\<exists>rl' out. serve_request (listener pc False sv) reachable take_token fresh rq (rl, p) = ((rl', p), out)
    \<and> (out = PassedOn (if named \<noteq> '''' \<and> reachable named then named else os_env os ''GAMESVC_ADDR'')
       \<or> rt_limit rt \<noteq> None \<and> out = Answered (Resp 429 (TextBody too_many_requests)))"
proof -
  let ?sv = "listener pc False sv"
  have pool: "sv_forward ?sv = os_env os ''GAMESVC_ADDR''" "os_env os ''GAMESVC_ADDR'' \<noteq> ''''" "\<not> sv_internal ?sv" "sv_resolver ?sv"
    "sv_ctx ?sv = sv_ctx sv"
    using process_of(4,5) [OF assms(1)] assms(2) by (auto simp: listener_def)
  have "routed ?sv reachable rt vars rq p = (p, PassedOn (if named \<noteq> '''' \<and> reachable named then named else os_env os ''GAMESVC_ADDR''))"
  proof (cases "rt_routing rt")
    case Local
    then show ?thesis using assms(5) by simp
  next
    case ForwardAll
    then show ?thesis using pool assms(3,6) by (simp add: routed_def forward_all_def follow_def named_def Let_def split: option.split)
  next
    case Owned
    have "Var ''id'' \<in> set (rt_path rt)" "path_match (rt_path rt) (rq_path rq) = Some vars"
      using table_routing(2) Owned found_in_table [OF assms(4)] by auto
    then have "var_of vars ''id'' \<noteq> ''''" using path_match_var [of "rt_path rt" "rq_path rq" vars "''id''"] by (auto simp: var_of_def)
    then show ?thesis
      using Owned pool assms(3,6) by (auto simp: routed_def owned_route_def resolver_owner_def follow_def named_def Let_def split: option.splits if_splits)
  qed
  then show ?thesis
    using assms(4,7) by (auto simp: serve_request_def Let_def split: option.split prod.split)
qed

theorem gateway_executes_no_command_witness:
  "\<exists>pc b rl' out. start_up (sample_outside ''gateway'') = (Inr pc, b)
     \<and> serve_request (listener pc False (plain_services table_ctx)) (\<lambda>a. a = ''pool:8090'') (\<lambda>_ l. (l, True)) (\<lambda>_. ())
          (plain_request ''POST'' [''api'', ''games'', ''g'', ''resign'']) (new_rate_limiter 0, table_pod) = ((rl', table_pod), out)
     \<and> out = PassedOn ''pool:8090''"
proof -
  obtain pc b where s: "start_up (sample_outside ''gateway'') = (Inr pc, b)" "pc_role pc = Gateway"
    using sample_starts(1) by blast
  let ?rq = "plain_request ''POST'' [''api'', ''games'', ''g'', ''resign'']"
  let ?rt = "game_command ''POST'' [Lit ''resign''] EpResign"
  have found: "find_route api_routes (rq_method ?rq) (rq_path ?rq) = Some (?rt, [(''id'', ''g'')])" by code_simp
  show ?thesis
    using gateway_executes_no_command [OF s, of "\<lambda>a. a = ''pool:8090''", OF _ found, of "plain_services table_ctx"
        "\<lambda>_ l. (l, True)" "\<lambda>_. ()" "new_rate_limiter 0" table_pod] s(1)
    by (auto simp: sample_outside_def game_command_def plain_request_def)
qed

section \<open>Origins\<close>

fun join_with :: "char \<Rightarrow> string list \<Rightarrow> string" where
  "join_with sep [] = []"
| "join_with sep [p] = p"
| "join_with sep (p # ps) = p @ sep # join_with sep ps"

lemma split_at_char_nonempty [simp]: "split_at_char sep s \<noteq> []"
  by (cases s) (auto split: list.split)

lemma split_at_char_pieces: "p \<in> set (split_at_char sep s) \<Longrightarrow> sep \<notin> set p"
  by (induction s arbitrary: p) (auto split: if_splits list.splits)

lemma join_split: "join_with sep (split_at_char sep s) = s"
proof (induction s)
  case (Cons c s)
  obtain p ps where "split_at_char sep s = p # ps" by (cases "split_at_char sep s") auto
  with Cons show ?case by (cases ps) auto
qed simp

text \<open>\<open>ALLOWED_ORIGINS\<close> lists the origins between commas: the pieces joined by commas are the value, no piece holds a comma, and an
  origin is echoed exactly when it is not empty and a piece of the list with its blanks trimmed, so a stray comma lets
  nobody in. But a value of blanks and commas only lists nobody and opens the service to every origin.\<close>

theorem origins_are_the_listed_ones:
  "join_with (CHR '','') (split_at_char (CHR '','') raw) = raw
   \<and> list_all (\<lambda>p. CHR '','' \<notin> set p) (split_at_char (CHR '','') raw)
   \<and> cors_origin (parse_origins raw) origin =
       (if list_all (\<lambda>p. trim_space p = '''') (split_at_char (CHR '','') raw) then Some ''*''
        else if origin \<noteq> '''' \<and> origin \<in> trim_space ` set (split_at_char (CHR '','') raw) then Some origin else None)"
proof -
  have "parse_origins raw = [] \<longleftrightarrow> list_all (\<lambda>p. trim_space p = '''') (split_at_char (CHR '','') raw)"
    by (auto simp: parse_origins_def list_all_iff filter_empty_conv)
  moreover have "origin \<noteq> '''' \<Longrightarrow> origin \<in> set (parse_origins raw) \<longleftrightarrow> origin \<in> trim_space ` set (split_at_char (CHR '','') raw)"
    by (auto simp: parse_origins_def)
  ultimately show ?thesis
    using split_at_char_pieces by (auto simp: cors_origin_def origin_allowed_def join_split list_all_iff)
qed

section \<open>Methods\<close>

definition usable_across_origins :: "route \<Rightarrow> bool" where
  "usable_across_origins rt \<longleftrightarrow> rt_method rt \<in> {''GET'', ''HEAD'', ''POST''} \<union> set cors_methods"

text \<open>A browser on an allowed origin may use a route only if the answer to its preflight names the method. Four routes of
  the table are not among them: removing a bot, withdrawing an invitation, leaving the queue and setting the profile.\<close>

theorem preflight_leaves_four_routes_out:
  "map rt_endpoint (filter (\<lambda>rt. \<not> usable_across_origins rt) api_routes) = [EpRemoveBot, EpCancelInvite, EpCancelQueue, EpPutProfile]"
  by (simp add: api_routes_def plain_route_def game_command_def usable_across_origins_def cors_methods_def)

end
