(* ===== verification/Backends.thy ===== *)
theory Backends
  imports Start_Up_Props
begin

text \<open>
  What \<open>main\<close> gets from \<open>internal/db/db.go\<close> and \<open>internal/tracing/tracing.go\<close>: a connection pool whose database answers and is
  migrated, or an error; and the function that ends the tracing, or an error and no function. The SQL driver, the
  migration tool and the exporter are libraries and succeed or fail as inputs.
\<close>

section \<open>Opening the database\<close>

datatype pool_act = PoolOpened | PoolLimits nat nat duration | PoolAnswers | PoolMigrated | PoolClosed

text \<open>\<open>migrate\<close>: the dialect is set, then the migrations run.\<close>

definition migrate :: "bool \<Rightarrow> bool \<Rightarrow> string + unit" where
  "migrate dialect_ok up_ok = (if \<not> dialect_ok then Inl ''goose dialect'' else if \<not> up_ok then Inl ''goose up'' else Inr ())"

definition db_open :: "bool \<Rightarrow> bool \<Rightarrow> bool \<Rightarrow> bool \<Rightarrow> (string + unit) \<times> pool_act list" where
  "db_open sql_ok ping_ok dialect_ok up_ok =
     (if \<not> sql_ok then (Inl ''sql.Open'', [])
      else let acts = [PoolOpened, PoolLimits 20 5 (30 * 60 * 1000000000)]
           in if \<not> ping_ok then (Inl ''ping'', acts @ [PoolClosed])
              else case migrate dialect_ok up_ok of
                     Inl e \<Rightarrow> (Inl e, acts @ [PoolAnswers, PoolClosed])
                   | Inr _ \<Rightarrow> (Inr (), acts @ [PoolAnswers, PoolMigrated]))"

text \<open>A pool is handed out open, answering and migrated, or none is left open.\<close>

lemma refused_database_is_closed:
  assumes "db_open sql_ok ping_ok dialect_ok up_ok = (res, acts)"
  shows "(PoolClosed \<in> set acts \<longleftrightarrow> PoolOpened \<in> set acts \<and> res \<noteq> Inr ()) \<and> (PoolMigrated \<in> set acts \<longleftrightarrow> res = Inr ())
    \<and> (res = Inr () \<longrightarrow> sql_ok \<and> ping_ok \<and> dialect_ok \<and> up_ok)"
  using assms by (auto simp: db_open_def migrate_def Let_def split: if_splits)

section \<open>Tracing\<close>

text \<open>Two results, as in the code: the function to call at the end, which is nil beside an error.\<close>

datatype tracing_end = EndNothing | EndProvider

definition tracing_setup :: "string \<Rightarrow> bool \<Rightarrow> bool \<Rightarrow> tracing_end option \<times> string option" where
  "tracing_setup endpoint exporter_ok resource_ok =
     (if endpoint = '''' then (Some EndNothing, None)
      else if \<not> exporter_ok then (None, Some ''otlp exporter'')
      else if \<not> resource_ok then (None, Some ''resource'')
      else (Some EndProvider, None))"

text \<open>\<open>main\<close> logs the error and goes on; the deferred call at the end calls the function it was given.\<close>

datatype ending = Exits nat | Panics

definition run_deferred :: "tracing_end option \<Rightarrow> act \<Rightarrow> ending \<Rightarrow> ending" where
  "run_deferred f a e = (if a = StopTracing \<and> f = None then Panics else e)"

definition process_ending :: "tracing_end option \<Rightarrow> process \<Rightarrow> boot \<Rightarrow> ending" where
  "process_ending f pc b = fold (run_deferred f) (shut_down pc b) (Exits 0)"

lemma fold_deferred: "fold (run_deferred f) as e = (if StopTracing \<in> set as \<and> f = None then Panics else e)"
  by (induction as arbitrary: e) (auto simp: run_deferred_def)

text \<open>Tracing is optional until the end: with an exporter that could not be set up a process starts and serves, and panics when
  it is stopped.\<close>

theorem failed_tracing_panics_at_the_end:
  assumes "start_up os = (Inr pc, b)"
  shows "process_ending (fst (tracing_setup endpoint exporter_ok resource_ok)) pc b
    = (if endpoint \<noteq> '''' \<and> \<not> (exporter_ok \<and> resource_ok) then Panics else Exits 0)"
proof -
  have "StopTracing \<in> set (bt_defers b)" using started(4) [OF assms] by (simp add: defers_of_def Let_def)
  then have "StopTracing \<in> set (shut_down pc b)" by (simp add: shut_down_def)
  then show ?thesis by (simp add: process_ending_def fold_deferred tracing_setup_def)
qed

end
