(* ===== verification/Loops.thy ===== *)
theory Loops
  imports Elector Matcher Store
begin

text \<open>
  The background loops: the matcher with its doorbell (\<open>matcher.go\<close>), the cleaner of stale games (\<open>store.go\<close>), the heartbeat of the lease
  manager and the campaign of the elector (\<open>internal/lease\<close>). A turn of a loop is one round of its \<open>select\<close>: any of the
  ready cases may be taken.
\<close>

section \<open>The matcher\<close>

text \<open>
  The doorbell is a channel with one slot that all matchers of a process share; each matcher runs under the context of its own
  leadership. \<open>mm_unseen\<close> is a ghost: the doorbell rang and no tick has begun since.
\<close>

record matchers =
  mm_slot :: bool
  mm_loops :: "nat \<Rightarrow> bool option"
  mm_next :: nat
  mm_ticks :: nat
  mm_unseen :: bool

definition no_matchers :: matchers where
  "no_matchers = \<lparr>mm_slot = False, mm_loops = Map.empty, mm_next = 0, mm_ticks = 0, mm_unseen = False\<rparr>"

definition ring_doorbell :: "matchers \<Rightarrow> matchers" where
  "ring_doorbell mm = mm\<lparr>mm_slot := True, mm_unseen := True\<rparr>"

text \<open>The value of a loop says whether its context is cancelled.\<close>

definition start_matcher :: "matchers \<Rightarrow> matchers" where
  "start_matcher mm = mm\<lparr>mm_loops := (mm_loops mm)(mm_next mm \<mapsto> False), mm_next := mm_next mm + 1\<rparr>"

definition cancel_matcher :: "nat \<Rightarrow> matchers \<Rightarrow> matchers" where
  "cancel_matcher i mm = (if mm_loops mm i = None then mm else mm\<lparr>mm_loops := (mm_loops mm)(i \<mapsto> True)\<rparr>)"

datatype turn = Cancelled | Woken | Ticked

definition turn_ready :: "matchers \<Rightarrow> nat \<Rightarrow> turn \<Rightarrow> bool" where
  "turn_ready mm i t =
     (case mm_loops mm i of
        None \<Rightarrow> False
      | Some done \<Rightarrow> (case t of Cancelled \<Rightarrow> done | Woken \<Rightarrow> mm_slot mm | Ticked \<Rightarrow> True))"

definition matcher_turn :: "nat \<Rightarrow> turn \<Rightarrow> matchers \<Rightarrow> matchers" where
  "matcher_turn i t mm =
     (case t of
        Cancelled \<Rightarrow> mm\<lparr>mm_loops := (mm_loops mm)(i := None)\<rparr>
      | Woken \<Rightarrow> mm\<lparr>mm_slot := False, mm_ticks := mm_ticks mm + 1, mm_unseen := False\<rparr>
      | Ticked \<Rightarrow> mm\<lparr>mm_ticks := mm_ticks mm + 1, mm_unseen := False\<rparr>)"

inductive matchers_step :: "matchers \<Rightarrow> matchers \<Rightarrow> bool" where
  mm_ring: "matchers_step mm (ring_doorbell mm)"
| mm_start: "matchers_step mm (start_matcher mm)"
| mm_cancel: "matchers_step mm (cancel_matcher i mm)"
| mm_turn: "turn_ready mm i t \<Longrightarrow> matchers_step mm (matcher_turn i t mm)"

inductive_cases matchers_stepE: "matchers_step mm mm'"

section \<open>The cleaner of stale games\<close>

text \<open>The store remembers the stop channel of its cleaner; a goroutine runs until its channel is closed.\<close>

record cleaner =
  cn_stop :: "nat option"
  cn_running :: "nat set"
  cn_closed :: "nat set"
  cn_next :: nat

definition no_cleaner :: cleaner where
  "no_cleaner = \<lparr>cn_stop = None, cn_running = {}, cn_closed = {}, cn_next = 0\<rparr>"

definition start_stale_cleaner :: "cleaner \<Rightarrow> cleaner" where
  "start_stale_cleaner c =
     (if cn_stop c \<noteq> None then c
      else c\<lparr>cn_stop := Some (cn_next c), cn_running := insert (cn_next c) (cn_running c), cn_next := cn_next c + 1\<rparr>)"

definition stop_stale_cleaner :: "cleaner \<Rightarrow> cleaner" where
  "stop_stale_cleaner c =
     (case cn_stop c of None \<Rightarrow> c | Some i \<Rightarrow> c\<lparr>cn_stop := None, cn_closed := insert i (cn_closed c)\<rparr>)"

definition cleaner_ends :: "nat \<Rightarrow> cleaner \<Rightarrow> cleaner" where
  "cleaner_ends i c = (if i \<in> cn_closed c then c\<lparr>cn_running := cn_running c - {i}\<rparr> else c)"

inductive cleaner_step :: "cleaner \<Rightarrow> cleaner \<Rightarrow> bool" where
  cn_start: "cleaner_step c (start_stale_cleaner c)"
| cn_stop: "cleaner_step c (stop_stale_cleaner c)"
| cn_end: "cleaner_step c (cleaner_ends i c)"

inductive_cases cleaner_stepE: "cleaner_step c c'"

section \<open>Heartbeats and campaigns\<close>

definition heartbeat_interval :: "duration \<Rightarrow> duration" where
  "heartbeat_interval ttl = ttl sdiv 3"

text \<open>The beats of a manager, each with what the database does at its time.\<close>

fun manager_loop :: "(db_event \<times> gtime) list \<Rightarrow> lease_table \<times> manager \<Rightarrow> lease_table \<times> manager" where
  "manager_loop [] s = s"
| "manager_loop ((ev, now) # beats) s = (case renew ev now (fst s) (snd s) of (t, m, _) \<Rightarrow> manager_loop beats (t, m))"

text \<open>The campaigns of an elector.\<close>

fun elector_turns :: "(db_event \<times> gtime) list \<Rightarrow> leader_row option \<times> elector \<Rightarrow> leader_row option \<times> elector" where
  "elector_turns [] s = s"
| "elector_turns ((ev, now) # beats) s = elector_turns beats (campaign ev now (fst s) (snd s))"

text \<open>The whole life of the loop: it steps down when it ends, for whatever reason.\<close>

definition elector_loop :: "(db_event \<times> gtime) list \<Rightarrow> leader_row option \<times> elector \<Rightarrow> leader_row option \<times> elector" where
  "elector_loop beats s = (case elector_turns beats s of (row, e) \<Rightarrow> (row, step_down e))"

end
