(* ===== verification/Loops_Props.thy ===== *)
theory Loops_Props
  imports Loops
begin

text \<open>What the background loops guarantee, and what they do not when the database cannot be reached.\<close>

section \<open>The doorbell\<close>

definition doorbell_inv :: "matchers \<Rightarrow> bool" where
  "doorbell_inv mm \<longleftrightarrow> (mm_unseen mm \<longrightarrow> mm_slot mm) \<and> (\<forall>i \<ge> mm_next mm. mm_loops mm i = None)"

interpretation doorbell: machine "\<lambda>mm. mm = no_matchers" matchers_step doorbell_inv
proof unfold_locales
  show "doorbell_inv mm" if "mm = no_matchers" for mm using that by (simp add: doorbell_inv_def no_matchers_def)
  show "doorbell_inv mm'" if "doorbell_inv mm" "matchers_step mm mm'" for mm mm'
    using that(2,1)
    by (cases rule: matchers_step.cases)
      (auto simp: doorbell_inv_def ring_doorbell_def start_matcher_def cancel_matcher_def matcher_turn_def turn_ready_def
        split: turn.splits option.splits)
qed

text \<open>A ring is never lost while a matcher runs: until a tick begins the slot is full, so the loop is ready without waiting
  for its ticker, and whatever turn it takes begins a tick unless its context is cancelled.\<close>

theorem rings_are_not_lost:
  assumes "reach (\<lambda>mm. mm = no_matchers) matchers_step mm" "mm_unseen mm" "mm_loops mm i = Some False" "turn_ready mm i t"
  shows "turn_ready mm i Woken \<and> mm_ticks (matcher_turn i t mm) = mm_ticks mm + 1 \<and> \<not> mm_unseen (matcher_turn i t mm)"
  using doorbell.inv_reach [OF assms(1)] assms(2-4)
  by (cases t) (auto simp: doorbell_inv_def turn_ready_def matcher_turn_def)

section \<open>One cleaner\<close>

definition cleaner_inv :: "cleaner \<Rightarrow> bool" where
  "cleaner_inv c \<longleftrightarrow> cn_running c - cn_closed c = (case cn_stop c of None \<Rightarrow> {} | Some i \<Rightarrow> {i})
     \<and> (\<forall>i \<in> cn_running c \<union> cn_closed c. i < cn_next c)"

interpretation cleaning: machine "\<lambda>c. c = no_cleaner" cleaner_step cleaner_inv
proof unfold_locales
  show "cleaner_inv c" if "c = no_cleaner" for c using that by (simp add: cleaner_inv_def no_cleaner_def)
  show "cleaner_inv c'" if "cleaner_inv c" "cleaner_step c c'" for c c'
    using that(2,1)
  proof (cases rule: cleaner_step.cases)
    case cn_start
    then show ?thesis using that(1)
      by (auto simp: cleaner_inv_def start_stale_cleaner_def intro: less_SucI split: option.splits)
  next
    case cn_stop
    then show ?thesis using that(1) by (auto simp: cleaner_inv_def stop_stale_cleaner_def split: option.splits)
  next
    case (cn_end i)
    then show ?thesis using that(1) by (auto simp: cleaner_inv_def cleaner_ends_def split: option.splits)
  qed
qed

text \<open>However often a store is told to start its cleaner, at most one goroutine has not been told to stop.\<close>

theorem one_cleaner_runs:
  assumes "reach (\<lambda>c. c = no_cleaner) cleaner_step c" "i \<in> cn_running c - cn_closed c" "j \<in> cn_running c - cn_closed c"
  shows "i = j \<and> cn_stop c = Some i"
  using cleaning.inv_reach [OF assms(1)] assms(2,3) by (auto simp: cleaner_inv_def split: option.splits)

section \<open>Heartbeats\<close>

text \<open>A lease survives two missed heartbeats: nobody else can claim it up to the third, which comes before it expires.\<close>

theorem two_missed_heartbeats:
  assumes "0 < ttl" "t gid = Some l" "lr_owner l = w" "lr_expires l = beat + ttl" "v \<noteq> w"
    "now \<le> beat + 3 * heartbeat_interval ttl"
  shows "claim_row addr (t gid) v now ttl' = None \<and> now \<le> lr_expires l"
proof -
  have "3 * heartbeat_interval ttl \<le> ttl" using assms(1) by (simp add: heartbeat_interval_def signed_divide_int_def)
  then show ?thesis using assms by (auto simp: claim_row_def)
qed

lemma failed_campaigns:
  "elector_turns (map (\<lambda>t. (DbFailed, t)) ts) s = s"
  by (induction ts) (simp_all add: campaign_def)

lemma leads_or_not: "balanced e \<Longrightarrow> balanced (step_down e) \<and> \<not> el_leading (step_down e)"
  by (simp add: balanced_def step_down_def)

lemma turns_balanced: "balanced (snd s) \<Longrightarrow> balanced (snd (elector_turns beats s))"
proof (induction beats s rule: elector_turns.induct)
  case (2 ev now beats s)
  then show ?case using campaign_pods(2) [of ev now "fst s" "snd s"] by (metis elector_turns.simps(2) prod.collapse)
qed simp

text \<open>C38: When the loop of an elector ends, its workload has been told to stop as often as it was started. But a leader that cannot
  reach the database is never deposed: it keeps its workload however long its campaigns fail, also after its row expired and
  another pod was elected, so two matchers run side by side for as long as the failure lasts and
  not for one heartbeat.\<close>

theorem cut_off_leader_goes_on:
  assumes "balanced e" "el_leading e" "ld_owner l = el_owner e" "ld_expires l < now" "el_owner e2 \<noteq> el_owner e"
  shows "(let (row', e') = elector_loop beats (Some l, e) in \<not> is_leader e' \<and> el_starts e' = el_cancels e')
    \<and> (let (row', e2') = campaign DbFine now (Some l) e2; (_, e') = elector_turns (map (\<lambda>t. (DbFailed, t)) later) (row', e)
       in is_leader e2' \<and> is_leader e' \<and> el_starts e' = el_cancels e' + 1 \<and> row' \<noteq> Some l)"
proof -
  obtain row e1 where turns: "elector_turns beats (Some l, e) = (row, e1)" by (cases "elector_turns beats (Some l, e)")
  have "balanced e1" using turns_balanced [of "(Some l, e)" beats] assms(1) turns by simp
  then have "let (row', e') = elector_loop beats (Some l, e) in \<not> is_leader e' \<and> el_starts e' = el_cancels e'"
    using leads_or_not [of e1] by (simp add: elector_loop_def turns balanced_def is_leader_def)
  moreover have "\<exists>l'. campaign DbFine now (Some l) e2 = (Some l', become_leader e2 (ld_epoch l')) \<and> ld_owner l' = el_owner e2"
    using assms(3-5) by (auto simp: campaign_def campaign_sql_def)
  ultimately show ?thesis
    using assms(1-3,5) by (auto simp: failed_campaigns is_leader_def become_leader_def balanced_def)
qed

theorem cut_off_leader_goes_on_witness:
  "\<exists>e2'. snd (campaign DbFine 100 (Some \<lparr>ld_owner = ''a'', ld_epoch = 1, ld_expires = 15\<rparr>) (new_elector ''b'')) = e2' \<and> is_leader e2'"
proof -
  let ?e = "become_leader (new_elector ''a'') 1" and ?l = "\<lparr>ld_owner = ''a'', ld_epoch = 1, ld_expires = 15\<rparr>"
  have "balanced ?e" "el_leading ?e" "el_owner ?e = ''a''" by (simp_all add: balanced_def become_leader_def new_elector_def)
  then show ?thesis
    using cut_off_leader_goes_on [of ?e ?l 100 "new_elector ''b''" "[]" "[]"] by (auto simp: new_elector_def split: prod.splits)
qed

end
