(* ===== verification/Spec2Isabelle.thy ===== *)
theory Spec2Isabelle
  imports Game_Props Ai_Props Elo Lease Elector Timers_Props Bus_Calls Presence_Calls Clock_Calls Matcher_Live Repo_Props Replay_Props Play_Props
    Wire_Props Events_Props Forward_Props Rate_Limit Search_Props Handlers_Props Sockets_Props Client_Props In_Memory Routes_Props
    Fleet_Props Observe_Props Start_Up_Props Backends Loops_Props
begin

text \<open>
  Gemline is a turn-based board game on a hexagon with a server written in Go. A few gateway pods
  terminate HTTP and WebSocket connections and forward them to game pods; a game pod keeps the
  games it plays in memory, owns each of them by a lease in PostgreSQL, and writes every change through
  a repository. Events go to the clients of all pods over Redis. This library models the Go
  code under \<open>internal/\<close>, one theory per part, and proves what makes each part correct.

  \<^bold>\<open>The rules engine\<close> (\<open>internal/game\<close>). \<open>Game_Types\<close> and \<open>Board\<close> hold the types of \<open>types.go\<close> and the board of
  \<open>board.go\<close>, with 64-bit coordinates: \<open>wrap64\<close> is applied where the code adds them. \<open>Rules\<close> is
  \<open>rules.go\<close>. \<open>Game_State\<close> is \<open>state.go\<close>: \<open>apply_move\<close> returns \<open>Done\<close>, \<open>Fail\<close> with one of the engine's errors,
  or \<open>Panic\<close>. \<open>Game_Props\<close> has its properties: the accounting invariant of every reachable game, what a
  move changes, when each error or a panic happens, who wins, that a finished game is final.

  \<^bold>\<open>The bot\<close> (\<open>internal/ai\<close>). \<open>Ai\<close> is \<open>heuristic.go\<close>, with the random choice as a parameter; \<open>Ai_Props\<close>
  compares the pruned search with plain minimax and shows the chosen move is legal.

  \<^bold>\<open>Ratings\<close> (\<open>internal/elo\<close>). \<open>Elo\<close> reads the floating-point formula over the reals.

  \<^bold>\<open>Leases\<close> (\<open>internal/lease\<close>). \<open>Lease\<close> models the acquire statement as a function of the table, the
  manager's operations and the fence of the repository's writes, and a cluster of pods as a step relation;
  \<open>Elector\<close> does the same for leader election. Both statements are interpretations of one locale,
  \<open>claimable\<close>.

  \<^bold>\<open>Timers and fan-out\<close> (\<open>clock.go\<close>, \<open>presence.go\<close>, \<open>hub.go\<close>, \<open>internal/bus/redis.go\<close>). \<open>Timers\<close> and
  \<open>Fanout\<close> model the goroutines that wait for a deadline, the hub's subscribers with their buffers, and
  the interest counts that decide which Redis channels a process listens to; \<open>Timers_Props\<close> shows that the timers refine
  an alarm clock. The code counts watchers and connections under a lock and acts on the counts after it has released it: \<open>Two_Phase\<close>
  has this pattern as a locale, and \<open>Bus_Calls\<close>, \<open>Presence_Calls\<close> and \<open>Clock_Calls\<close> interpret it for the subscriptions of the bus, for
  the grace timers, and for the chess clocks and the heartbeat of the leases. They show when the two phases can be read as the single step the other theories take, and what goes wrong otherwise.

  \<^bold>\<open>The repository\<close> (\<open>repo_postgres.go\<close>). \<open>Records\<close> holds the server's records, \<open>Repo\<close> each statement
  or transaction as a function on the tables (record \<open>db\<close>) with the constraints of the migrations it
  relies on. Loading makes three queries, which \<open>load_game_reads\<close> takes from three states of the tables; \<open>load_game\<close> is a load that no write
  comes between, as the operations of the store use it. \<open>Repo_Props\<close> has the invariant of the tables, preserved by every call, and its
  consequences for events, fencing, ratings and rematches; \<open>Replay_Props\<close> relates a loaded game to the
  one that was played. \<open>In_Memory\<close> has \<open>noopRepo\<close>, the repository of a process without a database, and the contract
  both repositories keep, as the locale \<open>repository\<close>.

  \<^bold>\<open>Matchmaking\<close> (\<open>matcher.go\<close>, \<open>matchmaking.go\<close>). \<open>Matcher\<close> and \<open>Matcher_Props\<close>; the two pairing rules
  are interpretations of the locale \<open>pairing_rule\<close>. \<open>Matcher_Live\<close> runs the queue: two players within reach of each other
  do not both wait for ever.

  \<^bold>\<open>The store of a process\<close> (\<open>store.go\<close>, \<open>bot.go\<close>, \<open>draw.go\<close>, \<open>rematch.go\<close>). \<open>Store\<close>, \<open>Room\<close>, \<open>Play\<close> and
  \<open>Rematch\<close> translate its operations over the record \<open>store\<close>: records live in a heap because the code
  shares them by pointer, the cache maps ids to references, goroutines that are started are entries
  of \<open>so_tasks\<close>. The record \<open>env\<close> holds what an operation takes from outside: clocks, tokens, ids, the hash
  function, which repository calls fail. \<open>Store_Props\<close> runs all operations in any order, the callbacks of the heartbeat and the calls of the clock
  manager as steps of their own.

  \<open>Play_Props\<close> has the properties of single operations: who may move, join, start, or end a game, and when a rematch
  comes about.

  \<^bold>\<open>What clients see\<close> (\<open>dto.go\<close>, \<open>hub.go\<close>, \<open>replay.go\<close>, \<open>events.go\<close>, \<open>lobby.go\<close>). \<open>Wire\<close> has the snapshots, events and
  replays, \<open>Events\<close> their way to the subscribers: a record \<open>pod\<close> puts the two hubs, the pod's id and the messages it
  sent on the bus around the store. JSON is a parameter that may fail. \<open>Wire_Props\<close> and \<open>Events_Props\<close> show that snapshots hide the
  tokens, that replays show the captures that happened and that every pod delivers a published event.

  \<^bold>\<open>Requests\<close> (\<open>server.go\<close>, \<open>auth.go\<close>, \<open>forward.go\<close>, \<open>ratelimit.go\<close>, \<open>users.go\<close>, \<open>chat.go\<close>, \<open>lobby.go\<close>). \<open>Forward\<close> decides who handles a command and
  as which account, \<open>Rate_Limit\<close> which callers are slowed down, over the token bucket of a library as a parameter, and
  \<open>Handlers\<close> has one definition per endpoint, from the decoded request to the status and body, with every early
  return. \<open>Handlers_Props\<close> composes them with the store and the publisher. \<open>Search\<close> is the search by name. \<open>Routes\<close> has the route table with the
  limit and the routing of each endpoint and \<open>serve_request\<close>, what a pod does with a request from its arrival to the answer or to the pod
  it goes to; \<open>Routes_Props\<close> shows that commands reach the owner untouched and that everything else changes no game. \<open>Fleet\<close> puts several
  pods over one database and follows a request through \<open>proxyTo\<close> to the internal listener of the next pod; \<open>Fleet_Props\<close> shows that a command
  through a gateway is the command at the owner, and that guests share one bucket there. \<open>Observe\<close> has the middleware around the
  routes over request objects that are shared or copied; \<open>Observe_Props\<close> says which route the metrics and the traces see.

  \<^bold>\<open>Connections\<close> (\<open>ws.go\<close>, \<open>lobby.go\<close>). \<open>Sockets\<close> has the steps of the two goroutines of a WebSocket connection over a pod;
  \<open>Sockets_Props\<close> shows that the presence counts are the open connections, and whom the grace timer hits. \<open>Client\<close> is the bookkeeping
  at the other end, in the browser (\<open>web/src/api/gameSocket.ts\<close>): \<open>Client_Props\<close> shows that a client applies the log of its game in order
  whatever is lost on the way, and in which two cases it loses events.

  \<^bold>\<open>The process\<close> (\<open>cmd/server/main.go\<close>, \<open>cors.go\<close>). \<open>Start_Up\<close> has the phases of \<open>main\<close> as functions that return a value or the message of the
  exit, beside the actions done and deferred so far; it builds the pod and the configuration that \<open>serve_request\<close> serves with. \<open>Start_Up_Props\<close> says when a
  start is refused, what each role runs, in which order it stops, and that a gateway executes no command. \<open>Backends\<close> is the opening
  of the database (\<open>internal/db\<close>) and the set-up of tracing (\<open>internal/tracing\<close>) that \<open>main\<close> relies on. \<open>Loops\<close> has the background loops as rounds of
  their \<open>select\<close>; \<open>Loops_Props\<close> shows that no ring of the matcher's doorbell is lost, that one cleaner runs, and what heartbeats
  and elections do when the database cannot be reached.

  \<^bold>\<open>Text.\<close> Strings are lists of bytes. \<open>Utf8\<close> reads them as Go does, as characters with a replacement for stray bytes, where the code
  counts or trims characters: names, chat messages, and what JSON makes of a name that is not well formed.

  \<^bold>\<open>Conventions.\<close> Go's \<open>int\<close> is \<open>int\<close> with the wrap-around written out where coordinates come from
  outside; times are nanoseconds. An error is \<open>Inl\<close> of \<open>app_error\<close>. A critical section with the repository
  calls it makes is one step. Loops that walk a run take a fuel of twice the side of the board,
  proved enough in \<open>Rules\<close>; the search has the fixed depth of the code.

  \<^bold>\<open>Not modelled.\<close> The bytes of HTTP and WebSocket connections, JSON, the counters of games and moves, and what the SQL driver, the migration
  tool and the exporter of traces do inside are glue around the operations. The Redis and PostgreSQL clients are represented by
  what the code relies on: the set of subscribed channels and the messages sent, and the tables with the meaning of each statement.
  The column of event payloads is JSONB; it is taken to give back the text that was written, which it does up to the order of keys and blanks.
  The pages and decisions of the host's accounts are a third-party package. The operations of the store run over the tables,
  so a process without a database has its repository but no pod in the model.
\<close>

end
